(* ===== verification/Prelude.thy ===== *)
theory Prelude
  imports
    "HOL-Library.Word"
    "HOL-Library.AList"
    "HOL-Library.Char_ord"
    "HOL-Library.List_Lexorder"
    "HOL-Library.Product_Lexorder"
    "HOL-Library.Multiset"
begin

text \<open>
  What every component of the development shares: the names of Rust's machine integers and the
  saturating, checked and clamping operations of its standard library; \<open>HashMap\<close> as an
  association list behind the interface \<open>hash_map\<close>; and the generic lemmas and named collections
  the component theories give to the simplifier.
\<close>

named_theorems dom_simps
  \<open>equations that unfold the small accessors and constructors of the model\<close>

named_theorems inv_intros
  \<open>preservation facts of the invariants, one for each operation\<close>

section \<open>Machine integers\<close>

text \<open>
  Unsigned integers are words of their width. \<open>i16\<close> and \<open>i8\<close> are the same words read by
  \<^const>\<open>sint\<close>. \<open>i64\<close> occurs only as the target of a widening cast, in comparisons and in sums of
  two values of at most 32 bits, which never leave its range: it is \<open>int\<close>.
\<close>

type_synonym u8 = "8 word"
type_synonym u16 = "16 word"
type_synonym u32 = "32 word"
type_synonym u64 = "64 word"
type_synonym i8 = "8 word"
type_synonym i16 = "16 word"
type_synonym i64 = int

text \<open>\<open>saturating_mul\<close>, \<open>saturating_sub\<close>, \<open>checked_mul\<close> and \<open>clamp\<close>.\<close>

definition saturating_mul :: "'a::len word \<Rightarrow> 'a word \<Rightarrow> 'a word" where
  "saturating_mul a b = (if uint a * uint b < 2 ^ LENGTH('a) then a * b else - 1)"

definition saturating_sub :: "'a::len word \<Rightarrow> 'a word \<Rightarrow> 'a word" where
  "saturating_sub a b = (if a < b then 0 else a - b)"

definition checked_mul :: "'a::len word \<Rightarrow> 'a word \<Rightarrow> 'a word option" where
  "checked_mul a b = (if uint a * uint b < 2 ^ LENGTH('a) then Some (a * b) else None)"

definition clamp :: "'a::linorder \<Rightarrow> 'a \<Rightarrow> 'a \<Rightarrow> 'a" where
  "clamp lo hi x = (if x < lo then lo else if hi < x then hi else x)"

lemma uint_mult_fits:
  "uint a * uint b < 2 ^ LENGTH('a) \<longleftrightarrow> unat a * unat b < 2 ^ LENGTH('a)"
  for a b :: "'a::len word"
proof -
  have "uint a * uint b < 2 ^ LENGTH('a) \<longleftrightarrow> int (unat a * unat b) < int (2 ^ LENGTH('a))"
    by simp
  then show ?thesis
    by (simp only: of_nat_less_iff)
qed

lemma unat_saturating_mul:
  "unat (saturating_mul a b) = min (unat a * unat b) (2 ^ LENGTH('a) - 1)"
  for a b :: "'a::len word"
proof (cases "unat a * unat b < 2 ^ LENGTH('a)")
  case True
  moreover from this have "unat a * unat b \<le> 2 ^ LENGTH('a) - 1"
    by simp
  ultimately show ?thesis
    by (simp add: saturating_mul_def uint_mult_fits unat_word_ariths min_absorb1)
next
  case False
  then show ?thesis
    by (simp add: saturating_mul_def uint_mult_fits min_absorb2 unsigned_minus_1_eq_mask mask_eq_exp_minus_1)
qed

lemma unat_saturating_sub [simp]: "unat (saturating_sub a b) = unat a - unat b"
  by (auto simp: saturating_sub_def word_less_nat_alt unat_sub word_le_nat_alt)

lemma checked_mul_Some: "checked_mul a b = Some c \<Longrightarrow> unat c = unat a * unat b"
  by (auto simp: checked_mul_def uint_mult_fits unat_word_ariths split: if_splits)

lemma checked_mul_None: "checked_mul a b = None \<longleftrightarrow> 2 ^ LENGTH('a) \<le> unat a * unat b"
  for a b :: "'a::len word"
  by (auto simp: checked_mul_def uint_mult_fits)

lemma clamp_bounds: "lo \<le> hi \<Longrightarrow> lo \<le> clamp lo hi x \<and> clamp lo hi x \<le> hi"
  by (auto simp: clamp_def)

lemma clamp_id [simp]: "lo \<le> x \<Longrightarrow> x \<le> hi \<Longrightarrow> clamp lo hi x = x"
  by (auto simp: clamp_def)

lemma unat_less_pow: "unat w < 2 ^ LENGTH('a)" for w :: "'a::len word"
  by (rule unsigned_less)

lemma unat_ucast_mod: "unat (ucast w :: 'b::len word) = unat w mod 2 ^ LENGTH('b)" for w :: "'a::len word"
  by (simp add: unsigned_ucast_eq take_bit_eq_mod)

lemma word_max_1: "0 < unat w \<Longrightarrow> max w 1 = w" for w :: "'a::len word"
  by (rule max_absorb1) (simp add: word_le_nat_alt)

lemma unat_Suc_word: "unat w < 2 ^ LENGTH('a) - 1 \<Longrightarrow> unat (w + 1) = Suc (unat w)"
  for w :: "'a::len word"
  by (auto simp: unat_word_ariths)

lemma nat_div_bounds:
  fixes n d :: nat
  assumes "0 < d"
  shows "d * (n div d) \<le> n" and "n < d * (n div d) + d"
  using mult_div_mod_eq [of d n] mod_less_divisor [OF assms, of n] by linarith+

section \<open>HashMap\<close>

text \<open>
  A Rust \<open>HashMap\<close> is an association list with distinct keys: \<open>insert\<close> is \<^const>\<open>AList.update\<close>,
  \<open>remove\<close> is \<^const>\<open>AList.delete\<close>, \<open>get\<close> is \<^const>\<open>map_of\<close>. The order of the list stands for the
  unspecified iteration order of the table; a result the code exposes must not depend on it.
\<close>

type_synonym ('k, 'v) hashmap = "('k \<times> 'v) list"

abbreviation hm_insert :: "'k \<Rightarrow> 'v \<Rightarrow> ('k, 'v) hashmap \<Rightarrow> ('k, 'v) hashmap" where
  "hm_insert \<equiv> AList.update"

abbreviation hm_remove :: "'k \<Rightarrow> ('k, 'v) hashmap \<Rightarrow> ('k, 'v) hashmap" where
  "hm_remove \<equiv> AList.delete"

abbreviation hm_get :: "('k, 'v) hashmap \<Rightarrow> 'k \<Rightarrow> 'v option" where
  "hm_get \<equiv> map_of"

abbreviation hm_wf :: "('k, 'v) hashmap \<Rightarrow> bool" where
  "hm_wf m \<equiv> distinct (map fst m)"

locale hash_map =
  fixes new :: 'm
    and insert :: "'k \<Rightarrow> 'v \<Rightarrow> 'm \<Rightarrow> 'm"
    and remove :: "'k \<Rightarrow> 'm \<Rightarrow> 'm"
    and get :: "'m \<Rightarrow> 'k \<Rightarrow> 'v option"
    and wf :: "'m \<Rightarrow> bool"
  assumes get_new: "get new k = None"
    and get_insert: "wf m \<Longrightarrow> get (insert k v m) = (get m)(k \<mapsto> v)"
    and get_remove: "wf m \<Longrightarrow> get (remove k m) = (get m)(k := None)"
    and wf_new: "wf new"
    and wf_insert: "wf m \<Longrightarrow> wf (insert k v m)"
    and wf_remove: "wf m \<Longrightarrow> wf (remove k m)"
begin

text \<open>Whatever table is used, a sequence of insertions leaves the last value of each key.\<close>

lemma get_inserts:
  "wf m \<Longrightarrow> wf (fold (\<lambda>(k, v). insert k v) kvs m) \<and>
    get (fold (\<lambda>(k, v). insert k v) kvs m) = get m ++ map_of (rev kvs)"
proof (induction kvs arbitrary: m)
  case Nil
  then show ?case by simp
next
  case (Cons kv kvs)
  obtain k v where kv: "kv = (k, v)"
    by fastforce
  have "wf (insert k v m)"
    using Cons.prems by (rule wf_insert)
  from Cons.IH [OF this] Cons.prems show ?case
    by (auto simp: kv get_insert map_add_def fun_eq_iff split: option.splits)
qed

lemma insert_remove_get: "wf m \<Longrightarrow> get (remove k (insert k v m)) k = None"
  by (simp add: get_remove wf_insert)

lemma get_insert_other: "wf m \<Longrightarrow> k' \<noteq> k \<Longrightarrow> get (insert k v m) k' = get m k'"
  by (simp add: get_insert)

end

interpretation hm: hash_map "[]" hm_insert hm_remove hm_get hm_wf
  by unfold_locales (auto simp: update_conv' delete_conv' distinct_update distinct_delete)

lemma set_hm_remove: "set (hm_remove k m) = {e \<in> set m. fst e \<noteq> k}"
  by (auto simp: AList.delete_eq)

lemma hm_get_iff: "hm_wf m \<Longrightarrow> hm_get m k = Some v \<longleftrightarrow> (k, v) \<in> set m"
  by (rule map_of_eq_Some_iff)

lemma set_hm_insert:
  "hm_wf m \<Longrightarrow> set (hm_insert k v m) = Set.insert (k, v) {e \<in> set m. fst e \<noteq> k}"
proof (induction m)
  case (Cons e m)
  then show ?case
    by (cases e) (force simp: image_iff)
qed simp

lemma hm_get_insert [simp]: "hm_get (hm_insert k v m) = (hm_get m)(k \<mapsto> v)"
  by (rule update_conv')

lemma hm_get_remove [simp]: "hm_get (hm_remove k m) = (hm_get m)(k := None)"
  by (rule delete_conv')

lemma hm_wf_insert [simp, inv_intros]: "hm_wf m \<Longrightarrow> hm_wf (hm_insert k v m)"
  by (rule distinct_update)

lemma hm_wf_remove [simp, inv_intros]: "hm_wf m \<Longrightarrow> hm_wf (hm_remove k m)"
  by (rule distinct_delete)

section \<open>Sorting, minima and multisets\<close>

text \<open>\<open>Iterator::min\<close>.\<close>

fun min_opt :: "'a::linorder list \<Rightarrow> 'a option" where
  "min_opt [] = None"
| "min_opt (x # xs) = Some (fold min xs x)"

lemma min_opt_Some_iff:
  "min_opt xs = Some m \<longleftrightarrow> m \<in> set xs \<and> \<not> (\<exists>x. x \<in> set xs \<and> x < m)"
proof (cases xs)
  case (Cons x ys)
  have "Min (set xs) = m \<longleftrightarrow> m \<in> set xs \<and> \<not> (\<exists>x. x \<in> set xs \<and> x < m)"
    using Cons by (subst Min_eq_iff) (auto simp: not_less)
  then show ?thesis
    by (simp add: Cons Min.set_eq_fold [symmetric] del: List.set_simps)
qed simp

lemma min_opt_None_iff [simp]: "min_opt xs = None \<longleftrightarrow> xs = []"
  by (cases xs) auto


lemma sort_mset_cong: "mset xs = mset ys \<Longrightarrow> sort xs = sort ys"
  by (metis properties_for_sort mset_sort sorted_sort)

lemma mult_less_than_step:
  assumes "\<forall>x \<in># N. x < m"
  shows "(M + N, add_mset m M) \<in> mult less_than"
proof -
  have "(M + N, M + {#m#}) \<in> mult less_than"
    by (rule one_step_implies_mult) (use assms in auto)
  then show ?thesis
    by simp
qed

end
