(* ===== verification/Rust_Strings.thy ===== *)
theory Rust_Strings
  imports Prelude
begin

text \<open>
  The string operations of Rust's standard library the program uses. A \<open>String\<close> is its UTF-8
  bytes: \<^typ>\<open>string\<close> is a list of 8-bit characters, so lengths and slices count bytes as Rust's do
  and the order of strings is the bytewise order.
\<close>

section \<open>Decimal numbers\<close>

definition digit_char :: "nat \<Rightarrow> char" where
  "digit_char d = char_of (48 + d)"

definition digit_val :: "char \<Rightarrow> nat" where
  "digit_val c = of_char c - 48"

definition is_digit :: "char \<Rightarrow> bool" where
  "is_digit c \<longleftrightarrow> 48 \<le> (of_char c :: nat) \<and> (of_char c :: nat) \<le> 57"

text \<open>\<open>format!("{n}")\<close> of an unsigned integer.\<close>

fun decimal :: "nat \<Rightarrow> string" where
  "decimal n = (if n < 10 then [digit_char n] else decimal (n div 10) @ [digit_char (n mod 10)])"

declare decimal.simps [simp del]

definition digits_to_nat :: "string \<Rightarrow> nat" where
  "digits_to_nat s = foldl (\<lambda>a c. 10 * a + digit_val c) 0 s"

text \<open>
  \<open>str::parse\<close> for an unsigned type of less than \<open>bound\<close> values: one optional \<open>+\<close>, then at least
  one digit and nothing else; a value out of range is an error.
\<close>

definition parse_uint :: "nat \<Rightarrow> string \<Rightarrow> nat option" where
  "parse_uint bound s =
     (let ds = (if take 1 s = ''+'' then drop 1 s else s) in
      if ds = [] \<or> \<not> list_all is_digit ds then None
      else if digits_to_nat ds < bound then Some (digits_to_nat ds) else None)"

lemma of_char_digit [simp]: "d < 10 \<Longrightarrow> of_char (digit_char d) = 48 + d"
  by (simp add: digit_char_def)

lemma digit_val_char [simp]: "d < 10 \<Longrightarrow> digit_val (digit_char d) = d"
  by (simp add: digit_val_def)

lemma is_digit_char [simp]: "d < 10 \<Longrightarrow> is_digit (digit_char d)"
  by (simp add: is_digit_def)

lemma digits_to_nat_snoc: "digits_to_nat (s @ [c]) = 10 * digits_to_nat s + digit_val c"
  by (simp add: digits_to_nat_def)

lemma decimal_digits: "list_all is_digit (decimal n)"
proof (induction n rule: decimal.induct)
  case (1 n)
  then show ?case
    by (subst decimal.simps) auto
qed

lemma decimal_nonempty [simp]: "decimal n \<noteq> []"
  by (subst decimal.simps) simp

lemma digits_to_nat_decimal [simp]: "digits_to_nat (decimal n) = n"
proof (induction n rule: decimal.induct)
  case (1 n)
  show ?case
  proof (cases "n < 10")
    case True
    then show ?thesis
      by (subst decimal.simps) (simp add: digits_to_nat_def)
  next
    case False
    with "1.IH" show ?thesis
      by (subst decimal.simps) (simp add: digits_to_nat_snoc)
  qed
qed

lemma decimal_inject [simp]: "decimal m = decimal n \<longleftrightarrow> m = n"
  by (metis digits_to_nat_decimal)

lemma plus_not_digit: "\<not> is_digit CHR ''+''"
  by (simp add: is_digit_def)

lemma decimal_no_plus: "take 1 (decimal n) \<noteq> ''+''"
proof
  assume "take 1 (decimal n) = ''+''"
  then have "CHR ''+'' \<in> set (decimal n)"
    by (metis in_set_takeD list.set_intros(1))
  then show False
    using decimal_digits [of n] plus_not_digit by (auto simp: list_all_iff)
qed

lemma parse_uint_decimal: "n < bound \<Longrightarrow> parse_uint bound (decimal n) = Some n"
  using decimal_no_plus [of n] by (simp add: parse_uint_def decimal_digits)

lemma parse_uint_less: "parse_uint bound s = Some n \<Longrightarrow> n < bound"
  by (auto simp: parse_uint_def Let_def split: if_splits)

section \<open>Prefixes, splitting and trimming\<close>

definition starts_with :: "string \<Rightarrow> string \<Rightarrow> bool" where
  "starts_with p s \<longleftrightarrow> take (length p) s = p"

definition strip_prefix :: "string \<Rightarrow> string \<Rightarrow> string option" where
  "strip_prefix p s = (if starts_with p s then Some (drop (length p) s) else None)"

text \<open>\<open>split_once(c)\<close> for one ASCII separator: what is before and after its first occurrence.\<close>

fun split_once :: "char \<Rightarrow> string \<Rightarrow> (string \<times> string) option" where
  "split_once c [] = None"
| "split_once c (x # xs) =
     (if x = c then Some ([], xs)
      else map_option (\<lambda>(a, b). (x # a, b)) (split_once c xs))"

text \<open>
  The characters with the Unicode property White_Space, as UTF-8 sequences; \<open>trim\<close> drops them at
  both ends.
\<close>

definition utf8_bytes :: "nat list \<Rightarrow> string" where
  "utf8_bytes = map char_of"

definition white_space :: "string list" where
  "white_space = map utf8_bytes
     ([[9], [10], [11], [12], [13], [32], [194, 133], [194, 160], [225, 154, 128],
       [226, 128, 128], [226, 128, 129], [226, 128, 130], [226, 128, 131], [226, 128, 132],
       [226, 128, 133], [226, 128, 134], [226, 128, 135], [226, 128, 136], [226, 128, 137],
       [226, 128, 138], [226, 128, 168], [226, 128, 169], [226, 128, 175], [226, 129, 159],
       [227, 128, 128]])"

fun drop_any :: "nat \<Rightarrow> string list \<Rightarrow> string \<Rightarrow> string" where
  "drop_any 0 ws s = s"
| "drop_any (Suc n) ws s =
     (case find (\<lambda>w. starts_with w s) ws of
        None \<Rightarrow> s
      | Some w \<Rightarrow> drop_any n ws (drop (length w) s))"

definition trim_start :: "string \<Rightarrow> string" where
  "trim_start s = drop_any (length s) white_space s"

definition trim_end :: "string \<Rightarrow> string" where
  "trim_end s = rev (drop_any (length s) (map rev white_space) (rev s))"

definition trim :: "string \<Rightarrow> string" where
  "trim s = trim_end (trim_start s)"

lemma starts_with_append [simp]: "starts_with p (p @ s)"
  by (simp add: starts_with_def)

lemma starts_with_iff: "starts_with p s \<longleftrightarrow> (\<exists>t. s = p @ t)"
  by (metis append_take_drop_id starts_with_append starts_with_def)

lemma split_once_Some: "split_once c s = Some (a, b) \<Longrightarrow> s = a @ c # b \<and> c \<notin> set a"
  by (induction s arbitrary: a) (auto split: if_splits)

lemma split_once_append: "c \<notin> set a \<Longrightarrow> split_once c (a @ c # b) = Some (a, b)"
  by (induction a) auto

lemma split_once_None: "split_once c s = None \<longleftrightarrow> c \<notin> set s"
  by (induction s) auto

text \<open>The number of rounds \<open>trim\<close> allows is enough: what is left starts with no white space.\<close>

lemma drop_any_done:
  assumes "length s \<le> n" and "[] \<notin> set ws"
  shows "\<not> (\<exists>w \<in> set ws. starts_with w (drop_any n ws s))"
  using assms
proof (induction n arbitrary: s)
  case 0
  then show ?case
    by (auto simp: starts_with_def)
next
  case (Suc n)
  show ?case
  proof (cases "find (\<lambda>w. starts_with w s) ws")
    case None
    then have "drop_any (Suc n) ws s = s"
      by simp
    with None show ?thesis
      by (simp add: find_None_iff del: drop_any.simps)
  next
    case (Some w)
    then have w: "w \<in> set ws" "starts_with w s"
      by (auto simp: find_Some_iff)
    with Suc.prems(2) have "0 < length w" "length w \<le> length s"
      by (auto simp: starts_with_iff)
    with Suc.prems(1) have "length (drop (length w) s) \<le> n"
      by (cases w) auto
    with Suc.IH Suc.prems(2) Some show ?thesis
      by simp
  qed
qed

lemma trim_start_done: "w \<in> set white_space \<Longrightarrow> \<not> starts_with w (trim_start s)"
  using drop_any_done [of s "length s" white_space]
  by (auto simp: trim_start_def white_space_def utf8_bytes_def)

section \<open>ASCII classes\<close>

definition is_ascii_hexdigit :: "char \<Rightarrow> bool" where
  "is_ascii_hexdigit c \<longleftrightarrow>
     (let n = (of_char c :: nat) in
      48 \<le> n \<and> n \<le> 57 \<or> 65 \<le> n \<and> n \<le> 70 \<or> 97 \<le> n \<and> n \<le> 102)"

definition hex_val :: "char \<Rightarrow> nat" where
  "hex_val c =
     (let n = (of_char c :: nat) in
      if n \<le> 57 then n - 48 else if n \<le> 70 then n - 55 else n - 87)"

definition is_ascii_alphabetic :: "char \<Rightarrow> bool" where
  "is_ascii_alphabetic c \<longleftrightarrow>
     (let n = (of_char c :: nat) in 65 \<le> n \<and> n \<le> 90 \<or> 97 \<le> n \<and> n \<le> 122)"

definition hex_char :: "nat \<Rightarrow> char" where
  "hex_char d = (if d < 10 then char_of (48 + d) else char_of (87 + d))"

lemma hex_val_less: "is_ascii_hexdigit c \<Longrightarrow> hex_val c < 16"
  by (auto simp: is_ascii_hexdigit_def hex_val_def Let_def)

lemma hex_char_digit [simp]: "d < 16 \<Longrightarrow> is_ascii_hexdigit (hex_char d)"
  by (simp add: is_ascii_hexdigit_def hex_char_def Let_def)

lemma hex_val_char [simp]: "d < 16 \<Longrightarrow> hex_val (hex_char d) = d"
  by (simp add: hex_val_def hex_char_def Let_def)

end
