(* ===== verification/Model.thy ===== *)
theory Model
  imports Rust_Strings
begin

text \<open>
  The canonical vocabulary: the interned identifiers of \<open>ids.rs\<close> and the capabilities, events and
  commands of \<open>model.rs\<close>. Every constructor is a variant of the Rust enum of the same place; the
  variants of \<open>CapabilityKind\<close> carry a \<open>K\<close> because \<open>CapabilityState\<close> has the same names.
\<close>

section \<open>Identifiers (\<open>ids.rs\<close>)\<close>

datatype device_id = DeviceId (device_num: u32)
datatype rule_id = RuleId (rule_num: u32)
datatype scene_id = SceneId (scene_num: u32)
datatype schedule_id = ScheduleId (schedule_num: u32)
datatype action_id = ActionId (action_num: u32)
datatype timer_key = TimerKey (timer_name: string)

type_synonym millis = u64

text \<open>Timer keys are ordered as their strings, schedule ids as their numbers.\<close>

instantiation timer_key :: linorder
begin

definition less_eq_timer_key :: "timer_key \<Rightarrow> timer_key \<Rightarrow> bool" where
  "less_eq_timer_key a b \<longleftrightarrow> timer_name a \<le> timer_name b"

definition less_timer_key :: "timer_key \<Rightarrow> timer_key \<Rightarrow> bool" where
  "less_timer_key a b \<longleftrightarrow> timer_name a < timer_name b"

instance
  by standard (auto simp: less_eq_timer_key_def less_timer_key_def timer_key.expand)

end

instantiation schedule_id :: linorder
begin

definition less_eq_schedule_id :: "schedule_id \<Rightarrow> schedule_id \<Rightarrow> bool" where
  "less_eq_schedule_id a b \<longleftrightarrow> schedule_num a \<le> schedule_num b"

definition less_schedule_id :: "schedule_id \<Rightarrow> schedule_id \<Rightarrow> bool" where
  "less_schedule_id a b \<longleftrightarrow> schedule_num a < schedule_num b"

instance
  by standard (auto simp: less_eq_schedule_id_def less_schedule_id_def schedule_id.expand)

end

section \<open>Capabilities (\<open>model.rs\<close>)\<close>

datatype capability_kind =
    KSwitch | KBrightness | KColor | KColorTemperature | KOccupancy | KBattery | KTemperature
  | KHumidity | KIlluminance | KPower | KContact | KWaterLeak | KSmoke | KIrTransmitter
  | KTimeOfDay | KSunUp

fun is_numeric :: "capability_kind \<Rightarrow> bool" where
  "is_numeric KBrightness = True"
| "is_numeric KBattery = True"
| "is_numeric KColorTemperature = True"
| "is_numeric KTimeOfDay = True"
| "is_numeric KTemperature = True"
| "is_numeric KHumidity = True"
| "is_numeric KIlluminance = True"
| "is_numeric KPower = True"
| "is_numeric _ = False"

fun is_bool :: "capability_kind \<Rightarrow> bool" where
  "is_bool KSwitch = True"
| "is_bool KOccupancy = True"
| "is_bool KSunUp = True"
| "is_bool KContact = True"
| "is_bool KWaterLeak = True"
| "is_bool KSmoke = True"
| "is_bool _ = False"

fun kind_name :: "capability_kind \<Rightarrow> string" where
  "kind_name KSwitch = ''switch''"
| "kind_name KBrightness = ''brightness''"
| "kind_name KColor = ''color''"
| "kind_name KColorTemperature = ''color_temperature''"
| "kind_name KOccupancy = ''occupancy''"
| "kind_name KBattery = ''battery''"
| "kind_name KTemperature = ''temperature''"
| "kind_name KHumidity = ''humidity''"
| "kind_name KIlluminance = ''illuminance''"
| "kind_name KPower = ''power''"
| "kind_name KContact = ''contact''"
| "kind_name KWaterLeak = ''water_leak''"
| "kind_name KSmoke = ''smoke''"
| "kind_name KIrTransmitter = ''ir_transmitter''"
| "kind_name KTimeOfDay = ''time_of_day''"
| "kind_name KSunUp = ''sun_up''"

definition kind_from_name :: "string \<Rightarrow> capability_kind option" where
  "kind_from_name s =
     (if s = ''switch'' then Some KSwitch
      else if s = ''brightness'' then Some KBrightness
      else if s = ''color'' then Some KColor
      else if s = ''color_temperature'' then Some KColorTemperature
      else if s = ''occupancy'' then Some KOccupancy
      else if s = ''battery'' then Some KBattery
      else if s = ''temperature'' then Some KTemperature
      else if s = ''humidity'' then Some KHumidity
      else if s = ''illuminance'' then Some KIlluminance
      else if s = ''power'' then Some KPower
      else if s = ''contact'' then Some KContact
      else if s = ''water_leak'' then Some KWaterLeak
      else if s = ''smoke'' then Some KSmoke
      else if s = ''ir_transmitter'' then Some KIrTransmitter
      else if s = ''time_of_day'' then Some KTimeOfDay
      else if s = ''sun_up'' then Some KSunUp
      else None)"

fun is_writable :: "capability_kind \<Rightarrow> bool" where
  "is_writable KSwitch = True"
| "is_writable KBrightness = True"
| "is_writable KColor = True"
| "is_writable KColorTemperature = True"
| "is_writable KIrTransmitter = True"
| "is_writable _ = False"

datatype capability_state =
    Switch bool
  | Brightness u8
  | Color u8 u8 u8
  | ColorTemperature u16
  | Occupancy bool
  | Battery u8
  | Temperature i16
  | Humidity u8
  | Illuminance u32
  | Power u32
  | Contact bool
  | WaterLeak bool
  | Smoke bool
  | TimeOfDay u16
  | SunUp bool

fun kind :: "capability_state \<Rightarrow> capability_kind" where
  "kind (Switch _) = KSwitch"
| "kind (Brightness _) = KBrightness"
| "kind (Color _ _ _) = KColor"
| "kind (ColorTemperature _) = KColorTemperature"
| "kind (Occupancy _) = KOccupancy"
| "kind (Battery _) = KBattery"
| "kind (Temperature _) = KTemperature"
| "kind (Humidity _) = KHumidity"
| "kind (Illuminance _) = KIlluminance"
| "kind (Power _) = KPower"
| "kind (Contact _) = KContact"
| "kind (WaterLeak _) = KWaterLeak"
| "kind (Smoke _) = KSmoke"
| "kind (TimeOfDay _) = KTimeOfDay"
| "kind (SunUp _) = KSunUp"

fun as_bool :: "capability_state \<Rightarrow> bool option" where
  "as_bool (Switch b) = Some b"
| "as_bool (Occupancy b) = Some b"
| "as_bool (SunUp b) = Some b"
| "as_bool (Contact b) = Some b"
| "as_bool (WaterLeak b) = Some b"
| "as_bool (Smoke b) = Some b"
| "as_bool _ = None"

fun as_i64 :: "capability_state \<Rightarrow> i64 option" where
  "as_i64 (Brightness v) = Some (uint v)"
| "as_i64 (Battery v) = Some (uint v)"
| "as_i64 (Humidity v) = Some (uint v)"
| "as_i64 (ColorTemperature v) = Some (uint v)"
| "as_i64 (TimeOfDay v) = Some (uint v)"
| "as_i64 (Temperature v) = Some (sint v)"
| "as_i64 (Illuminance v) = Some (uint v)"
| "as_i64 (Power v) = Some (uint v)"
| "as_i64 _ = None"

section \<open>Intents, events and commands\<close>

datatype desired =
    SetTo capability_state
  | Toggle
  | AdjustBrightness i8
  | SendIr string

fun desired_kind :: "desired \<Rightarrow> capability_kind" where
  "desired_kind (SetTo s) = kind s"
| "desired_kind Toggle = KSwitch"
| "desired_kind (AdjustBrightness _) = KBrightness"
| "desired_kind (SendIr _) = KIrTransmitter"

datatype command =
    SetSwitch device_id bool
  | ToggleSwitch device_id
  | SetBrightness device_id u8 "millis option"
  | DecreaseBrightness device_id u8
  | IncreaseBrightness device_id u8
  | SetColor device_id u8 u8 u8 "millis option"
  | SetColorTemperature device_id u16 "millis option"
  | ActivateScene scene_id
  | ScheduleTimer timer_key millis
  | CancelTimer timer_key
  | SendIrCode device_id string

fun target_device :: "command \<Rightarrow> device_id option" where
  "target_device (SetSwitch d _) = Some d"
| "target_device (ToggleSwitch d) = Some d"
| "target_device (SetBrightness d _ _) = Some d"
| "target_device (DecreaseBrightness d _) = Some d"
| "target_device (IncreaseBrightness d _) = Some d"
| "target_device (SetColor d _ _ _ _) = Some d"
| "target_device (SetColorTemperature d _ _) = Some d"
| "target_device (SendIrCode d _) = Some d"
| "target_device (ActivateScene _) = None"
| "target_device (ScheduleTimer _ _) = None"
| "target_device (CancelTimer _) = None"

datatype event =
    Action device_id action_id
  | StateReported device_id capability_state
  | RequestedChange device_id desired
  | RequestedScene scene_id
  | TimeReached schedule_id
  | TimerElapsed timer_key
  | CommandFailed command string u32

fun is_timer_event :: "event \<Rightarrow> bool" where
  "is_timer_event (TimerElapsed _) = True"
| "is_timer_event _ = False"

section \<open>The views of a state agree with its kind\<close>

lemma as_bool_iff_kind: "(\<exists>b. as_bool s = Some b) \<longleftrightarrow> is_bool (kind s)"
  by (cases s) auto

lemma as_i64_iff_kind: "(\<exists>v. as_i64 s = Some v) \<longleftrightarrow> is_numeric (kind s)"
  by (cases s) auto

lemma views_exclusive: "as_bool s = None \<or> as_i64 s = None"
  by (cases s) auto

text \<open>A capability name is read back as the capability it names, and no other string is a name.\<close>

theorem kind_name_roundtrip:
  "kind_from_name s = Some k \<longleftrightarrow> s = kind_name k"
proof
  assume "kind_from_name s = Some k"
  then show "s = kind_name k"
    by (auto simp: kind_from_name_def split: if_splits)
next
  assume "s = kind_name k"
  then show "kind_from_name s = Some k"
    by (cases k) (simp_all add: kind_from_name_def)
qed

text \<open>
  A state has a boolean view exactly when its kind is boolean-shaped and a numeric view
  exactly when its kind is numeric-shaped; colour has neither, and no kind has both.
\<close>

theorem views_match_kind:
  "((\<exists>b. as_bool s = Some b) \<longleftrightarrow> is_bool (kind s)) \<and>
   ((\<exists>v. as_i64 s = Some v) \<longleftrightarrow> is_numeric (kind s)) \<and>
   \<not> (is_bool (kind s) \<and> is_numeric (kind s)) \<and>
   (\<not> is_bool (kind s) \<and> \<not> is_numeric (kind s) \<longleftrightarrow> kind s = KColor)"
  by (cases s) auto

lemma as_i64_range:
  "as_i64 s = Some v \<Longrightarrow> - (2 ^ 15) \<le> v \<and> v < 2 ^ 32"
proof (cases s)
  case (Temperature t)
  assume "as_i64 s = Some v"
  with Temperature show ?thesis
    using sint_greater_eq [of t] sint_less [of t] by auto
qed (use uint_lt2p in \<open>auto intro: order_less_le_trans [OF uint_lt2p]
      order_trans [OF _ unsigned_greater_eq]\<close>)

end
