(* ===== verification/Store.thy ===== *)
theory Store
  imports Model
begin

text \<open>
  The runtime state store of \<open>state.rs\<close>: the last reported value of every \<open>(device, capability)\<close>
  pair. \<open>None\<close> is "never reported", which the conditions keep apart from \<open>False\<close>.
\<close>

type_synonym store = "(device_id \<times> capability_kind, capability_state) hashmap"

definition store_set :: "device_id \<Rightarrow> capability_state \<Rightarrow> store \<Rightarrow> store" where
  "store_set d s m = hm_insert (d, kind s) s m"

definition store_get :: "store \<Rightarrow> device_id \<Rightarrow> capability_kind \<Rightarrow> capability_state option" where
  "store_get m d k = hm_get m (d, k)"

definition bool_value :: "store \<Rightarrow> device_id \<Rightarrow> capability_kind \<Rightarrow> bool option" where
  "bool_value m d k = Option.bind (store_get m d k) as_bool"

definition num_value :: "store \<Rightarrow> device_id \<Rightarrow> capability_kind \<Rightarrow> i64 option" where
  "num_value m d k = Option.bind (store_get m d k) as_i64"

definition switch_is :: "store \<Rightarrow> device_id \<Rightarrow> bool option" where
  "switch_is m d = bool_value m d KSwitch"

definition store_iter :: "store \<Rightarrow> (device_id \<times> capability_state) list" where
  "store_iter m = map (\<lambda>((d, _), s). (d, s)) m"

text \<open>Every value sits under its own kind, and every key occurs once.\<close>

definition store_wf :: "store \<Rightarrow> bool" where
  "store_wf m \<longleftrightarrow> hm_wf m \<and> (\<forall>((d, k), s) \<in> set m. kind s = k)"

lemma store_wf_keys: "store_wf m \<Longrightarrow> ((d, k), s) \<in> set m \<Longrightarrow> kind s = k"
  by (auto simp: store_wf_def)

lemma store_get_set [simp]:
  "store_get (store_set d s m) d' k =
     (if d' = d \<and> k = kind s then Some s else store_get m d' k)"
  by (simp add: store_set_def store_get_def)

lemma store_wf_empty [simp, inv_intros]: "store_wf []"
  by (simp add: store_wf_def)

lemma store_wf_set [simp, inv_intros]:
  assumes "store_wf m"
  shows "store_wf (store_set d s m)"
proof -
  have wf: "hm_wf m" and keys: "\<And>d k s. ((d, k), s) \<in> set m \<Longrightarrow> kind s = k"
    using assms by (auto simp: store_wf_def)
  have "kind s' = k'" if "((d', k'), s') \<in> set (store_set d s m)" for d' k' s'
    using that keys unfolding store_set_def set_hm_insert [OF wf] by blast
  with wf show ?thesis
    by (auto simp: store_wf_def store_set_def)
qed

lemma store_get_kind: "store_wf m \<Longrightarrow> store_get m d k = Some s \<Longrightarrow> kind s = k"
  unfolding store_get_def by (drule map_of_SomeD) (rule store_wf_keys)

lemma store_iter_get:
  "store_wf m \<Longrightarrow> (d, s) \<in> set (store_iter m) \<longleftrightarrow> store_get m d (kind s) = Some s"
proof -
  assume wf: "store_wf m"
  then have hm: "hm_wf m"
    by (simp add: store_wf_def)
  have "(d, s) \<in> set (store_iter m) \<longleftrightarrow> (\<exists>k. ((d, k), s) \<in> set m)"
    by (force simp: store_iter_def)
  also have "\<dots> \<longleftrightarrow> ((d, kind s), s) \<in> set m"
    using store_wf_keys [OF wf] by blast
  finally show ?thesis
    by (simp add: store_get_def hm_get_iff [OF hm])
qed

text \<open>
  The store as an interface: what a reader sees after a report. The engine's conditions, triggers
  and projections rest on these laws alone.
\<close>

locale report_store =
  fixes report :: "device_id \<Rightarrow> capability_state \<Rightarrow> 's \<Rightarrow> 's"
    and read :: "'s \<Rightarrow> device_id \<Rightarrow> capability_kind \<Rightarrow> capability_state option"
    and ok :: "'s \<Rightarrow> bool"
  assumes read_report:
      "ok m \<Longrightarrow> read (report d s m) d' k = (if d' = d \<and> k = kind s then Some s else read m d' k)"
    and read_kind: "ok m \<Longrightarrow> read m d k = Some s \<Longrightarrow> kind s = k"
    and ok_report: "ok m \<Longrightarrow> ok (report d s m)"
begin

text \<open>Replaying a log of reports: the last report of each capability wins.\<close>

lemma replay:
  "ok m \<Longrightarrow> ok (fold (\<lambda>(d, s). report d s) log m) \<and>
    read (fold (\<lambda>(d, s). report d s) log m) d k =
      (case find (\<lambda>(d', s). d' = d \<and> kind s = k) (rev log) of
         None \<Rightarrow> read m d k
       | Some (_, s) \<Rightarrow> Some s)"
proof (induction log rule: rev_induct)
  case Nil
  then show ?case by simp
next
  case (snoc e log)
  obtain d' s where e: "e = (d', s)"
    by fastforce
  from snoc show ?case
    by (auto simp: e read_report ok_report)
qed

lemma report_idem: "ok m \<Longrightarrow> read (report d s (report d s m)) = read (report d s m)"
  by (simp add: fun_eq_iff read_report ok_report)

lemma report_commute:
  "ok m \<Longrightarrow> (d, kind s) \<noteq> (d', kind s') \<Longrightarrow>
    read (report d s (report d' s' m)) = read (report d' s' (report d s m))"
  by (auto simp: fun_eq_iff read_report ok_report)

end

interpretation st: report_store store_set store_get store_wf
  by unfold_locales (auto simp: store_get_kind)

text \<open>
  The store is disposable. Replaying the log of reports into an empty store rebuilds it: a
  capability reads as its last reported value, and as unknown if it was never reported.
\<close>

theorem store_replay:
  "store_get (fold (\<lambda>(d, s). store_set d s) log []) d k =
     map_option snd (find (\<lambda>(d', s). d' = d \<and> kind s = k) (rev log))"
  using st.replay [of "[]" log d k]
  by (auto simp: store_get_def split: option.splits)

lemma bool_value_set:
  "bool_value (store_set d s m) d' k =
     (if d' = d \<and> k = kind s then as_bool s else bool_value m d' k)"
  by (simp add: bool_value_def)

lemma num_value_set:
  "num_value (store_set d s m) d' k =
     (if d' = d \<and> k = kind s then as_i64 s else num_value m d' k)"
  by (simp add: num_value_def)

lemma num_value_range: "num_value m d k = Some v \<Longrightarrow> - (2 ^ 15) \<le> v \<and> v < 2 ^ 32"
  by (auto simp: num_value_def bind_eq_Some_conv dest: as_i64_range)

lemma num_value_brightness:
  "store_wf m \<Longrightarrow> num_value m d KBrightness = Some v \<Longrightarrow> 0 \<le> v \<and> v < 256"
proof -
  assume wf: "store_wf m" and "num_value m d KBrightness = Some v"
  then obtain s where s: "store_get m d KBrightness = Some s" "as_i64 s = Some v"
    by (auto simp: num_value_def bind_eq_Some_conv)
  from store_get_kind [OF wf s(1)] s(2) show ?thesis
    by (cases s) (auto intro: order_less_le_trans [OF uint_lt2p])
qed

end
