(* ===== verification/Rules.thy ===== *)
theory Rules
  imports Store
begin

text \<open>
  Rules (\<open>rule.rs\<close>): triggers, with the edge detection of the on-change family, and the
  three-valued condition algebra over the state store.
\<close>

section \<open>Triggers\<close>

datatype cross_dir = Above | Below

datatype trigger =
    TAction device_id action_id
  | TChanged device_id capability_kind bool
  | TCrosses device_id capability_kind i64 cross_dir
  | TReports device_id capability_kind
  | TTimer timer_key
  | TTime schedule_id
  | TCommandFailed "device_id option"

text \<open>The closure \<open>satisfied\<close> of \<open>Trigger::matches\<close>; \<open>predicate_holds\<close> repeats the same match.\<close>

fun crosses_satisfied :: "cross_dir \<Rightarrow> i64 \<Rightarrow> i64 \<Rightarrow> bool" where
  "crosses_satisfied Above bound v = (v \<ge> bound)"
| "crosses_satisfied Below bound v = (v \<le> bound)"

fun matches :: "trigger \<Rightarrow> event \<Rightarrow> capability_state option \<Rightarrow> bool" where
  "matches (TAction device action) (Action d a) prior = (device = d \<and> action = a)"
| "matches (TChanged device k to) (StateReported d state) prior =
     (device = d \<and> kind state = k \<and> as_bool state = Some to \<and>
      Option.bind prior as_bool \<noteq> Some to)"
| "matches (TCrosses device k bound dir) (StateReported d state) prior =
     (if device \<noteq> d \<or> kind state \<noteq> k then False
      else case as_i64 state of
        None \<Rightarrow> False
      | Some new \<Rightarrow>
          (let prior_satisfied =
             (case map_option (crosses_satisfied dir bound) (Option.bind prior as_i64) of
                None \<Rightarrow> False | Some b \<Rightarrow> b)
           in crosses_satisfied dir bound new \<and> \<not> prior_satisfied))"
| "matches (TReports device k) (StateReported d state) prior = (device = d \<and> kind state = k)"
| "matches (TTimer key) (TimerElapsed k) prior = (key = k)"
| "matches (TTime schedule) (TimeReached s) prior = (schedule = s)"
| "matches (TCommandFailed device) (CommandFailed cmd _ _) prior =
     (case device of None \<Rightarrow> True | Some d \<Rightarrow> target_device cmd = Some d)"
| "matches _ _ _ = False"

fun watched :: "trigger \<Rightarrow> (device_id \<times> capability_kind) option" where
  "watched (TChanged d k _) = Some (d, k)"
| "watched (TCrosses d k _ _) = Some (d, k)"
| "watched _ = None"

fun predicate_holds :: "trigger \<Rightarrow> store \<Rightarrow> bool" where
  "predicate_holds (TChanged d k to) m = (bool_value m d k = Some to)"
| "predicate_holds (TCrosses d k bound dir) m =
     (case num_value m d k of
        Some v \<Rightarrow> crosses_satisfied dir bound v
      | None \<Rightarrow> False)"
| "predicate_holds _ _ = False"

section \<open>Conditions\<close>

datatype cmp_op = Lt | Le | Eq | Ne | Ge | Gt

fun cmp_test :: "cmp_op \<Rightarrow> i64 \<Rightarrow> i64 \<Rightarrow> bool" where
  "cmp_test Lt a b = (a < b)"
| "cmp_test Le a b = (a \<le> b)"
| "cmp_test Eq a b = (a = b)"
| "cmp_test Ne a b = (a \<noteq> b)"
| "cmp_test Ge a b = (a \<ge> b)"
| "cmp_test Gt a b = (a > b)"

datatype truth = True3 | False3 | Unknown3

definition truth_of :: "bool \<Rightarrow> truth" where
  "truth_of b = (if b then True3 else False3)"

definition is_true :: "truth \<Rightarrow> bool" where
  "is_true t \<longleftrightarrow> t = True3"

fun not3 :: "truth \<Rightarrow> truth" where
  "not3 True3 = False3"
| "not3 False3 = True3"
| "not3 Unknown3 = Unknown3"

fun and3 :: "truth \<Rightarrow> truth \<Rightarrow> truth" where
  "and3 False3 _ = False3"
| "and3 _ False3 = False3"
| "and3 True3 True3 = True3"
| "and3 _ _ = Unknown3"

fun or3 :: "truth \<Rightarrow> truth \<Rightarrow> truth" where
  "or3 True3 _ = True3"
| "or3 _ True3 = True3"
| "or3 False3 False3 = False3"
| "or3 _ _ = Unknown3"

datatype condition =
    Always
  | Not condition
  | And "condition list"
  | Or "condition list"
  | BoolEquals device_id capability_kind bool
  | Compare device_id capability_kind cmp_op i64
  | ColorEquals device_id u8 u8 u8

fun cond_eval :: "store \<Rightarrow> condition \<Rightarrow> truth" where
  "cond_eval m Always = True3"
| "cond_eval m (Not inner) = not3 (cond_eval m inner)"
| "cond_eval m (And cs) = foldl (\<lambda>acc c. and3 acc (cond_eval m c)) True3 cs"
| "cond_eval m (Or cs) = foldl (\<lambda>acc c. or3 acc (cond_eval m c)) False3 cs"
| "cond_eval m (BoolEquals d k v) =
     (case bool_value m d k of
        Some actual \<Rightarrow> truth_of (actual = v)
      | None \<Rightarrow> Unknown3)"
| "cond_eval m (Compare d k cmp v) =
     (case num_value m d k of
        Some actual \<Rightarrow> truth_of (cmp_test cmp actual v)
      | None \<Rightarrow> Unknown3)"
| "cond_eval m (ColorEquals d r g b) =
     (case store_get m d KColor of
        Some (Color cr cg cb) \<Rightarrow> truth_of (cr = r \<and> cg = g \<and> cb = b)
      | _ \<Rightarrow> Unknown3)"

section \<open>Rules\<close>

record rule =
  r_id :: rule_id
  r_name :: string
  r_trigger :: trigger
  r_condition :: condition
  r_commands :: "command list"
  r_for :: "millis option"

definition new_rule :: "rule_id \<Rightarrow> trigger \<Rightarrow> condition \<Rightarrow> command list \<Rightarrow> rule" where
  "new_rule i t c cmds =
     \<lparr>r_id = i, r_name = '''', r_trigger = t, r_condition = c, r_commands = cmds, r_for = None\<rparr>"

definition with_name :: "string \<Rightarrow> rule \<Rightarrow> rule" where
  "with_name n r = r\<lparr>r_name := n\<rparr>"

definition with_for_duration :: "millis option \<Rightarrow> rule \<Rightarrow> rule" where
  "with_for_duration f r = r\<lparr>r_for := f\<rparr>"

section \<open>The truth algebra\<close>

lemma foldl_and3: "foldl (\<lambda>acc c. and3 acc (f c)) a cs =
   (if a = False3 \<or> (\<exists>c \<in> set cs. f c = False3) then False3
    else if a = Unknown3 \<or> (\<exists>c \<in> set cs. f c = Unknown3) then Unknown3 else True3)"
proof (induction cs arbitrary: a)
  case Nil
  then show ?case by (cases a) auto
next
  case (Cons c cs)
  then show ?case by (cases a; cases "f c") auto
qed

lemma foldl_or3: "foldl (\<lambda>acc c. or3 acc (f c)) a cs =
   (if a = True3 \<or> (\<exists>c \<in> set cs. f c = True3) then True3
    else if a = Unknown3 \<or> (\<exists>c \<in> set cs. f c = Unknown3) then Unknown3 else False3)"
proof (induction cs arbitrary: a)
  case Nil
  then show ?case by (cases a) auto
next
  case (Cons c cs)
  then show ?case by (cases a; cases "f c") auto
qed

lemma not3_eq_iff [simp]:
  "not3 t = True3 \<longleftrightarrow> t = False3" "not3 t = False3 \<longleftrightarrow> t = True3"
  "not3 t = Unknown3 \<longleftrightarrow> t = Unknown3"
  by (cases t; simp)+

lemma true3_iff: "t = True3 \<longleftrightarrow> t \<noteq> False3 \<and> t \<noteq> Unknown3"
  by (cases t) auto

lemma false3_iff: "t = False3 \<longleftrightarrow> t \<noteq> True3 \<and> t \<noteq> Unknown3"
  by (cases t) auto

lemma eval_And:
  "cond_eval m (And cs) = True3 \<longleftrightarrow> (\<forall>c \<in> set cs. cond_eval m c = True3)"
  "cond_eval m (And cs) = False3 \<longleftrightarrow> (\<exists>c \<in> set cs. cond_eval m c = False3)"
  by (auto simp: foldl_and3 true3_iff)

lemma eval_Or:
  "cond_eval m (Or cs) = True3 \<longleftrightarrow> (\<exists>c \<in> set cs. cond_eval m c = True3)"
  "cond_eval m (Or cs) = False3 \<longleftrightarrow> (\<forall>c \<in> set cs. cond_eval m c = False3)"
  by (auto simp: foldl_or3 false3_iff)

text \<open>
  The connectives are Kleene's. A conjunction is false as soon as one member is, true only when
  all are, and unknown otherwise; dually for disjunctions; and De Morgan's laws hold although a
  member may be unknown.
\<close>

theorem kleene_connectives:
  "(cond_eval m (And cs) = True3 \<longleftrightarrow> \<not> (\<exists>c. c \<in> set cs \<and> cond_eval m c \<noteq> True3)) \<and>
   (cond_eval m (And cs) = False3 \<longleftrightarrow> (\<exists>c. c \<in> set cs \<and> cond_eval m c = False3)) \<and>
   (cond_eval m (Or cs) = True3 \<longleftrightarrow> (\<exists>c. c \<in> set cs \<and> cond_eval m c = True3)) \<and>
   (cond_eval m (Or cs) = False3 \<longleftrightarrow> \<not> (\<exists>c. c \<in> set cs \<and> cond_eval m c \<noteq> False3)) \<and>
   cond_eval m (Not (And cs)) = cond_eval m (Or (map Not cs)) \<and>
   cond_eval m (Not (Or cs)) = cond_eval m (And (map Not cs))"
  using eval_And [of m cs] eval_Or [of m cs]
  by (auto simp: foldl_and3 foldl_or3)

section \<open>More knowledge never changes a settled answer\<close>

text \<open>
  \<open>store_le m m'\<close>: \<open>m'\<close> has every report of \<open>m\<close>, and perhaps capabilities \<open>m\<close> never heard about.
\<close>

definition store_le :: "store \<Rightarrow> store \<Rightarrow> bool" where
  "store_le m m' \<longleftrightarrow> (\<forall>d k s. store_get m d k = Some s \<longrightarrow> store_get m' d k = Some s)"

lemma store_leD: "store_le m m' \<Longrightarrow> store_get m d k = Some s \<Longrightarrow> store_get m' d k = Some s"
  by (simp add: store_le_def)

lemma bool_value_le:
  "store_le m m' \<Longrightarrow> bool_value m d k = Some b \<Longrightarrow> bool_value m' d k = Some b"
  by (auto simp: bool_value_def bind_eq_Some_conv dest: store_leD)

lemma num_value_le:
  "store_le m m' \<Longrightarrow> num_value m d k = Some v \<Longrightarrow> num_value m' d k = Some v"
  by (auto simp: num_value_def bind_eq_Some_conv dest: store_leD)

lemma cond_eval_le:
  "store_le m m' \<Longrightarrow> cond_eval m c \<noteq> Unknown3 \<Longrightarrow> cond_eval m' c = cond_eval m c"
proof (induction m c rule: cond_eval.induct)
  case (3 m cs)
  then show ?case
    by (auto simp: foldl_and3 split: if_splits)
next
  case (4 m cs)
  then show ?case
    by (auto simp: foldl_or3 split: if_splits)
qed (auto split: option.splits capability_state.splits
    dest: bool_value_le num_value_le store_leD)

text \<open>
  A condition that is settled stays settled as it was when more capabilities report for the
  first time: what is unknown can become known, what is known cannot flip.
\<close>

theorem eval_monotone:
  assumes "store_le m m'" and "cond_eval m c = t" and "t \<noteq> Unknown3"
  shows "cond_eval m' c = t"
  using cond_eval_le [OF assms(1), of c] assms(2,3) by simp

text \<open>The leaves of a condition, and the capabilities they read.\<close>

fun cond_reads :: "condition \<Rightarrow> (device_id \<times> capability_kind) set" where
  "cond_reads Always = {}"
| "cond_reads (Not c) = cond_reads c"
| "cond_reads (And cs) = (\<Union>c \<in> set cs. cond_reads c)"
| "cond_reads (Or cs) = (\<Union>c \<in> set cs. cond_reads c)"
| "cond_reads (BoolEquals d k _) = {(d, k)}"
| "cond_reads (Compare d k _ _) = {(d, k)}"
| "cond_reads (ColorEquals d _ _ _) = {(d, KColor)}"

text \<open>No part of the condition is settled without reading the store.\<close>

fun cond_open :: "condition \<Rightarrow> bool" where
  "cond_open Always = False"
| "cond_open (Not c) = cond_open c"
| "cond_open (And cs) = (cs \<noteq> [] \<and> list_all cond_open cs)"
| "cond_open (Or cs) = (cs \<noteq> [] \<and> list_all cond_open cs)"
| "cond_open _ = True"

lemma cond_eval_cong:
  "(\<And>d k. (d, k) \<in> cond_reads c \<Longrightarrow> store_get m d k = store_get m' d k) \<Longrightarrow>
    cond_eval m c = cond_eval m' c"
proof (induction m c rule: cond_eval.induct)
  case (3 m cs)
  then have "cond_eval m c = cond_eval m' c" if "c \<in> set cs" for c
    using that by auto
  then show ?case
    by (auto simp: foldl_and3)
next
  case (4 m cs)
  then have "cond_eval m c = cond_eval m' c" if "c \<in> set cs" for c
    using that by auto
  then show ?case
    by (auto simp: foldl_or3)
qed (auto simp: bool_value_def num_value_def)

lemma cond_eval_unreported:
  "cond_open c \<Longrightarrow> (\<And>d k. (d, k) \<in> cond_reads c \<Longrightarrow> store_get m d k = None) \<Longrightarrow>
    cond_eval m c = Unknown3"
proof (induction m c rule: cond_eval.induct)
  case (3 m cs)
  then have "cond_eval m c = Unknown3" if "c \<in> set cs" for c
    using that by (auto simp: list_all_iff)
  with 3 show ?case
    by (cases cs) (auto simp: foldl_and3)
next
  case (4 m cs)
  then have "cond_eval m c = Unknown3" if "c \<in> set cs" for c
    using that by (auto simp: list_all_iff)
  with 4 show ?case
    by (cases cs) (auto simp: foldl_or3)
qed (auto simp: bool_value_def num_value_def)

text \<open>
  A condition over capabilities no device ever reported is unknown however it is built from
  them, so its negation is unknown too and neither fires a rule: "the sun is not up" does not hold
  before the sun's state is known.
\<close>

theorem unreported_never_fires:
  assumes "cond_open c" and "\<And>d k. (d, k) \<in> cond_reads c \<Longrightarrow> store_get m d k = None"
  shows "cond_eval m c = Unknown3 \<and> \<not> is_true (cond_eval m c) \<and> \<not> is_true (cond_eval m (Not c))"
  using cond_eval_unreported [OF assms] by (simp add: is_true_def)

theorem unreported_never_fires_witness:
  "\<not> is_true (cond_eval [] (Not (BoolEquals (DeviceId 9) KSunUp True)))"
  by (rule unreported_never_fires [THEN conjunct2, THEN conjunct2]) (auto simp: store_get_def)

theorem eval_monotone_witness:
  "cond_eval [((DeviceId 1, KSwitch), Switch True), ((DeviceId 9, KSunUp), SunUp True)]
     (Or [BoolEquals (DeviceId 1) KSwitch True, BoolEquals (DeviceId 9) KSunUp False]) = True3"
  by (rule eval_monotone [of "[((DeviceId 1, KSwitch), Switch True)]"])
    (auto simp: store_le_def store_get_def bool_value_def truth_of_def split: if_splits)

section \<open>Edge triggers\<close>

text \<open>The value an event reports for the capability it concerns, before and after it is folded.\<close>

lemma matches_edge_watched:
  "watched t = Some (d, k) \<Longrightarrow> matches t ev prior \<Longrightarrow> \<exists>s. ev = StateReported d s \<and> kind s = k"
  by (cases t; cases ev) (auto split: if_splits)

lemma matches_edge_holds:
  "watched t = Some (d, k) \<Longrightarrow> matches t (StateReported d s) prior \<Longrightarrow>
    predicate_holds t (store_set d s m)"
  by (cases t) (auto simp: bool_value_set num_value_set split: if_splits option.splits)

lemma matches_edge_not_before:
  "watched t = Some (d, k) \<Longrightarrow> matches t (StateReported d s) (store_get m d k) \<Longrightarrow>
    \<not> predicate_holds t m"
  by (cases t) (auto simp: bool_value_def num_value_def split: if_splits option.splits)

lemma not_matches_if_holds:
  "watched t = Some (d, k) \<Longrightarrow> kind s = k \<Longrightarrow> predicate_holds t m \<Longrightarrow>
    \<not> matches t (StateReported d s) (store_get m d k)"
  by (cases t) (auto simp: bool_value_def num_value_def split: if_splits option.splits)

text \<open>
  An edge trigger fires exactly on the transition. A report of the watched capability matches
  it iff the trigger's predicate fails on the store before the fold and holds on the store after it,
  so a first report that satisfies the predicate counts and a repeated one does not.
\<close>

theorem edge_trigger_iff_transition:
  assumes "watched t = Some (d, kind s)"
  shows "matches t (StateReported d s) (store_get m d (kind s)) \<longleftrightarrow>
    \<not> predicate_holds t m \<and> predicate_holds t (store_set d s m)"
proof (cases t)
  case (TChanged d' k' to)
  with assms show ?thesis
    by (auto simp: bool_value_set bool_value_def)
next
  case (TCrosses d' k' bound dir)
  with assms show ?thesis
    by (auto simp: num_value_set num_value_def split: option.splits)
qed (use assms in auto)

theorem edge_trigger_iff_transition_witness:
  "matches (TCrosses (DeviceId 3) KTemperature 2500 Above)
      (StateReported (DeviceId 3) (Temperature 2600)) None \<and>
   \<not> matches (TCrosses (DeviceId 3) KTemperature 2500 Above)
      (StateReported (DeviceId 3) (Temperature 2700)) (Some (Temperature 2600))"
  using edge_trigger_iff_transition
      [of "TCrosses (DeviceId 3) KTemperature 2500 Above" "DeviceId 3" "Temperature 2600" "[]"]
    edge_trigger_iff_transition
      [of "TCrosses (DeviceId 3) KTemperature 2500 Above" "DeviceId 3" "Temperature 2700"
        "[((DeviceId 3, KTemperature), Temperature 2600)]"]
  by (simp add: store_get_def num_value_def)

end
