(* ===== verification/Colors.thy ===== *)
theory Colors
  imports Model
begin

text \<open>
  The integer conversions shared by the compiler and the adapters: hex colours and the warm/cold
  mix of \<open>color.rs\<close>, and the percentage scaling of \<open>adapters/mod.rs\<close>. The two conversions of
  \<open>color.rs\<close> through \<open>f32\<close> (hue and saturation) are in theory \<open>Hue\<close>.
\<close>

section \<open>Hex colours\<close>

text \<open>\<open>u8::from_str_radix(s, 16)\<close> on a slice of two bytes.\<close>

definition u8_from_hex2 :: "string \<Rightarrow> u8 option" where
  "u8_from_hex2 s =
     (case s of
        [a, b] \<Rightarrow>
          if is_ascii_hexdigit a \<and> is_ascii_hexdigit b
          then Some (of_nat (16 * hex_val a + hex_val b)) else None
      | _ \<Rightarrow> None)"

definition hex_to_rgb :: "string \<Rightarrow> (u8 \<times> u8 \<times> u8) option" where
  "hex_to_rgb s =
     (let hex = (case strip_prefix ''#'' s of Some t \<Rightarrow> t | None \<Rightarrow> s) in
      if length hex \<noteq> 6 \<or> \<not> list_all is_ascii_hexdigit hex then None
      else
        Option.bind (u8_from_hex2 (take 2 hex)) (\<lambda>r.
        Option.bind (u8_from_hex2 (take 2 (drop 2 hex))) (\<lambda>g.
        Option.bind (u8_from_hex2 (take 2 (drop 4 hex))) (\<lambda>b.
          Some (r, g, b)))))"

text \<open>The way a colour is written in configuration; the program only reads it.\<close>

definition hex2 :: "u8 \<Rightarrow> string" where
  "hex2 v = [hex_char (unat v div 16), hex_char (unat v mod 16)]"

definition rgb_to_hex :: "u8 \<Rightarrow> u8 \<Rightarrow> u8 \<Rightarrow> string" where
  "rgb_to_hex r g b = ''#'' @ hex2 r @ hex2 g @ hex2 b"

lemma unat_u8_div: "unat (v :: u8) div 16 < 16"
  using unat_less_pow [of v] by simp

lemma hex2_digits [simp]: "list_all is_ascii_hexdigit (hex2 v)" "length (hex2 v) = 2"
  using unat_u8_div [of v] by (simp_all add: hex2_def)

lemma u8_from_hex2_hex2 [simp]: "u8_from_hex2 (hex2 v) = Some v"
proof -
  have "16 * (unat v div 16) + unat v mod 16 = unat v"
    by simp
  then show ?thesis
    using unat_u8_div [of v] by (simp add: u8_from_hex2_def hex2_def)
qed

text \<open>
  A written colour is read back, with or without the leading \<open>#\<close>; and whatever is accepted
  has six hexadecimal digits after an optional \<open>#\<close>.
\<close>

theorem hex_to_rgb_roundtrip:
  "hex_to_rgb (rgb_to_hex r g b) = Some (r, g, b) \<and>
   hex_to_rgb (hex2 r @ hex2 g @ hex2 b) = Some (r, g, b)"
proof -
  have hash: "strip_prefix ''#'' (''#'' @ s) = Some s" for s
    by (simp add: strip_prefix_def starts_with_def)
  have "\<not> is_ascii_hexdigit CHR ''#''"
    by (simp add: is_ascii_hexdigit_def)
  then have "hex_char (unat r div 16) \<noteq> CHR ''#''"
    using unat_u8_div [of r] hex_char_digit by metis
  then have no_hash: "strip_prefix ''#'' (hex2 r @ s) = None" for s
    by (simp add: strip_prefix_def starts_with_def hex2_def)
  show ?thesis
    using hash [of "hex2 r @ hex2 g @ hex2 b"]
    by (simp add: hex_to_rgb_def rgb_to_hex_def no_hash)
qed

lemma hex_to_rgb_Some:
  "hex_to_rgb s = Some c \<Longrightarrow> \<exists>h. (s = h \<or> s = ''#'' @ h) \<and> length h = 6 \<and> list_all is_ascii_hexdigit h"
  by (auto simp: hex_to_rgb_def Let_def strip_prefix_def starts_with_iff split: option.splits if_splits)

section \<open>Tunable white\<close>

definition warm_kelvin :: nat where
  "warm_kelvin = 2700"

definition cold_kelvin :: nat where
  "cold_kelvin = 6500"

text \<open>Every intermediate value is below \<open>2 ^ 32\<close>, so the \<open>u32\<close> arithmetic is that of \<open>nat\<close>.\<close>

definition mireds_to_warm_cold :: "u16 \<Rightarrow> u8 \<times> u8" where
  "mireds_to_warm_cold mireds =
     (let kelvin = clamp warm_kelvin cold_kelvin (1000000 div max (unat mireds) 1);
          cold_pct = (kelvin - warm_kelvin) * 100 div (cold_kelvin - warm_kelvin);
          warm = 255 * (100 - cold_pct) div 100;
          cold = 255 * cold_pct div 100
      in (of_nat warm, of_nat cold))"

text \<open>
  Here the channel levels are whatever 64-bit numbers the device reported, so the sums and products
  wrap: \<open>u64\<close> words, then \<open>u32\<close> words after the cast.
\<close>

definition warm_cold_to_mireds :: "u64 \<Rightarrow> u64 \<Rightarrow> u16 option" where
  "warm_cold_to_mireds warm cold =
     (if warm = 0 \<and> cold = 0 then None
      else
        (let cold_pct = (ucast (cold * 100 div max (warm + cold) 1) :: u32);
             kelvin = of_nat warm_kelvin + (of_nat (cold_kelvin - warm_kelvin) * cold_pct div 100)
         in Some (ucast (min (1000000 div max kelvin 1) 65535))))"

lemma cold_pct_le: "(clamp 2700 6500 k - 2700) * 100 div 3800 \<le> (100::nat)"
  using clamp_bounds [of 2700 "6500::nat" k]
    nat_div_bounds(1) [of 3800 "(clamp 2700 6500 k - 2700) * 100"] by linarith

text \<open>
  The two channels of a mix never exceed full scale between them and lose at most one step of
  it to rounding.
\<close>

theorem warm_cold_channels:
  "mireds_to_warm_cold m = (w, c) \<Longrightarrow> 254 \<le> unat w + unat c \<and> unat w + unat c \<le> 255"
proof -
  define p where "p = (clamp 2700 6500 (1000000 div max (unat m) 1) - 2700) * 100 div (3800::nat)"
  have p: "p \<le> 100"
    unfolding p_def by (rule cold_pct_le)
  assume "mireds_to_warm_cold m = (w, c)"
  then have "w = of_nat (255 * (100 - p) div 100)" "c = of_nat (255 * p div 100)"
    by (simp_all add: mireds_to_warm_cold_def warm_kelvin_def cold_kelvin_def p_def Let_def)
  moreover note bounds = nat_div_bounds [of 100 "255 * (100 - p)"] nat_div_bounds [of 100 "255 * p"]
  moreover from bounds p have "255 * (100 - p) div 100 \<le> 255" "255 * p div 100 \<le> 255"
    by linarith+
  ultimately have "unat w = 255 * (100 - p) div 100" "unat c = 255 * p div 100"
    by (simp_all add: unat_of_nat)
  with p bounds show ?thesis
    by linarith
qed

theorem warm_cold_channels_witness:
  "254 \<le> unat (fst (mireds_to_warm_cold 250)) + unat (snd (mireds_to_warm_cold 250))"
  using warm_cold_channels [of 250 "fst (mireds_to_warm_cold 250)" "snd (mireds_to_warm_cold 250)"]
  by simp

lemma pct_le_100: "0 < s \<Longrightarrow> c \<le> s \<Longrightarrow> c * 100 div s \<le> (100::nat)"
  using div_le_mono [of "c * 100" "100 * s" s] by simp

lemma mireds_value:
  assumes "unat warm \<le> 255" "unat cold \<le> 255" "warm_cold_to_mireds warm cold = Some m"
  shows "unat m = 1000000 div (2700 + 3800 * (unat cold * 100 div (unat warm + unat cold)) div 100)"
    and "0 < unat warm + unat cold"
proof -
  let ?s = "unat warm + unat cold" and ?p = "unat cold * 100 div (unat warm + unat cold)"
  have nz: "\<not> (warm = 0 \<and> cold = 0)"
    using assms(3) by (auto simp: warm_cold_to_mireds_def)
  then show pos: "0 < ?s"
    by (auto simp: unat_gt_0)
  have sum: "unat (warm + cold) = ?s" and prod: "unat (cold * 100) = unat cold * 100"
    using assms(1,2) by (simp_all add: unat_word_ariths)
  have "max (warm + cold) 1 = warm + cold"
    using pos sum by (intro word_max_1) simp
  then have q: "unat (cold * 100 div max (warm + cold) 1) = ?p"
    by (simp add: unat_div prod sum)
  have p: "?p \<le> 100"
    using pos by (intro pct_le_100) simp_all
  then have c: "unat (ucast (cold * 100 div max (warm + cold) 1) :: u32) = ?p"
    by (simp add: unat_ucast_mod q)
  define k :: u32 where "k = 2700 + 3800 * ucast (cold * 100 div max (warm + cold) 1) div 100"
  have k: "unat k = 2700 + 3800 * ?p div 100"
    using p by (simp add: k_def unat_word_ariths unat_div c)
  then have "max k 1 = k"
    by (intro word_max_1) simp
  moreover have u: "unat (1000000 div k) = 1000000 div (2700 + 3800 * ?p div 100)"
    by (simp add: unat_div k)
  moreover have le: "1000000 div (2700 + 3800 * ?p div 100) \<le> 1000000 div 2700"
    by (rule div_le_mono2) simp_all
  ultimately have "min (1000000 div max k 1) 65535 = 1000000 div k"
    by (simp add: min_def word_le_nat_alt)
  moreover have "m = ucast (min (1000000 div max k 1) 65535)"
    using assms(3) nz by (simp add: warm_cold_to_mireds_def warm_kelvin_def cold_kelvin_def
        k_def Let_def split: if_splits)
  ultimately show "unat m = 1000000 div (2700 + 3800 * ?p div 100)"
    using le by (simp add: unat_ucast_mod u)
qed

text \<open>
  For channel levels of one byte the reading is defined as soon as one channel is on, and it
  is between the mireds of the two ends of the range.
\<close>

theorem mireds_in_range:
  assumes "unat warm \<le> 255" and "unat cold \<le> 255" and "warm \<noteq> 0 \<or> cold \<noteq> 0"
  shows "\<exists>m. warm_cold_to_mireds warm cold = Some m \<and> 153 \<le> unat m \<and> unat m \<le> 370"
proof -
  obtain m where m: "warm_cold_to_mireds warm cold = Some m"
    using assms(3) by (auto simp: warm_cold_to_mireds_def Let_def)
  define p where "p = unat cold * 100 div (unat warm + unat cold)"
  note v = mireds_value [OF assms(1,2) m, folded p_def]
  have "p \<le> 100"
    unfolding p_def using v(2) by (intro pct_le_100) simp_all
  then have "3800 * p div 100 \<le> 3800"
    using nat_div_bounds(1) [of 100 "3800 * p"] by linarith
  then have "1000000 div 6500 \<le> unat m" "unat m \<le> 1000000 div 2700"
    unfolding v(1) by (intro div_le_mono2; simp)+
  with m show ?thesis
    by simp
qed

theorem mireds_in_range_witness:
  "\<exists>m. warm_cold_to_mireds 255 0 = Some m \<and> 153 \<le> unat m \<and> unat m \<le> 370"
  by (rule mireds_in_range) simp_all

section \<open>Percentages and levels\<close>

definition pct_to_level :: "u8 \<Rightarrow> u64" where
  "pct_to_level pct = (ucast (min pct 100) * 254 + 50) div 100"

definition level_to_pct :: "u64 \<Rightarrow> u8" where
  "level_to_pct raw = ucast ((min raw 254 * 100 + 127) div 254)"

lemma unat_pct_to_level: "unat (pct_to_level p) = (min (unat p) 100 * 254 + 50) div 100"
proof -
  have "unat (min p 100) = min (unat p) 100"
    by (auto simp: min_def word_le_nat_alt)
  moreover have "min (unat p) 100 * 254 + 50 < 2 ^ 64"
    by (simp add: min_def)
  ultimately show ?thesis
    by (simp add: pct_to_level_def unat_div unat_word_ariths unat_ucast_mod)
qed

lemma unat_level_to_pct: "unat (level_to_pct r) = (min (unat r) 254 * 100 + 127) div 254"
proof -
  have min: "unat (min r 254) = min (unat r) 254"
    by (auto simp: min_def word_le_nat_alt)
  have "(min (unat r) 254 * 100 + 127) div 254 \<le> 100"
    using nat_div_bounds(1) [of 254 "min (unat r) 254 * 100 + 127"] by linarith
  then show ?thesis
    by (simp add: level_to_pct_def unat_div unat_word_ariths unat_ucast_mod min)
qed

text \<open>
  A percentage survives the trip through the 254-step level both protocols use, so a commanded
  brightness is echoed as itself; levels stay in range in both directions.
\<close>

theorem pct_level_roundtrip:
  "unat (level_to_pct (pct_to_level p)) = min (unat p) 100 \<and>
   unat (pct_to_level p) \<le> 254 \<and> unat (level_to_pct raw) \<le> 100"
proof -
  define q where "q = min (unat p) 100"
  define l where "l = (q * 254 + 50) div 100"
  have q: "q \<le> 100"
    by (simp add: q_def)
  note l_bounds = nat_div_bounds [of 100 "q * 254 + 50", folded l_def]
  then have l: "l \<le> 254"
    using q by linarith
  define r where "r = (l * 100 + 127) div 254"
  have "r = q"
    using l_bounds nat_div_bounds [of 254 "l * 100 + 127", folded r_def] by linarith
  moreover have "(min (unat raw) 254 * 100 + 127) div 254 \<le> 100"
    using nat_div_bounds(1) [of 254 "min (unat raw) 254 * 100 + 127"] by linarith
  ultimately show ?thesis
    using l by (simp add: unat_level_to_pct unat_pct_to_level min_absorb1 flip: q_def l_def r_def)
qed

end
