(* ===== verification/Adapters.thy ===== *)
theory Adapters
  imports Colors
begin

text \<open>
  The adapter seam (\<open>adapters/mod.rs\<close>) and the adapters that need no protocol: the scheduler
  (\<open>scheduler.rs\<close>), the virtual device (\<open>virtual_device.rs\<close>), the echoing mock (\<open>mock.rs\<close>) and the
  mock northbound adapter (\<open>mock_northbound.rs\<close>).
\<close>

section \<open>The seam\<close>

datatype outcome = Ok "event list" | Transient string | Permanent string

definition outcome_ok :: outcome where
  "outcome_ok = Ok []"

text \<open>
  A \<open>Box<dyn Adapter>\<close> is a state of type \<open>'x\<close> with the three methods of the trait; a northbound
  adapter is ticked the same way and is told of every folded state.
\<close>

record 'x adapter_ops =
  op_dispatch :: "'x \<Rightarrow> command \<Rightarrow> millis \<Rightarrow> 'x \<times> outcome"
  op_tick :: "'x \<Rightarrow> millis \<Rightarrow> 'x \<times> event list"
  op_next_wake :: "'x \<Rightarrow> millis \<Rightarrow> millis option"

record 'n northbound_ops =
  nb_tick :: "'n \<Rightarrow> millis \<Rightarrow> 'n \<times> event list"
  nb_next_wake :: "'n \<Rightarrow> millis \<Rightarrow> millis option"
  nb_folded :: "'n \<Rightarrow> device_id \<Rightarrow> capability_state \<Rightarrow> 'n"

text \<open>The default methods of the trait: nothing elapses and nothing wakes the host.\<close>

definition default_tick :: "'x \<Rightarrow> millis \<Rightarrow> 'x \<times> event list" where
  "default_tick x now = (x, [])"

definition default_next_wake :: "'x \<Rightarrow> millis \<Rightarrow> millis option" where
  "default_next_wake x now = None"

text \<open>
  What the engine's termination needs of a dispatch: it may produce any events synchronously, but no
  timer elapses inside it, since timers are the scheduler's and elapse in its \<open>tick\<close>. Every
  protocol adapter either produces nothing or echoes the commanded state of the target device.
\<close>

locale quiet_dispatch =
  fixes dispatch :: "'x \<Rightarrow> command \<Rightarrow> millis \<Rightarrow> 'x \<times> outcome"
  assumes no_timer:
    "dispatch x c t = (x', Ok evs) \<Longrightarrow> ev \<in> set evs \<Longrightarrow> \<not> is_timer_event ev"

locale echo_dispatch =
  fixes dispatch :: "'x \<Rightarrow> command \<Rightarrow> millis \<Rightarrow> 'x \<times> outcome"
  assumes echo:
    "dispatch x c t = (x', Ok evs) \<Longrightarrow> ev \<in> set evs \<Longrightarrow>
      \<exists>d s. ev = StateReported d s \<and> target_device c = Some d"

sublocale echo_dispatch \<subseteq> quiet_dispatch dispatch
  by unfold_locales (use echo in fastforce)

section \<open>The scheduler\<close>

type_synonym scheduler = "(timer_key, millis) hashmap"

fun sched_dispatch :: "scheduler \<Rightarrow> command \<Rightarrow> millis \<Rightarrow> scheduler \<times> outcome" where
  "sched_dispatch pending (ScheduleTimer key after) now =
     (hm_insert key (now + after) pending, outcome_ok)"
| "sched_dispatch pending (CancelTimer key) now = (hm_remove key pending, outcome_ok)"
| "sched_dispatch pending _ now = (pending, outcome_ok)"

definition sched_due :: "millis \<Rightarrow> scheduler \<Rightarrow> (millis \<times> timer_key) list" where
  "sched_due now pending = sort (map (\<lambda>(k, t). (t, k)) (filter (\<lambda>(_, t). t \<le> now) pending))"

definition sched_tick :: "scheduler \<Rightarrow> millis \<Rightarrow> scheduler \<times> event list" where
  "sched_tick pending now =
     (let due = sched_due now pending in
      (fold (\<lambda>(_, key). hm_remove key) due pending, map (\<lambda>(_, key). TimerElapsed key) due))"

definition sched_next_wake :: "scheduler \<Rightarrow> millis \<Rightarrow> millis option" where
  "sched_next_wake pending now =
     map_option (\<lambda>fire_at. saturating_sub fire_at now) (min_opt (map snd pending))"

section \<open>Virtual devices and mocks\<close>

fun virtual_dispatch :: "command \<Rightarrow> millis \<Rightarrow> outcome" where
  "virtual_dispatch (SetSwitch d on) now = Ok [StateReported d (Switch on)]"
| "virtual_dispatch (SetBrightness d v _) now = Ok [StateReported d (Brightness v)]"
| "virtual_dispatch (SetColor d r g b _) now = Ok [StateReported d (Color r g b)]"
| "virtual_dispatch (SetColorTemperature d m _) now = Ok [StateReported d (ColorTemperature m)]"
| "virtual_dispatch _ now = outcome_ok"

fun mock_dispatch :: "command \<Rightarrow> millis \<Rightarrow> outcome" where
  "mock_dispatch (SetSwitch d on) now = Ok [StateReported d (Switch on)]"
| "mock_dispatch (SetBrightness d v _) now = Ok [StateReported d (Brightness v)]"
| "mock_dispatch (SetColor d r g b _) now = Ok [StateReported d (Color r g b)]"
| "mock_dispatch (SetColorTemperature d m _) now = Ok [StateReported d (ColorTemperature m)]"
| "mock_dispatch (SendIrCode d code) now = outcome_ok"
| "mock_dispatch _ now = outcome_ok"

text \<open>The user-facing virtual adapter and the mock are the same function of a command.\<close>

theorem virtual_is_mock: "virtual_dispatch cmd now = mock_dispatch cmd now"
  by (cases cmd) auto

definition virtual_ops :: "unit adapter_ops" where
  "virtual_ops =
     \<lparr>op_dispatch = (\<lambda>x c t. (x, virtual_dispatch c t)), op_tick = default_tick,
      op_next_wake = default_next_wake\<rparr>"

definition mock_ops :: "unit adapter_ops" where
  "mock_ops =
     \<lparr>op_dispatch = (\<lambda>x c t. (x, mock_dispatch c t)), op_tick = default_tick,
      op_next_wake = default_next_wake\<rparr>"

interpretation virtual_echo: echo_dispatch "op_dispatch virtual_ops"
proof
  fix x x' c t evs ev
  assume "op_dispatch virtual_ops x c t = (x', Ok evs)" and "ev \<in> set evs"
  then show "\<exists>d s. ev = StateReported d s \<and> target_device c = Some d"
    by (cases c) (auto simp: virtual_ops_def outcome_ok_def)
qed

interpretation mock_echo: echo_dispatch "op_dispatch mock_ops"
proof
  fix x x' c t evs ev
  assume "op_dispatch mock_ops x c t = (x', Ok evs)" and "ev \<in> set evs"
  then show "\<exists>d s. ev = StateReported d s \<and> target_device c = Some d"
    by (cases c) (auto simp: mock_ops_def outcome_ok_def)
qed

interpretation sched_quiet: quiet_dispatch sched_dispatch
proof
  fix s s' c t evs ev
  assume "sched_dispatch s c t = (s', Ok evs)" and "ev \<in> set evs"
  then show "\<not> is_timer_event ev"
    by (cases c) (auto simp: outcome_ok_def)
qed

record mock_northbound =
  mirrored :: "(device_id \<times> capability_state) list"
  pending_writes :: "(device_id \<times> desired) list"
  pending_scenes :: "scene_id list"

definition mock_nb_new :: mock_northbound where
  "mock_nb_new = \<lparr>mirrored = [], pending_writes = [], pending_scenes = []\<rparr>"

definition mock_nb_latest :: "mock_northbound \<Rightarrow> device_id \<Rightarrow> capability_state option" where
  "mock_nb_latest n d = map_option snd (find (\<lambda>(d', _). d' = d) (rev (mirrored n)))"

definition queue_intent :: "device_id \<Rightarrow> desired \<Rightarrow> mock_northbound \<Rightarrow> mock_northbound" where
  "queue_intent d des n = n\<lparr>pending_writes := pending_writes n @ [(d, des)]\<rparr>"

definition queue_write :: "device_id \<Rightarrow> capability_state \<Rightarrow> mock_northbound \<Rightarrow> mock_northbound" where
  "queue_write d s n = queue_intent d (SetTo s) n"

definition queue_scene :: "scene_id \<Rightarrow> mock_northbound \<Rightarrow> mock_northbound" where
  "queue_scene sc n = n\<lparr>pending_scenes := pending_scenes n @ [sc]\<rparr>"

definition mock_nb_folded ::
  "mock_northbound \<Rightarrow> device_id \<Rightarrow> capability_state \<Rightarrow> mock_northbound" where
  "mock_nb_folded n d s = n\<lparr>mirrored := mirrored n @ [(d, s)]\<rparr>"

definition mock_nb_dispatch ::
  "mock_northbound \<Rightarrow> command \<Rightarrow> millis \<Rightarrow> mock_northbound \<times> outcome" where
  "mock_nb_dispatch n cmd now = (n, Permanent ''northbound adapter is not a dispatch target'')"

definition mock_nb_tick :: "mock_northbound \<Rightarrow> millis \<Rightarrow> mock_northbound \<times> event list" where
  "mock_nb_tick n now =
     (n\<lparr>pending_writes := [], pending_scenes := []\<rparr>,
      map (\<lambda>(d, des). RequestedChange d des) (pending_writes n) @
      map RequestedScene (pending_scenes n))"

definition mock_nb_ops :: "mock_northbound northbound_ops" where
  "mock_nb_ops = \<lparr>nb_tick = mock_nb_tick, nb_next_wake = default_next_wake, nb_folded = mock_nb_folded\<rparr>"

interpretation mock_nb_quiet: quiet_dispatch mock_nb_dispatch
  by unfold_locales (simp add: mock_nb_dispatch_def)

end
