(* ===== verification/Timers.thy ===== *)
theory Timers
  imports Adapters
begin

text \<open>
  What the engine relies on when it schedules a timer, as an interface, and the proof that the
  scheduler adapter provides it: a timer fires once, at the first tick not before its time, in the
  order of (time, key), unless it is cancelled or rescheduled.
\<close>

section \<open>The interface\<close>

locale timer_service =
  fixes schedule :: "timer_key \<Rightarrow> millis \<Rightarrow> 's \<Rightarrow> 's"
    and cancel :: "timer_key \<Rightarrow> 's \<Rightarrow> 's"
    and fire :: "millis \<Rightarrow> 's \<Rightarrow> 's"
    and fired :: "millis \<Rightarrow> 's \<Rightarrow> timer_key list"
    and due_at :: "'s \<Rightarrow> timer_key \<Rightarrow> millis option"
    and ok :: "'s \<Rightarrow> bool"
  assumes due_schedule: "ok s \<Longrightarrow> due_at (schedule k d s) = (due_at s)(k \<mapsto> d)"
    and due_cancel: "ok s \<Longrightarrow> due_at (cancel k s) = (due_at s)(k := None)"
    and due_fire: "ok s \<Longrightarrow> due_at (fire t s) k =
      (case due_at s k of Some d \<Rightarrow> if d \<le> t then None else Some d | None \<Rightarrow> None)"
    and set_fired: "ok s \<Longrightarrow> k \<in> set (fired t s) \<longleftrightarrow> (\<exists>d. due_at s k = Some d \<and> d \<le> t)"
    and sorted_fired: "ok s \<Longrightarrow> sorted (map (\<lambda>k. (the (due_at s k), k)) (fired t s))"
    and distinct_fired: "ok s \<Longrightarrow> distinct (fired t s)"
    and ok_schedule: "ok s \<Longrightarrow> ok (schedule k d s)"
    and ok_cancel: "ok s \<Longrightarrow> ok (cancel k s)"
    and ok_fire: "ok s \<Longrightarrow> ok (fire t s)"
begin

lemma not_early: "ok s \<Longrightarrow> due_at s k = Some d \<Longrightarrow> t < d \<Longrightarrow> k \<notin> set (fired t s)"
  by (simp add: set_fired not_le)

lemma fires_once: "ok s \<Longrightarrow> k \<in> set (fired t s) \<Longrightarrow> k \<notin> set (fired t' (fire t s))"
  by (auto simp: set_fired ok_fire due_fire)

lemma cancelled_silent: "ok s \<Longrightarrow> k \<notin> set (fired t (cancel k s))"
  by (simp add: set_fired ok_cancel due_cancel)

lemma rescheduled: "ok s \<Longrightarrow> k \<in> set (fired t (schedule k d s)) \<longleftrightarrow> d \<le> t"
  by (simp add: set_fired ok_schedule due_schedule)

text \<open>Ticking more often fires the same timers in the same order.\<close>

lemma fired_split:
  assumes ok: "ok s" and "t \<le> t'"
  shows "fired t' s = fired t s @ fired t' (fire t s)"
proof -
  let ?f = "\<lambda>k. (the (due_at s k), k)" and ?later = "fired t' (fire t s)"
  have ok': "ok (fire t s)"
    using ok by (rule ok_fire)
  have later: "k \<in> set ?later \<longleftrightarrow> (\<exists>d. due_at s k = Some d \<and> t < d \<and> d \<le> t')" for k
    using ok by (auto simp: set_fired ok' due_fire split: option.splits)
  have same: "map ?f ?later = map (\<lambda>k. (the (due_at (fire t s) k), k)) ?later"
    by (rule map_cong [OF refl]) (auto simp: later due_fire ok)
  have "sorted (map ?f ?later)"
    unfolding same by (rule sorted_fired [OF ok'])
  moreover have "?f k \<le> ?f k'" if "k \<in> set (fired t s)" and "k' \<in> set ?later" for k k'
    using that by (auto simp: set_fired ok later)
  ultimately have "sorted (map ?f (fired t s @ ?later))"
    using sorted_fired [OF ok, of t] by (simp add: sorted_append)
  moreover have "distinct (map ?f (fired t s @ ?later))"
    using distinct_fired [OF ok, of t] distinct_fired [OF ok', of t']
    by (auto simp: distinct_map inj_on_def set_fired ok later)
  moreover have "set (map ?f (fired t' s)) = set (map ?f (fired t s @ ?later))"
    using \<open>t \<le> t'\<close> by (force simp: set_fired ok later image_iff)
  moreover have "distinct (map ?f (fired t' s))"
    using distinct_fired [OF ok, of t'] by (simp add: distinct_map inj_on_def)
  ultimately have "map ?f (fired t' s) = map ?f (fired t s @ ?later)"
    using sorted_fired [OF ok, of t'] sorted_distinct_set_unique by blast
  moreover have "inj ?f"
    by (rule injI) simp
  ultimately show ?thesis
    using inj_map_eq_map by blast
qed

end

section \<open>The scheduler provides it\<close>

lemma set_sched_due: "set (sched_due now p) = {(t, k). (k, t) \<in> set p \<and> t \<le> now}"
  by (force simp: sched_due_def)

lemma fold_hm_remove:
  "fold (\<lambda>(_, key). hm_remove key) due p = filter (\<lambda>(k, _). k \<notin> snd ` set due) p"
proof (induction due arbitrary: p)
  case (Cons d due)
  then show ?case
    by (auto simp: AList.delete_eq case_prod_beta intro: filter_cong)
qed (simp add: case_prod_beta)

lemma sched_tick_pending:
  assumes "hm_wf p"
  shows "fst (sched_tick p now) = filter (\<lambda>(_, t). \<not> t \<le> now) p"
proof -
  have "k \<notin> snd ` set (sched_due now p) \<longleftrightarrow> \<not> t \<le> now" if "(k, t) \<in> set p" for k t
    using that eq_key_imp_eq_value [OF assms] by (force simp: set_sched_due image_iff)
  then show ?thesis
    by (auto simp: sched_tick_def fold_hm_remove Let_def intro!: filter_cong)
qed

lemma sched_tick_events:
  "snd (sched_tick p now) = map (\<lambda>(_, key). TimerElapsed key) (sched_due now p)"
  by (simp add: sched_tick_def Let_def)

lemma hm_wf_filter: "hm_wf p \<Longrightarrow> hm_wf (filter P p)"
  by (rule distinct_map_filter)

lemma hm_get_filter:
  "hm_wf p \<Longrightarrow> hm_get (filter (\<lambda>(_, t). \<not> t \<le> now) p) k =
    (case hm_get p k of Some d \<Rightarrow> if d \<le> now then None else Some d | None \<Rightarrow> None)"
proof (induction p)
  case (Cons e p)
  obtain k' d' where e: "e = (k', d')"
    by fastforce
  from Cons.prems have "hm_get p k' = None"
    by (simp add: e map_of_eq_None_iff)
  with Cons show ?case
    by (cases "k = k'") (simp_all add: e split: option.split)
qed simp

lemma sched_tick_wf [inv_intros]: "hm_wf p \<Longrightarrow> hm_wf (fst (sched_tick p now))"
  by (simp add: sched_tick_pending hm_wf_filter)

lemma sched_dispatch_wf [inv_intros]: "hm_wf p \<Longrightarrow> hm_wf (fst (sched_dispatch p cmd now))"
  by (cases cmd) auto

lemma sched_dispatch_ok: "snd (sched_dispatch p cmd now) = Ok []"
  by (cases cmd) (auto simp: outcome_ok_def)

lemma distinct_sched_due: "hm_wf p \<Longrightarrow> distinct (map snd (sched_due now p))"
proof -
  assume "hm_wf p"
  then have "distinct (map snd (map (\<lambda>(k, t). (t, k)) (filter (\<lambda>(_, t). t \<le> now) p)))"
    by (auto simp: distinct_map inj_on_def case_prod_beta comp_def)
  moreover have "mset (map snd (sched_due now p)) =
      mset (map snd (map (\<lambda>(k, t). (t, k)) (filter (\<lambda>(_, t). t \<le> now) p)))"
    by (simp only: sched_due_def mset_map mset_sort)
  ultimately show ?thesis
    by (metis mset_eq_imp_distinct_iff)
qed

lemma sched_due_at:
  assumes "hm_wf p"
  shows "map (\<lambda>k. (the (hm_get p k), k)) (map snd (sched_due now p)) = sched_due now p"
proof -
  have "(the (hm_get p (snd e)), snd e) = e" if "e \<in> set (sched_due now p)" for e
  proof -
    obtain t k where e: "e = (t, k)"
      by fastforce
    with that have "(k, t) \<in> set p"
      by (simp add: set_sched_due)
    then have "hm_get p k = Some t"
      by (rule map_of_is_SomeI [OF assms])
    with e show ?thesis
      by simp
  qed
  then show ?thesis
    by (simp add: comp_def map_idI)
qed

interpretation sched: timer_service hm_insert hm_remove
    "\<lambda>t p. fst (sched_tick p t)" "\<lambda>t p. map snd (sched_due t p)" hm_get hm_wf
proof
  fix p :: scheduler and t k d
  assume wf: "hm_wf p"
  then show "hm_get (hm_insert k d p) = (hm_get p)(k \<mapsto> d)"
    and "hm_get (hm_remove k p) = (hm_get p)(k := None)"
    and "hm_wf (hm_insert k d p)" and "hm_wf (hm_remove k p)"
    by simp_all
  from wf show "hm_get (fst (sched_tick p t)) k =
      (case hm_get p k of Some d \<Rightarrow> if d \<le> t then None else Some d | None \<Rightarrow> None)"
    by (simp add: sched_tick_pending hm_get_filter)
  from wf show "k \<in> set (map snd (sched_due t p)) \<longleftrightarrow> (\<exists>d. hm_get p k = Some d \<and> d \<le> t)"
    by (force simp: set_sched_due hm_get_iff)
  from wf show "sorted (map (\<lambda>k. (the (hm_get p k), k)) (map snd (sched_due t p)))"
    by (simp only: sched_due_at) (simp add: sched_due_def)
  from wf show "distinct (map snd (sched_due t p))"
    by (rule distinct_sched_due)
  from wf show "hm_wf (fst (sched_tick p t))"
    by (rule sched_tick_wf)
qed

lemma sched_tick_keys:
  "snd (sched_tick p now) = map TimerElapsed (map snd (sched_due now p))"
  by (simp add: sched_tick_events case_prod_beta comp_def)

section \<open>Properties of the scheduler\<close>

text \<open>
  A timer elapses at a tick iff it is pending and due, it elapses once, and what is not due
  stays pending with its time: none is lost, early or repeated.
\<close>

theorem sched_tick_exact:
  assumes "hm_wf p"
  shows "(TimerElapsed k \<in> set (snd (sched_tick p now)) \<longleftrightarrow> (\<exists>d. hm_get p k = Some d \<and> d \<le> now)) \<and>
    distinct (snd (sched_tick p now)) \<and>
    hm_get (fst (sched_tick p now)) k =
      (case hm_get p k of Some d \<Rightarrow> if d \<le> now then None else Some d | None \<Rightarrow> None)"
proof (intro conjI)
  have "TimerElapsed k \<in> set (snd (sched_tick p now)) \<longleftrightarrow> k \<in> set (map snd (sched_due now p))"
    unfolding sched_tick_keys by auto
  then show "TimerElapsed k \<in> set (snd (sched_tick p now)) \<longleftrightarrow> (\<exists>d. hm_get p k = Some d \<and> d \<le> now)"
    using sched.set_fired [OF assms] by simp
  show "distinct (snd (sched_tick p now))"
    unfolding sched_tick_keys using sched.distinct_fired [OF assms, of now]
    by (simp add: distinct_map inj_on_def)
qed (rule sched.due_fire [OF assms])

theorem sched_tick_exact_witness:
  "TimerElapsed (TimerKey ''off'') \<in> set (snd (sched_tick [(TimerKey ''off'', 600)] 600))"
  using sched_tick_exact [of "[(TimerKey ''off'', 600)]" "TimerKey ''off''" 600] by simp

text \<open>
  The granularity of ticks does not matter. Advancing in two ticks elapses the timers one tick
  would, in the same order, so a host that wakes early changes nothing.
\<close>

theorem sched_tick_split:
  assumes "hm_wf p" and "t \<le> t'"
  shows "snd (sched_tick p t') = snd (sched_tick p t) @ snd (sched_tick (fst (sched_tick p t)) t')"
  unfolding sched_tick_keys sched.fired_split [OF assms] by simp

theorem sched_tick_split_witness:
  "snd (sched_tick [(TimerKey ''b'', 5), (TimerKey ''a'', 9)] 9) =
     snd (sched_tick [(TimerKey ''b'', 5), (TimerKey ''a'', 9)] 7) @
     snd (sched_tick (fst (sched_tick [(TimerKey ''b'', 5), (TimerKey ''a'', 9)] 7)) 9)"
  by (rule sched_tick_split) simp_all

text \<open>
  The result of a tick does not depend on the iteration order of the hash table: two tables
  with the same entries elapse the same timers in the same order and keep the same entries.
\<close>

theorem sched_tick_hash_order:
  assumes "mset p = mset q"
  shows "snd (sched_tick p now) = snd (sched_tick q now) \<and>
    mset (fst (sched_tick p now)) = mset (fst (sched_tick q now))"
proof (intro conjI)
  have "mset (map (\<lambda>(k, t). (t, k)) (filter (\<lambda>(_, t). t \<le> now) p)) =
      mset (map (\<lambda>(k, t). (t, k)) (filter (\<lambda>(_, t). t \<le> now) q))"
    using assms by simp
  then have due: "sched_due now p = sched_due now q"
    unfolding sched_due_def by (rule sort_mset_cong)
  then show "snd (sched_tick p now) = snd (sched_tick q now)"
    by (simp add: sched_tick_keys)
  from due show "mset (fst (sched_tick p now)) = mset (fst (sched_tick q now))"
    using assms by (simp add: sched_tick_def Let_def fold_hm_remove)
qed

theorem sched_tick_hash_order_witness:
  "snd (sched_tick [(TimerKey ''b'', 5), (TimerKey ''a'', 5)] 7) =
     snd (sched_tick [(TimerKey ''a'', 5), (TimerKey ''b'', 5)] 7)"
  by (rule sched_tick_hash_order [THEN conjunct1]) simp

lemma next_wake_Some:
  assumes "sched_next_wake p now = Some dt"
  shows "snd (sched_tick p (now + dt)) \<noteq> [] \<and>
    \<not> (\<exists>t. now \<le> t \<and> t < now + dt \<and> snd (sched_tick p t) \<noteq> [])"
proof -
  obtain f where f: "min_opt (map snd p) = Some f" "dt = saturating_sub f now"
    using assms by (auto simp: sched_next_wake_def)
  then have min: "f \<in> snd ` set p" "\<And>k t. (k, t) \<in> set p \<Longrightarrow> f \<le> t"
    unfolding min_opt_Some_iff by (force simp: not_less)+
  have wake: "f \<le> now + dt" and tight: "t < now + dt \<Longrightarrow> now \<le> t \<Longrightarrow> t < f" for t
    using f(2) by (auto simp: saturating_sub_def split: if_splits)
  have none: "snd (sched_tick p t) = [] \<longleftrightarrow> t < f" for t
  proof -
    have "snd (sched_tick p t) = [] \<longleftrightarrow> set (sched_due t p) = {}"
      by (simp add: sched_tick_events)
    also have "\<dots> \<longleftrightarrow> \<not> (\<exists>k d. (k, d) \<in> set p \<and> d \<le> t)"
      unfolding set_sched_due by blast
    also have "\<dots> \<longleftrightarrow> t < f"
      using min by (auto simp: not_le intro: order.strict_trans2)
    finally show ?thesis .
  qed
  show ?thesis
    using wake tight unfolding none by (meson not_less)
qed

text \<open>
  \<open>next_wake\<close> is exact. Sleeping for the delay it gives makes some timer due, waking any earlier
  fires none, and there is no delay iff nothing is pending.
\<close>

theorem sched_next_wake_exact:
  "case sched_next_wake p now of
     None \<Rightarrow> p = []
   | Some dt \<Rightarrow> snd (sched_tick p (now + dt)) \<noteq> [] \<and>
       \<not> (\<exists>t. now \<le> t \<and> t < now + dt \<and> snd (sched_tick p t) \<noteq> [])"
proof (cases "sched_next_wake p now")
  case None
  then show ?thesis
    by (simp add: sched_next_wake_def)
next
  case (Some dt)
  with next_wake_Some [OF this] show ?thesis
    by simp
qed

end
