(* ===== verification/Engine.thy ===== *)
theory Engine
  imports Rules Timers
begin

text \<open>
  The runtime (\<open>engine.rs\<close>): the single-threaded event loop, its dispatch and retry machinery and
  the \<open>for:\<close> timers. This theory holds the definitions; \<open>Engine_Inv\<close> and \<open>Engine_Props\<close> hold the
  invariants and the properties.
\<close>

section \<open>Results\<close>

text \<open>
  A call returns a value, panics (an index out of range), or exhausts the call stack. The bound on
  the call stack is the argument of \<open>dispatch_at\<close>, whose only recursion is the expansion of scenes.
\<close>

datatype 'a run = Done 'a | Panicked | StackOverflow

fun run_bind :: "'a run \<Rightarrow> ('a \<Rightarrow> 'b run) \<Rightarrow> 'b run" where
  "run_bind (Done a) f = f a"
| "run_bind Panicked f = Panicked"
| "run_bind StackOverflow f = StackOverflow"

fun run_fold :: "('c \<Rightarrow> 'a \<Rightarrow> 'a run) \<Rightarrow> 'c list \<Rightarrow> 'a \<Rightarrow> 'a run" where
  "run_fold f [] a = Done a"
| "run_fold f (c # cs) a = run_bind (f c a) (run_fold f cs)"

section \<open>State\<close>

text \<open>
  The calls the engine makes on its observers. Observers hold no reference to the engine and are
  all notified alike, so the engine's state records the sequence of notifications itself.
\<close>

datatype notice =
    DispatchFailed command string bool u32
  | RetryScheduled command u32 millis
  | GaveUp command string u32
  | CascadeDropped event u32
  | EventReceived event u32
  | StateFolded device_id capability_state
  | RuleConsidered rule_id truth bool
  | CommandDispatched command u32
  | SceneExpanded scene_id nat

record retry_policy =
  max_attempts :: u32
  base_backoff :: millis

definition default_retry :: retry_policy where
  "default_retry = \<lparr>max_attempts = 3, base_backoff = 1000\<rparr>"

text \<open>\<open>shift\<close> is at most 15, so the shift of \<open>1u64\<close> keeps its bit.\<close>

definition backoff :: "retry_policy \<Rightarrow> u32 \<Rightarrow> millis" where
  "backoff p failed_attempt =
     (let shift = saturating_sub (min failed_attempt 16) 1
      in saturating_mul (base_backoff p) (push_bit (unat shift) 1))"

record pending_retry =
  pr_command :: command
  pr_attempt :: u32

text \<open>
  An entry of the adapter table: the scheduler, which the engine itself puts at index 0, or any
  other adapter, with the methods of the table \<open>V\<close> every operation takes first.
\<close>

datatype 'x adapter = Scheduler scheduler | Device 'x

record ('x, 'n) vtable =
  dev :: "'x adapter_ops"
  nb :: "'n northbound_ops"

text \<open>The in-process adapters, with no protocol and no file system.\<close>

definition virtual_house :: "(unit, mock_northbound) vtable" where
  "virtual_house = \<lparr>dev = virtual_ops, nb = mock_nb_ops\<rparr>"

record ('x, 'n) engine =
  e_now :: millis
  e_queue :: "(event \<times> u32) list"
  e_state :: store
  e_rules :: "rule list"
  e_adapters :: "'x adapter list"
  e_northbound :: "'n list"
  e_routes :: "(device_id, nat) hashmap"
  e_scenes :: "(scene_id, command list) hashmap"
  e_trace :: "notice list"
  e_retry :: retry_policy
  e_retries :: "(timer_key, pending_retry) hashmap"
  e_retry_counter :: u64
  e_pending_for :: "(rule_id, timer_key) hashmap"
  e_for_counter :: u64
  e_max_depth :: u32

definition retry_prefix :: string where
  "retry_prefix = ''__retry:''"

definition for_prefix :: string where
  "for_prefix = ''__for:''"

definition retry_key :: "u64 \<Rightarrow> timer_key" where
  "retry_key n = TimerKey (retry_prefix @ decimal (unat n))"

definition for_key :: "u64 \<Rightarrow> timer_key" where
  "for_key n = TimerKey (for_prefix @ decimal (unat n))"

section \<open>Construction and wiring\<close>

definition new_engine :: "('x, 'n) engine" where
  "new_engine =
     \<lparr>e_now = 0, e_queue = [], e_state = [], e_rules = [], e_adapters = [Scheduler []],
      e_northbound = [], e_routes = [], e_scenes = [], e_trace = [], e_retry = default_retry,
      e_retries = [], e_retry_counter = 0, e_pending_for = [], e_for_counter = 0,
      e_max_depth = 32\<rparr>"

definition add_adapter :: "'x \<Rightarrow> ('x, 'n) engine \<Rightarrow> ('x, 'n) engine \<times> nat" where
  "add_adapter a e =
     (let e' = e\<lparr>e_adapters := e_adapters e @ [Device a]\<rparr> in (e', length (e_adapters e') - 1))"

definition add_northbound :: "'n \<Rightarrow> ('x, 'n) engine \<Rightarrow> ('x, 'n) engine" where
  "add_northbound n e = e\<lparr>e_northbound := e_northbound e @ [n]\<rparr>"

definition bind_device :: "device_id \<Rightarrow> nat \<Rightarrow> ('x, 'n) engine \<Rightarrow> ('x, 'n) engine" where
  "bind_device d i e = e\<lparr>e_routes := hm_insert d i (e_routes e)\<rparr>"

definition add_rule :: "rule \<Rightarrow> ('x, 'n) engine \<Rightarrow> ('x, 'n) engine" where
  "add_rule r e = e\<lparr>e_rules := e_rules e @ [r]\<rparr>"

definition add_scene :: "scene_id \<Rightarrow> command list \<Rightarrow> ('x, 'n) engine \<Rightarrow> ('x, 'n) engine" where
  "add_scene s cmds e = e\<lparr>e_scenes := hm_insert s cmds (e_scenes e)\<rparr>"

definition set_retry_policy :: "retry_policy \<Rightarrow> ('x, 'n) engine \<Rightarrow> ('x, 'n) engine" where
  "set_retry_policy p e = e\<lparr>e_retry := p\<rparr>"

definition set_max_cascade_depth :: "u32 \<Rightarrow> ('x, 'n) engine \<Rightarrow> ('x, 'n) engine" where
  "set_max_cascade_depth d e = e\<lparr>e_max_depth := d\<rparr>"

definition switch_state :: "('x, 'n) engine \<Rightarrow> device_id \<Rightarrow> bool option" where
  "switch_state e d = switch_is (e_state e) d"

section \<open>Observers, queue and adapter table\<close>

definition notify :: "notice \<Rightarrow> ('x, 'n) engine \<Rightarrow> ('x, 'n) engine" where
  "notify m e = e\<lparr>e_trace := e_trace e @ [m]\<rparr>"

definition enqueue_all :: "event list \<Rightarrow> u32 \<Rightarrow> ('x, 'n) engine \<Rightarrow> ('x, 'n) engine" where
  "enqueue_all evs depth e = e\<lparr>e_queue := e_queue e @ map (\<lambda>ev. (ev, depth)) evs\<rparr>"

definition enqueue :: "event \<Rightarrow> u32 \<Rightarrow> ('x, 'n) engine \<Rightarrow> ('x, 'n) engine" where
  "enqueue ev depth e = e\<lparr>e_queue := e_queue e @ [(ev, depth)]\<rparr>"

fun adapter_dispatch ::
  "('x, 'n) vtable \<Rightarrow> 'x adapter \<Rightarrow> command \<Rightarrow> millis \<Rightarrow> 'x adapter \<times> outcome" where
  "adapter_dispatch V (Scheduler s) cmd now = map_prod Scheduler id (sched_dispatch s cmd now)"
| "adapter_dispatch V (Device x) cmd now = map_prod Device id (op_dispatch (dev V) x cmd now)"

fun adapter_tick :: "('x, 'n) vtable \<Rightarrow> 'x adapter \<Rightarrow> millis \<Rightarrow> 'x adapter \<times> event list" where
  "adapter_tick V (Scheduler s) now = map_prod Scheduler id (sched_tick s now)"
| "adapter_tick V (Device x) now = map_prod Device id (op_tick (dev V) x now)"

fun adapter_next_wake :: "('x, 'n) vtable \<Rightarrow> 'x adapter \<Rightarrow> millis \<Rightarrow> millis option" where
  "adapter_next_wake V (Scheduler s) now = sched_next_wake s now"
| "adapter_next_wake V (Device x) now = op_next_wake (dev V) x now"

text \<open>\<open>self.adapters[idx].dispatch(cmd, self.now)\<close>, which panics when \<open>idx\<close> is out of range.\<close>

definition call_adapter ::
  "('x, 'n) vtable \<Rightarrow> nat \<Rightarrow> command \<Rightarrow> ('x, 'n) engine \<Rightarrow> (('x, 'n) engine \<times> outcome) run" where
  "call_adapter V idx cmd e =
     (if idx < length (e_adapters e) then
        (let (a, out) = adapter_dispatch V (e_adapters e ! idx) cmd (e_now e)
         in Done (e\<lparr>e_adapters := (e_adapters e)[idx := a]\<rparr>, out))
      else Panicked)"

text \<open>\<open>let _ = self.adapters[SCHEDULER_IDX].dispatch(\<dots>)\<close>.\<close>

definition call_scheduler ::
  "('x, 'n) vtable \<Rightarrow> command \<Rightarrow> ('x, 'n) engine \<Rightarrow> ('x, 'n) engine run" where
  "call_scheduler V cmd e = run_bind (call_adapter V 0 cmd e) (\<lambda>(e', _). Done e')"

definition fan_state_folded ::
  "('x, 'n) vtable \<Rightarrow> device_id \<Rightarrow> capability_state \<Rightarrow> ('x, 'n) engine \<Rightarrow> ('x, 'n) engine" where
  "fan_state_folded V d s e =
     (let e = notify (StateFolded d s) e
      in e\<lparr>e_northbound := map (\<lambda>n. nb_folded (nb V) n d s) (e_northbound e)\<rparr>)"

fun fold_state :: "('x, 'n) vtable \<Rightarrow> event \<Rightarrow> ('x, 'n) engine \<Rightarrow> ('x, 'n) engine" where
  "fold_state V (StateReported d s) e =
     (let e = fan_state_folded V d s e in e\<lparr>e_state := store_set d s (e_state e)\<rparr>)"
| "fold_state V _ e = e"

section \<open>From intents to commands\<close>

fun command_for_state :: "device_id \<Rightarrow> capability_state \<Rightarrow> command option" where
  "command_for_state d (Switch on) = Some (SetSwitch d on)"
| "command_for_state d (Brightness v) = Some (SetBrightness d v None)"
| "command_for_state d (Color r g b) = Some (SetColor d r g b None)"
| "command_for_state d (ColorTemperature m) = Some (SetColorTemperature d m None)"
| "command_for_state d _ = None"

fun command_for_requested_change :: "device_id \<Rightarrow> desired \<Rightarrow> command option" where
  "command_for_requested_change d (SetTo s) = command_for_state d s"
| "command_for_requested_change d Toggle = Some (ToggleSwitch d)"
| "command_for_requested_change d (AdjustBrightness delta) =
     (if sint delta > 0 then Some (IncreaseBrightness d (word_of_int \<bar>sint delta\<bar>))
      else if sint delta < 0 then Some (DecreaseBrightness d (word_of_int \<bar>sint delta\<bar>))
      else None)"
| "command_for_requested_change d (SendIr code) = Some (SendIrCode d code)"

fun resolve_implicit :: "store \<Rightarrow> command \<Rightarrow> command" where
  "resolve_implicit m (ToggleSwitch d) =
     (case switch_is m d of Some on \<Rightarrow> SetSwitch d (\<not> on) | None \<Rightarrow> ToggleSwitch d)"
| "resolve_implicit m (DecreaseBrightness d v) =
     (case num_value m d KBrightness of
        Some b \<Rightarrow> SetBrightness d (word_of_int (clamp 0 100 (b - uint v))) None
      | None \<Rightarrow> DecreaseBrightness d v)"
| "resolve_implicit m (IncreaseBrightness d v) =
     (case num_value m d KBrightness of
        Some b \<Rightarrow> SetBrightness d (word_of_int (clamp 0 100 (b + uint v))) None
      | None \<Rightarrow> IncreaseBrightness d v)"
| "resolve_implicit m cmd = cmd"

section \<open>Dispatch, failure and retry\<close>

definition give_up ::
  "command \<Rightarrow> string \<Rightarrow> u32 \<Rightarrow> u32 \<Rightarrow> ('x, 'n) engine \<Rightarrow> ('x, 'n) engine" where
  "give_up cmd reason attempts depth e =
     enqueue (CommandFailed cmd reason attempts) (depth + 1) (notify (GaveUp cmd reason attempts) e)"

definition schedule_retry ::
  "('x, 'n) vtable \<Rightarrow> command \<Rightarrow> u32 \<Rightarrow> ('x, 'n) engine \<Rightarrow> ('x, 'n) engine run" where
  "schedule_retry V cmd failed_attempt e =
     (let next_attempt = failed_attempt + 1;
          delay = backoff (e_retry e) failed_attempt;
          e = e\<lparr>e_retry_counter := e_retry_counter e + 1\<rparr>;
          key = retry_key (e_retry_counter e);
          e = notify (RetryScheduled cmd next_attempt delay) e;
          e = e\<lparr>e_retries := hm_insert key \<lparr>pr_command = cmd, pr_attempt = next_attempt\<rparr> (e_retries e)\<rparr>
      in call_scheduler V (ScheduleTimer key delay) e)"

fun handle_outcome ::
  "('x, 'n) vtable \<Rightarrow> outcome \<Rightarrow> command \<Rightarrow> u32 \<Rightarrow> u32 \<Rightarrow> ('x, 'n) engine \<Rightarrow> ('x, 'n) engine run" where
  "handle_outcome V (Ok evs) cmd attempt depth e = Done (enqueue_all evs (depth + 1) e)"
| "handle_outcome V (Transient reason) cmd attempt depth e =
     (let e = notify (DispatchFailed cmd reason True attempt) e in
      if attempt < max_attempts (e_retry e) then schedule_retry V cmd attempt e
      else Done (give_up cmd reason attempt depth e))"
| "handle_outcome V (Permanent reason) cmd attempt depth e =
     (let e = notify (DispatchFailed cmd reason False attempt) e
      in Done (give_up cmd reason attempt depth e))"

text \<open>The two ends of \<open>dispatch_at\<close>: a scheduler command and a command for a device.\<close>

definition dispatch_scheduler ::
  "('x, 'n) vtable \<Rightarrow> command \<Rightarrow> u32 \<Rightarrow> ('x, 'n) engine \<Rightarrow> ('x, 'n) engine run" where
  "dispatch_scheduler V cmd depth e =
     run_bind (call_adapter V 0 cmd e) (\<lambda>(e, out).
       case out of Ok evs \<Rightarrow> Done (enqueue_all evs (depth + 1) e) | _ \<Rightarrow> Done e)"

definition dispatch_device ::
  "('x, 'n) vtable \<Rightarrow> command \<Rightarrow> u32 \<Rightarrow> u32 \<Rightarrow> ('x, 'n) engine \<Rightarrow> ('x, 'n) engine run" where
  "dispatch_device V cmd attempt depth e =
     (case Option.bind (target_device cmd) (hm_get (e_routes e)) of
        Some idx \<Rightarrow>
          run_bind (call_adapter V idx cmd e) (\<lambda>(e, out). handle_outcome V out cmd attempt depth e)
      | None \<Rightarrow>
          handle_outcome V (Permanent ''no adapter bound for target device'') cmd attempt depth e)"

primrec dispatch_at ::
  "nat \<Rightarrow> ('x, 'n) vtable \<Rightarrow> command \<Rightarrow> u32 \<Rightarrow> u32 \<Rightarrow> ('x, 'n) engine \<Rightarrow> ('x, 'n) engine run" where
  "dispatch_at 0 V cmd0 attempt depth e = StackOverflow"
| "dispatch_at (Suc n) V cmd0 attempt depth e0 =
     (let cmd = resolve_implicit (e_state e0) cmd0;
          e = notify (CommandDispatched cmd depth) e0
      in case cmd of
           ActivateScene scene \<Rightarrow>
             (case hm_get (e_scenes e) scene of
                Some cmds \<Rightarrow>
                  run_fold (\<lambda>c. dispatch_at n V c 1 depth) cmds
                    (notify (SceneExpanded scene (length cmds)) e)
              | None \<Rightarrow> Done e)
         | ScheduleTimer _ _ \<Rightarrow> dispatch_scheduler V cmd depth e
         | CancelTimer _ \<Rightarrow> dispatch_scheduler V cmd depth e
         | _ \<Rightarrow> dispatch_device V cmd attempt depth e)"

definition dispatch_all ::
  "nat \<Rightarrow> ('x, 'n) vtable \<Rightarrow> command list \<Rightarrow> u32 \<Rightarrow> ('x, 'n) engine \<Rightarrow> ('x, 'n) engine run" where
  "dispatch_all n V cmds depth = run_fold (\<lambda>c. dispatch_at n V c 1 depth) cmds"

section \<open>The \<open>for:\<close> timers\<close>

definition find_rule :: "rule_id \<Rightarrow> ('x, 'n) engine \<Rightarrow> rule option" where
  "find_rule i e = find (\<lambda>r. r_id r = i) (e_rules e)"

definition arm_for_timer ::
  "('x, 'n) vtable \<Rightarrow> rule_id \<Rightarrow> millis \<Rightarrow> ('x, 'n) engine \<Rightarrow> ('x, 'n) engine run" where
  "arm_for_timer V rule after e =
     run_bind
       (case hm_get (e_pending_for e) rule of
          Some prev \<Rightarrow>
            call_scheduler V (CancelTimer prev) (e\<lparr>e_pending_for := hm_remove rule (e_pending_for e)\<rparr>)
        | None \<Rightarrow> Done e)
       (\<lambda>e.
         let e = e\<lparr>e_for_counter := e_for_counter e + 1\<rparr>;
             key = for_key (e_for_counter e);
             e = e\<lparr>e_pending_for := hm_insert rule key (e_pending_for e)\<rparr>
         in call_scheduler V (ScheduleTimer key after) e)"

definition reverted_rules :: "('x, 'n) engine \<Rightarrow> rule_id list" where
  "reverted_rules e =
     filter (\<lambda>i. case find_rule i e of
         Some r \<Rightarrow> \<not> predicate_holds (r_trigger r) (e_state e)
       | None \<Rightarrow> True)
       (map fst (e_pending_for e))"

definition cancel_for ::
  "('x, 'n) vtable \<Rightarrow> rule_id \<Rightarrow> ('x, 'n) engine \<Rightarrow> ('x, 'n) engine run" where
  "cancel_for V rule e =
     (case hm_get (e_pending_for e) rule of
        Some key \<Rightarrow>
          call_scheduler V (CancelTimer key) (e\<lparr>e_pending_for := hm_remove rule (e_pending_for e)\<rparr>)
      | None \<Rightarrow> Done e)"

definition cancel_reverted_for_timers ::
  "('x, 'n) vtable \<Rightarrow> ('x, 'n) engine \<Rightarrow> ('x, 'n) engine run" where
  "cancel_reverted_for_timers V e = run_fold (cancel_for V) (reverted_rules e) e"

definition fire_elapsed_for ::
  "nat \<Rightarrow> ('x, 'n) vtable \<Rightarrow> timer_key \<Rightarrow> ('x, 'n) engine \<Rightarrow> ('x, 'n) engine run" where
  "fire_elapsed_for n V key e =
     (case find (\<lambda>(_, k). k = key) (e_pending_for e) of
        None \<Rightarrow> Done e
      | Some (rule_id, _) \<Rightarrow>
          (let e = e\<lparr>e_pending_for := hm_remove rule_id (e_pending_for e)\<rparr> in
           case find_rule rule_id e of
             None \<Rightarrow> Done e
           | Some r \<Rightarrow>
               if predicate_holds (r_trigger r) (e_state e)
               then dispatch_all n V (r_commands r) 0 e else Done e))"

section \<open>The event loop\<close>

text \<open>
  The loop over the rules: what the observers see, the commands to dispatch and the rules whose
  \<open>for:\<close> timer is to be armed, each in rule order.
\<close>

fun consider_rules ::
  "store \<Rightarrow> event \<Rightarrow> capability_state option \<Rightarrow> rule list \<Rightarrow>
    notice list \<times> command list \<times> (rule_id \<times> millis) list" where
  "consider_rules m ev prior [] = ([], [], [])"
| "consider_rules m ev prior (r # rs) =
     (if \<not> matches (r_trigger r) ev prior then consider_rules m ev prior rs
      else
        (let truth = cond_eval m (r_condition r);
             fired = is_true truth;
             (ns, cmds, arms) = consider_rules m ev prior rs
         in (RuleConsidered (r_id r) truth fired # ns,
             if fired \<and> r_for r = None then r_commands r @ cmds else cmds,
             case r_for r of
               Some d \<Rightarrow> if fired then (r_id r, d) # arms else arms
             | None \<Rightarrow> arms)))"

fun prior_state :: "store \<Rightarrow> event \<Rightarrow> capability_state option" where
  "prior_state m (StateReported d s) = store_get m d (kind s)"
| "prior_state m _ = None"

definition react ::
  "nat \<Rightarrow> ('x, 'n) vtable \<Rightarrow> event \<Rightarrow> u32 \<Rightarrow> ('x, 'n) engine \<Rightarrow> ('x, 'n) engine run" where
  "react n V ev depth e =
     (let prior = prior_state (e_state e) ev;
          e = fold_state V ev e
      in run_bind
           (case ev of StateReported _ _ \<Rightarrow> cancel_reverted_for_timers V e | _ \<Rightarrow> Done e)
           (\<lambda>e.
             let (ns, cmds, arms) = consider_rules (e_state e) ev prior (e_rules e);
                 e = e\<lparr>e_trace := e_trace e @ ns\<rparr>
             in run_bind (run_fold (\<lambda>(rule, d). arm_for_timer V rule d) arms e)
                  (dispatch_all n V cmds depth)))"

definition request_change ::
  "nat \<Rightarrow> ('x, 'n) vtable \<Rightarrow> device_id \<Rightarrow> desired \<Rightarrow> u32 \<Rightarrow> ('x, 'n) engine \<Rightarrow> ('x, 'n) engine run" where
  "request_change n V d des depth e =
     run_bind
       (case command_for_requested_change d des of
          Some cmd \<Rightarrow> dispatch_at n V cmd 1 depth e
        | None \<Rightarrow> Done e)
       (\<lambda>e. Done
         (case store_get (e_state e) d (desired_kind des) of
            Some s \<Rightarrow> fan_state_folded V d s e
          | None \<Rightarrow> e))"

definition process_event ::
  "nat \<Rightarrow> ('x, 'n) vtable \<Rightarrow> event \<Rightarrow> u32 \<Rightarrow> ('x, 'n) engine \<Rightarrow> ('x, 'n) engine run" where
  "process_event n V ev depth e =
     (if depth > e_max_depth e then Done (notify (CascadeDropped ev depth) e)
      else
        (let e = notify (EventReceived ev depth) e in
         case ev of
           TimerElapsed key \<Rightarrow>
             (case hm_get (e_retries e) key of
                Some p \<Rightarrow>
                  dispatch_at n V (pr_command p) (pr_attempt p) 0
                    (e\<lparr>e_retries := hm_remove key (e_retries e)\<rparr>)
              | None \<Rightarrow>
                  if starts_with for_prefix (timer_name key) then fire_elapsed_for n V key e
                  else react n V ev depth e)
         | RequestedChange d des \<Rightarrow> request_change n V d des depth e
         | RequestedScene scene \<Rightarrow> dispatch_at n V (ActivateScene scene) 1 depth e
         | _ \<Rightarrow> react n V ev depth e))"

text \<open>The loop until the queue is empty; \<open>None\<close> is a loop that never ends.\<close>

partial_function (option) drain ::
  "nat \<Rightarrow> ('x, 'n) vtable \<Rightarrow> ('x, 'n) engine \<Rightarrow> ('x, 'n) engine run option" where
  "drain n V e =
     (case e_queue e of
        [] \<Rightarrow> Some (Done e)
      | (ev, depth) # q \<Rightarrow>
          (case process_event n V ev depth (e\<lparr>e_queue := q\<rparr>) of
             Done e' \<Rightarrow> drain n V e'
           | Panicked \<Rightarrow> Some Panicked
           | StackOverflow \<Rightarrow> Some StackOverflow))"

section \<open>The inputs of the engine\<close>

definition tick_adapters :: "('x, 'n) vtable \<Rightarrow> ('x, 'n) engine \<Rightarrow> ('x, 'n) engine" where
  "tick_adapters V e =
     (let south = map (\<lambda>a. adapter_tick V a (e_now e)) (e_adapters e);
          north = map (\<lambda>n. nb_tick (nb V) n (e_now e)) (e_northbound e)
      in enqueue_all (concat (map snd south) @ concat (map snd north)) 0
           (e\<lparr>e_adapters := map fst south, e_northbound := map fst north\<rparr>))"

definition sync_northbound :: "('x, 'n) vtable \<Rightarrow> ('x, 'n) engine \<Rightarrow> ('x, 'n) engine" where
  "sync_northbound V e =
     e\<lparr>e_northbound :=
         map (\<lambda>n. fold (\<lambda>(d, s) n. nb_folded (nb V) n d s) (store_iter (e_state e)) n)
           (e_northbound e)\<rparr>"

definition inject ::
  "nat \<Rightarrow> ('x, 'n) vtable \<Rightarrow> event \<Rightarrow> ('x, 'n) engine \<Rightarrow> ('x, 'n) engine run option" where
  "inject n V ev e = drain n V (enqueue ev 0 e)"

definition advance ::
  "nat \<Rightarrow> ('x, 'n) vtable \<Rightarrow> millis \<Rightarrow> ('x, 'n) engine \<Rightarrow> ('x, 'n) engine run option" where
  "advance n V dt e = drain n V (tick_adapters V (e\<lparr>e_now := e_now e + dt\<rparr>))"

definition start ::
  "nat \<Rightarrow> ('x, 'n) vtable \<Rightarrow> ('x, 'n) engine \<Rightarrow> ('x, 'n) engine run option" where
  "start n V e =
     map_option (\<lambda>r. run_bind r (\<lambda>e. Done (sync_northbound V e))) (drain n V (tick_adapters V e))"

definition next_wake_delay :: "('x, 'n) vtable \<Rightarrow> ('x, 'n) engine \<Rightarrow> millis option" where
  "next_wake_delay V e =
     min_opt
       (List.map_filter (\<lambda>a. adapter_next_wake V a (e_now e)) (e_adapters e) @
        List.map_filter (\<lambda>n. nb_next_wake (nb V) n (e_now e)) (e_northbound e))"

end
