(* ===== verification/Engine_Inv.thy ===== *)
theory Engine_Inv
  imports Engine
begin

text \<open>
  What one dispatch, and so one event, can change: the frame of every operation of the engine, the
  well-formedness invariant with the absence of panics, the exact use of the call stack, and the
  depths of what is queued.
\<close>

section \<open>Runs and folds\<close>

lemma run_bind_Done: "run_bind r f = Done b \<longleftrightarrow> (\<exists>a. r = Done a \<and> f a = Done b)"
  by (cases r) auto

lemma run_bind_cong_Done: "run_bind r Done = r"
  by (cases r) auto

lemma run_fold_append: "run_fold f (xs @ ys) a = run_bind (run_fold f xs a) (run_fold f ys)"
proof (induction xs arbitrary: a)
  case (Cons x xs)
  then show ?case
    by (cases "f x a") auto
qed simp

text \<open>A property of states kept by every step of a fold is kept by the fold; so is progress.\<close>

lemma run_fold_invariant:
  "P a \<Longrightarrow> (\<And>c a. c \<in> set cs \<Longrightarrow> P a \<Longrightarrow> \<exists>b. f c a = Done b \<and> P b) \<Longrightarrow>
    \<exists>b. run_fold f cs a = Done b \<and> P b"
proof (induction cs arbitrary: a)
  case (Cons c cs)
  then obtain b where b: "f c a = Done b" "P b"
    by (meson list.set_intros(1))
  then have "\<exists>b'. run_fold f cs b = Done b' \<and> P b'"
    using Cons.prems(2) by (intro Cons.IH) auto
  with b show ?case
    by simp
qed simp

lemma run_fold_relation:
  "(\<And>e. R e e) \<Longrightarrow> (\<And>e f g. R e f \<Longrightarrow> R f g \<Longrightarrow> R e g) \<Longrightarrow>
    (\<And>c e e'. c \<in> set cs \<Longrightarrow> f c e = Done e' \<Longrightarrow> R e e') \<Longrightarrow> run_fold f cs e = Done e' \<Longrightarrow> R e e'"
proof (induction cs arbitrary: e)
  case (Cons c cs)
  from Cons.prems(4) obtain f' where f: "f c e = Done f'" "run_fold f cs f' = Done e'"
    by (auto simp: run_bind_Done)
  with Cons.prems(3) have "R e f'"
    by (meson list.set_intros(1))
  moreover have "R f' e'"
  proof (rule Cons.IH [OF Cons.prems(1) Cons.prems(2) _ f(2)])
    show "R e g" if "c' \<in> set cs" and "f c' e = Done g" for c' e g
      using that by (auto intro: Cons.prems(3))
  qed
  ultimately show ?case
    by (rule Cons.prems(2))
qed simp

lemma notify_sel [simp]:
  "e_now (notify m e) = e_now e" "e_queue (notify m e) = e_queue e"
  "e_state (notify m e) = e_state e" "e_rules (notify m e) = e_rules e"
  "e_adapters (notify m e) = e_adapters e" "e_northbound (notify m e) = e_northbound e"
  "e_routes (notify m e) = e_routes e" "e_scenes (notify m e) = e_scenes e"
  "e_trace (notify m e) = e_trace e @ [m]" "e_retry (notify m e) = e_retry e"
  "e_retries (notify m e) = e_retries e" "e_retry_counter (notify m e) = e_retry_counter e"
  "e_pending_for (notify m e) = e_pending_for e" "e_for_counter (notify m e) = e_for_counter e"
  "e_max_depth (notify m e) = e_max_depth e"
  by (simp_all add: notify_def)

section \<open>The shapes of a dispatch\<close>

fun is_timer_command :: "command \<Rightarrow> bool" where
  "is_timer_command (ScheduleTimer _ _) = True"
| "is_timer_command (CancelTimer _) = True"
| "is_timer_command _ = False"

fun is_scene_command :: "command \<Rightarrow> bool" where
  "is_scene_command (ActivateScene _) = True"
| "is_scene_command _ = False"

lemma resolve_implicit_class [simp]:
  "is_timer_command (resolve_implicit m c) = is_timer_command c"
  "is_scene_command (resolve_implicit m c) = is_scene_command c"
  "target_device (resolve_implicit m c) = target_device c"
  by (cases c; auto split: option.splits)+

lemma resolve_implicit_timer: "is_timer_command c \<Longrightarrow> resolve_implicit m c = c"
  by (cases c) auto

lemma dispatch_at_scene:
  "dispatch_at (Suc n) V (ActivateScene s) attempt depth e =
     (let e = notify (CommandDispatched (ActivateScene s) depth) e in
      case hm_get (e_scenes e) s of
        Some cmds \<Rightarrow> dispatch_all n V cmds depth (notify (SceneExpanded s (length cmds)) e)
      | None \<Rightarrow> Done e)"
  by (simp add: dispatch_all_def Let_def cong: option.case_cong)

lemma dispatch_at_timer:
  "is_timer_command c \<Longrightarrow> dispatch_at (Suc n) V c attempt depth e =
     dispatch_scheduler V c depth (notify (CommandDispatched c depth) e)"
  by (cases c) (simp_all add: Let_def)

lemma dispatch_at_device:
  "\<not> is_timer_command c \<Longrightarrow> \<not> is_scene_command c \<Longrightarrow> dispatch_at (Suc n) V c attempt depth e =
     (let c' = resolve_implicit (e_state e) c in
      dispatch_device V c' attempt depth (notify (CommandDispatched c' depth) e))"
  by (cases c) (simp_all add: Let_def split: option.split)

lemma command_class_cases:
  obtains (Scene) s where "c = ActivateScene s"
  | (Timer) "is_timer_command c"
  | (Dev) "\<not> is_timer_command c" "\<not> is_scene_command c"
  by (cases c) auto

declare dispatch_at.simps(2) [simp del]

section \<open>Relations between the engine before and after a dispatch\<close>

text \<open>
  A reflexive and transitive relation that every leaf of \<open>dispatch_at\<close> respects holds between the
  engine before and after any dispatch, whatever scenes it expands.
\<close>

locale dispatch_relation =
  fixes V :: "('x, 'n) vtable"
    and depth :: u32
    and R :: "('x, 'n) engine \<Rightarrow> ('x, 'n) engine \<Rightarrow> bool"
  assumes refl_R: "R e e"
    and trans_R: "R e f \<Longrightarrow> R f g \<Longrightarrow> R e g"
    and dispatched_R: "R e (notify (CommandDispatched c depth) e)"
    and expanded_R: "R e (notify (SceneExpanded s k) e)"
    and scheduler_R:
      "is_timer_command c \<Longrightarrow> dispatch_scheduler V c depth e = Done e' \<Longrightarrow> R e e'"
    and device_R: "\<not> is_timer_command c \<Longrightarrow> \<not> is_scene_command c \<Longrightarrow>
      dispatch_device V c attempt depth e = Done e' \<Longrightarrow> R e e'"
begin

lemma dispatch_at_R: "dispatch_at n V c attempt depth e = Done e' \<Longrightarrow> R e e'"
proof (induction n arbitrary: c attempt e e')
  case (Suc n)
  show ?case
  proof (cases c rule: command_class_cases)
    case (Scene s)
    let ?e = "notify (CommandDispatched (ActivateScene s) depth) e"
    show ?thesis
    proof (cases "hm_get (e_scenes ?e) s")
      case None
      with Scene Suc.prems show ?thesis
        by (auto simp: dispatch_at_scene dispatched_R)
    next
      case (Some cmds)
      with Scene Suc.prems
      have "dispatch_all n V cmds depth (notify (SceneExpanded s (length cmds)) ?e) = Done e'"
        by (auto simp: dispatch_at_scene Let_def)
      then have "R (notify (SceneExpanded s (length cmds)) ?e) e'"
        unfolding dispatch_all_def
        by (rule run_fold_relation [rotated 3]) (auto intro: refl_R trans_R Suc.IH)
      then show ?thesis
        using dispatched_R expanded_R trans_R by meson
    qed
  next
    case Timer
    with Suc.prems show ?thesis
      using dispatched_R scheduler_R trans_R by (fastforce simp: dispatch_at_timer)
  next
    case Dev
    define c' where "c' = resolve_implicit (e_state e) c"
    have "\<not> is_timer_command c'" "\<not> is_scene_command c'"
      using Dev by (simp_all add: c'_def)
    moreover have
      "dispatch_device V c' attempt depth (notify (CommandDispatched c' depth) e) = Done e'"
      using Suc.prems Dev by (simp add: dispatch_at_device c'_def Let_def)
    ultimately show ?thesis
      using dispatched_R device_R trans_R by meson
  qed
qed simp

lemma dispatch_all_R: "dispatch_all n V cmds depth e = Done e' \<Longrightarrow> R e e'"
  unfolding dispatch_all_def
  by (rule run_fold_relation [rotated 3]) (auto intro: refl_R trans_R dispatch_at_R)

end

section \<open>The frame of a dispatch\<close>

text \<open>
  A dispatch touches the queue, the adapters, the retry table and the trace: the first and the last
  only grow, and the rest of the engine is as before.
\<close>

definition dispatch_frame :: "('x, 'n) engine \<Rightarrow> ('x, 'n) engine \<Rightarrow> bool" where
  "dispatch_frame e e' \<longleftrightarrow>
     (\<exists>q t as rs rc.
        e' = e\<lparr>e_queue := e_queue e @ q, e_trace := e_trace e @ t, e_adapters := as,
               e_retries := rs, e_retry_counter := rc\<rparr> \<and>
        length as = length (e_adapters e))"

lemma dispatch_frame_refl: "dispatch_frame e e"
  unfolding dispatch_frame_def by (cases e) (fastforce intro: exI [of _ "[]"])

lemma dispatch_frame_trans: "dispatch_frame e f \<Longrightarrow> dispatch_frame f g \<Longrightarrow> dispatch_frame e g"
  unfolding dispatch_frame_def by fastforce

lemma dispatch_frame_notify: "dispatch_frame e (notify m e)"
  unfolding dispatch_frame_def notify_def
  by (rule exI [of _ "[]"], rule exI [of _ "[m]"]) (cases e; fastforce)

lemma dispatch_frame_enqueue_all: "dispatch_frame e (enqueue_all evs d e)"
  unfolding dispatch_frame_def enqueue_all_def
  by (rule exI [of _ "map (\<lambda>ev. (ev, d)) evs"], rule exI [of _ "[]"]) (cases e; fastforce)

lemma enqueue_is_enqueue_all: "enqueue ev d = enqueue_all [ev] d"
  by (simp add: fun_eq_iff enqueue_def enqueue_all_def)

lemma dispatch_frame_retry_tables:
  "dispatch_frame e (e\<lparr>e_retries := rs, e_retry_counter := rc\<rparr>)"
  unfolding dispatch_frame_def
  by (rule exI [of _ "[]"], rule exI [of _ "[]"]) (cases e; fastforce)

lemma dispatch_frame_call:
  "call_adapter V i c e = Done (e', out) \<Longrightarrow> dispatch_frame e e'"
  unfolding dispatch_frame_def
  by (rule exI [of _ "[]"], rule exI [of _ "[]"])
    (cases e; fastforce simp: call_adapter_def Let_def split: if_splits prod.splits)

lemma dispatch_frame_call_scheduler:
  "call_scheduler V c e = Done e' \<Longrightarrow> dispatch_frame e e'"
  by (auto simp: call_scheduler_def run_bind_Done dest: dispatch_frame_call)

text \<open>Each leaf at the end of a chain, so that a chain is taken apart from its end.\<close>

lemmas frame_chain =
  dispatch_frame_trans [OF _ dispatch_frame_notify]
  dispatch_frame_trans [OF _ dispatch_frame_retry_tables]
  dispatch_frame_trans [OF _ dispatch_frame_enqueue_all]
  dispatch_frame_refl

lemma dispatch_frame_give_up: "dispatch_frame e (give_up c reason k depth e)"
  unfolding give_up_def enqueue_is_enqueue_all by (intro frame_chain)

lemma schedule_retry_eq:
  "schedule_retry V c k e =
     (let key = retry_key (e_retry_counter e + 1);
          p = \<lparr>pr_command = c, pr_attempt = k + 1\<rparr>;
          delay = backoff (e_retry e) k
      in call_scheduler V (ScheduleTimer key delay)
           (notify (RetryScheduled c (k + 1) delay)
             (e\<lparr>e_retries := hm_insert key p (e_retries e),
                e_retry_counter := e_retry_counter e + 1\<rparr>)))"
  by (cases e) (simp add: schedule_retry_def notify_def Let_def)

lemma dispatch_frame_schedule_retry:
  "schedule_retry V c k e = Done e' \<Longrightarrow> dispatch_frame e e'"
  unfolding schedule_retry_eq Let_def
  by (drule dispatch_frame_call_scheduler) (erule dispatch_frame_trans [rotated], intro frame_chain)

lemma dispatch_frame_handle:
  "handle_outcome V out c k depth e = Done e' \<Longrightarrow> dispatch_frame e e'"
proof (cases out)
  case (Transient reason)
  let ?e = "notify (DispatchFailed c reason True k) e"
  assume "handle_outcome V out c k depth e = Done e'"
  with Transient have "dispatch_frame ?e e'"
    by (auto simp: Let_def dispatch_frame_give_up dest: dispatch_frame_schedule_retry
        split: if_splits)
  with dispatch_frame_notify show ?thesis
    by (rule dispatch_frame_trans)
next
  case (Permanent reason)
  assume "handle_outcome V out c k depth e = Done e'"
  with Permanent have "e' = give_up c reason k depth (notify (DispatchFailed c reason False k) e)"
    by (simp add: Let_def)
  then show ?thesis
    using dispatch_frame_trans [OF dispatch_frame_notify dispatch_frame_give_up] by simp
qed (auto simp: dispatch_frame_enqueue_all)

lemma dispatch_scheduler_eq:
  "dispatch_scheduler V c depth e = Done e' \<longleftrightarrow>
     (\<exists>f out. call_adapter V 0 c e = Done (f, out) \<and>
       e' = (case out of Ok evs \<Rightarrow> enqueue_all evs (depth + 1) f | _ \<Rightarrow> f))"
  by (auto simp: dispatch_scheduler_def run_bind_Done split: outcome.splits) blast+

lemma dispatch_device_eq:
  "dispatch_device V c k depth e = Done e' \<longleftrightarrow>
     (\<exists>f out. handle_outcome V out c k depth f = Done e' \<and>
       (case Option.bind (target_device c) (hm_get (e_routes e)) of
          Some i \<Rightarrow> call_adapter V i c e = Done (f, out)
        | None \<Rightarrow> f = e \<and> out = Permanent ''no adapter bound for target device''))"
  by (auto simp: dispatch_device_def run_bind_Done split: option.split)

lemma dispatch_frame_scheduler:
  "dispatch_scheduler V c depth e = Done e' \<Longrightarrow> dispatch_frame e e'"
  unfolding dispatch_scheduler_eq
  by (elim exE conjE, rename_tac f out, case_tac out)
    (auto dest!: dispatch_frame_call intro: frame_chain(3))

lemma dispatch_frame_device:
  "dispatch_device V c k depth e = Done e' \<Longrightarrow> dispatch_frame e e'"
  unfolding dispatch_device_eq
  by (auto split: option.splits dest!: dispatch_frame_call dest: dispatch_frame_handle
      intro: dispatch_frame_trans simp del: handle_outcome.simps)

interpretation frame: dispatch_relation V depth dispatch_frame for V depth
  by unfold_locales
    (auto intro: dispatch_frame_refl dispatch_frame_trans dispatch_frame_notify
      dest: dispatch_frame_scheduler dispatch_frame_device)

lemma dispatch_frame_config:
  assumes "dispatch_frame e e'"
  shows "e_now e' = e_now e" and "e_state e' = e_state e" and "e_rules e' = e_rules e"
    and "e_northbound e' = e_northbound e" and "e_routes e' = e_routes e"
    and "e_scenes e' = e_scenes e" and "e_retry e' = e_retry e"
    and "e_pending_for e' = e_pending_for e" and "e_for_counter e' = e_for_counter e"
    and "e_max_depth e' = e_max_depth e" and "length (e_adapters e') = length (e_adapters e)"
  using assms by (auto simp: dispatch_frame_def)

section \<open>Well-formedness\<close>

text \<open>
  The scheduler is adapter 0 and the only scheduler, every route leads to an adapter, and every
  table has one entry for a key.
\<close>

fun is_device :: "'x adapter \<Rightarrow> bool" where
  "is_device (Device _) = True"
| "is_device (Scheduler _) = False"

fun adapters_wf :: "'x adapter list \<Rightarrow> bool" where
  "adapters_wf (Scheduler s # as) \<longleftrightarrow> hm_wf s \<and> list_all is_device as"
| "adapters_wf _ = False"

definition engine_wf :: "('x, 'n) engine \<Rightarrow> bool" where
  "engine_wf e \<longleftrightarrow>
     adapters_wf (e_adapters e) \<and>
     list_all (\<lambda>(_, i). i < length (e_adapters e)) (e_routes e) \<and>
     store_wf (e_state e) \<and> hm_wf (e_routes e) \<and> hm_wf (e_scenes e) \<and>
     hm_wf (e_retries e) \<and> hm_wf (e_pending_for e)"

fun timers :: "'x adapter list \<Rightarrow> scheduler" where
  "timers (Scheduler s # as) = s"
| "timers _ = []"

lemma adapters_wf_cases:
  assumes "adapters_wf as"
  obtains s ds where "as = Scheduler s # ds" "hm_wf s" "list_all is_device ds"
  using assms by (cases as rule: adapters_wf.cases) auto

lemma adapters_wf_nonempty [simp]: "adapters_wf as \<Longrightarrow> 0 < length as"
  by (erule adapters_wf_cases) simp

lemma call_adapter_cases:
  assumes wf: "adapters_wf (e_adapters e)" and i: "i < length (e_adapters e)"
  obtains (Sched) s ds where "i = 0" "e_adapters e = Scheduler s # ds" "hm_wf s"
      "call_adapter V i c e =
        Done (e\<lparr>e_adapters := Scheduler (fst (sched_dispatch s c (e_now e))) # ds\<rparr>, Ok [])"
  | (Dev) x x' out where "0 < i" "e_adapters e ! i = Device x"
      "op_dispatch (dev V) x c (e_now e) = (x', out)"
      "call_adapter V i c e = Done (e\<lparr>e_adapters := (e_adapters e)[i := Device x']\<rparr>, out)"
proof -
  obtain s ds where s: "e_adapters e = Scheduler s # ds" "hm_wf s" "list_all is_device ds"
    using wf by (rule adapters_wf_cases)
  show thesis
  proof (cases i)
    case 0
    with s show thesis
      using sched_dispatch_ok [of s c "e_now e"]
      by (intro Sched) (auto simp: call_adapter_def map_prod_def split: prod.splits)
  next
    case (Suc j)
    with s i obtain x where x: "e_adapters e ! i = Device x"
      by (metis is_device.elims(2) length_Cons list_all_length not_less_eq nth_Cons_Suc)
    obtain x' out where "op_dispatch (dev V) x c (e_now e) = (x', out)"
      by fastforce
    with x Suc i show thesis
      by (intro Dev) (auto simp: call_adapter_def)
  qed
qed

lemma adapters_wf_update:
  "adapters_wf as \<Longrightarrow> 0 < i \<Longrightarrow> adapters_wf (as[i := Device x])"
  by (erule adapters_wf_cases)
    (auto simp: list_all_iff split: nat.split dest!: set_update_subset_insert [THEN subsetD])

text \<open>A run that does not panic and whose result has a property.\<close>

fun run_ok :: "('a \<Rightarrow> bool) \<Rightarrow> 'a run \<Rightarrow> bool" where
  "run_ok P (Done a) = P a"
| "run_ok P Panicked = False"
| "run_ok P StackOverflow = True"

lemma run_ok_bind: "run_ok P r \<Longrightarrow> (\<And>a. P a \<Longrightarrow> run_ok Q (f a)) \<Longrightarrow> run_ok Q (run_bind r f)"
  by (cases r) auto

lemma run_ok_fold: "P a \<Longrightarrow> (\<And>c a. P a \<Longrightarrow> run_ok P (f c a)) \<Longrightarrow> run_ok P (run_fold f cs a)"
  by (induction cs arbitrary: a) (auto intro!: run_ok_bind)

lemma run_ok_mono: "run_ok P r \<Longrightarrow> (\<And>a. P a \<Longrightarrow> Q a) \<Longrightarrow> run_ok Q r"
  by (cases r) auto

lemma engine_wf_frame [simp]:
  "engine_wf (notify m e) = engine_wf e"
  "engine_wf (enqueue_all evs depth e) = engine_wf e"
  "engine_wf (enqueue ev depth e) = engine_wf e"
  "engine_wf (give_up c reason k depth e) = engine_wf e"
  "engine_wf (e\<lparr>e_queue := q\<rparr>) = engine_wf e"
  "engine_wf (e\<lparr>e_trace := t\<rparr>) = engine_wf e"
  "engine_wf (e\<lparr>e_now := now\<rparr>) = engine_wf e"
  "engine_wf (e\<lparr>e_northbound := ns\<rparr>) = engine_wf e"
  "engine_wf (e\<lparr>e_retry_counter := n\<rparr>) = engine_wf e"
  "engine_wf (e\<lparr>e_for_counter := n\<rparr>) = engine_wf e"
  "engine_wf (fan_state_folded V d s e) = engine_wf e"
  by (simp_all add: engine_wf_def notify_def enqueue_all_def enqueue_def give_up_def
      fan_state_folded_def)

lemma engine_wf_tables [simp, inv_intros]:
  "engine_wf e \<Longrightarrow> hm_wf rs \<Longrightarrow> engine_wf (e\<lparr>e_retries := rs\<rparr>)"
  "engine_wf e \<Longrightarrow> hm_wf ps \<Longrightarrow> engine_wf (e\<lparr>e_pending_for := ps\<rparr>)"
  "engine_wf e \<Longrightarrow> store_wf m \<Longrightarrow> engine_wf (e\<lparr>e_state := m\<rparr>)"
  by (simp_all add: engine_wf_def)

lemma engine_wf_parts:
  assumes "engine_wf e"
  shows "adapters_wf (e_adapters e)" and "store_wf (e_state e)" and "hm_wf (e_retries e)"
    and "hm_wf (e_pending_for e)" and "0 < length (e_adapters e)"
    and "hm_get (e_routes e) d = Some i \<Longrightarrow> i < length (e_adapters e)"
  using assms
  by (auto simp: engine_wf_def list_all_iff dest: map_of_SomeD intro: adapters_wf_nonempty)

lemma call_adapter_wf [inv_intros]:
  assumes wf: "engine_wf e" and i: "i < length (e_adapters e)"
  shows "run_ok (\<lambda>(e', out). engine_wf e') (call_adapter V i c e)"
proof -
  note parts = engine_wf_parts [OF wf]
  from parts(1) i show ?thesis
  proof (cases rule: call_adapter_cases [where V = V and c = c])
    case (Sched s ds)
    with wf show ?thesis
      by (auto simp: engine_wf_def sched_dispatch_wf)
  next
    case (Dev x x' out)
    with wf show ?thesis
      by (simp add: engine_wf_def adapters_wf_update)
  qed
qed

lemma call_scheduler_wf [inv_intros]: "engine_wf e \<Longrightarrow> run_ok engine_wf (call_scheduler V c e)"
  unfolding call_scheduler_def
  by (rule run_ok_bind [OF call_adapter_wf]) (auto dest: engine_wf_parts)

lemma handle_outcome_wf [inv_intros]:
  "engine_wf e \<Longrightarrow> run_ok engine_wf (handle_outcome V out c k depth e)"
  by (cases out) (simp_all add: Let_def schedule_retry_eq call_scheduler_wf engine_wf_parts)

lemma dispatch_scheduler_wf [inv_intros]:
  "engine_wf e \<Longrightarrow> run_ok engine_wf (dispatch_scheduler V c depth e)"
  unfolding dispatch_scheduler_def
  by (rule run_ok_bind [OF call_adapter_wf]) (auto dest: engine_wf_parts split: outcome.split)

lemma dispatch_device_wf [inv_intros]:
  "engine_wf e \<Longrightarrow> run_ok engine_wf (dispatch_device V c k depth e)"
  unfolding dispatch_device_def
  by (auto split: option.split intro!: run_ok_bind [OF call_adapter_wf] handle_outcome_wf
      dest: engine_wf_parts(6) simp: bind_eq_Some_conv simp del: handle_outcome.simps)

section \<open>The exact use of the call stack\<close>

text \<open>
  \<open>fits n S c\<close>: the expansion of \<open>c\<close> through the scenes \<open>S\<close> needs at most \<open>n\<close> nested calls.
\<close>

primrec fits :: "nat \<Rightarrow> (scene_id, command list) hashmap \<Rightarrow> command \<Rightarrow> bool" where
  "fits 0 S c = False"
| "fits (Suc n) S c =
     (case c of
        ActivateScene s \<Rightarrow>
          (case hm_get S s of Some cs \<Rightarrow> list_all (fits n S) cs | None \<Rightarrow> True)
      | _ \<Rightarrow> True)"

lemma fits_simple: "\<not> is_scene_command c \<Longrightarrow> fits (Suc n) S c"
  by (cases c) auto

text \<open>A run is done with a property exactly when a condition holds, and overflows otherwise.\<close>

definition done_iff :: "bool \<Rightarrow> ('a \<Rightarrow> bool) \<Rightarrow> 'a run \<Rightarrow> bool" where
  "done_iff b P r \<longleftrightarrow> (if b then \<exists>a. r = Done a \<and> P a else r = StackOverflow)"

lemma done_iff_fold:
  "P a \<Longrightarrow> (\<And>c a. P a \<Longrightarrow> done_iff (b c) P (f c a)) \<Longrightarrow> done_iff (list_all b cs) P (run_fold f cs a)"
proof (induction cs arbitrary: a)
  case (Cons c cs)
  have "done_iff (b c) P (f c a)" and IH: "P a' \<Longrightarrow> done_iff (list_all b cs) P (run_fold f cs a')" for a'
    using Cons by blast+
  then show ?case
    by (auto simp: done_iff_def split: if_splits)
qed (simp add: done_iff_def)

lemma done_iff_bind:
  "done_iff b P r \<Longrightarrow> (\<And>a. P a \<Longrightarrow> done_iff b' Q (f a)) \<Longrightarrow> done_iff (b \<and> b') Q (run_bind r f)"
  by (auto simp: done_iff_def split: if_splits)

lemma done_iff_run_ok: "done_iff b P r \<Longrightarrow> run_ok P r"
  by (auto simp: done_iff_def split: if_splits)

lemma done_iff_leaf: "run_ok P r \<Longrightarrow> r \<noteq> StackOverflow \<Longrightarrow> done_iff True P r"
  by (cases r) (auto simp: done_iff_def)

lemma run_bind_no_overflow:
  "r \<noteq> StackOverflow \<Longrightarrow> (\<And>a. f a \<noteq> StackOverflow) \<Longrightarrow> run_bind r f \<noteq> StackOverflow"
  by (cases r) auto

lemma call_adapter_no_overflow: "call_adapter V i c e \<noteq> StackOverflow"
  by (simp add: call_adapter_def split: prod.split)

lemma call_scheduler_no_overflow: "call_scheduler V c e \<noteq> StackOverflow"
  unfolding call_scheduler_def
  by (rule run_bind_no_overflow [OF call_adapter_no_overflow]) (simp split: prod.split)

lemma handle_outcome_no_overflow: "handle_outcome V out c k depth e \<noteq> StackOverflow"
  by (cases out) (simp_all add: Let_def schedule_retry_eq call_scheduler_no_overflow)

lemma dispatch_scheduler_no_overflow: "dispatch_scheduler V c depth e \<noteq> StackOverflow"
  unfolding dispatch_scheduler_def
  by (rule run_bind_no_overflow [OF call_adapter_no_overflow])
    (simp split: prod.split outcome.split)

lemma dispatch_device_no_overflow: "dispatch_device V c k depth e \<noteq> StackOverflow"
proof (cases "Option.bind (target_device c) (hm_get (e_routes e))")
  case None
  then show ?thesis
    unfolding dispatch_device_def by (simp add: handle_outcome_no_overflow del: handle_outcome.simps)
next
  case (Some i)
  show ?thesis
    unfolding dispatch_device_def Some option.case
    by (rule run_bind_no_overflow [OF call_adapter_no_overflow])
      (simp add: handle_outcome_no_overflow split: prod.split del: handle_outcome.simps)
qed

lemmas no_overflow =
  call_adapter_no_overflow call_scheduler_no_overflow handle_outcome_no_overflow
  dispatch_scheduler_no_overflow dispatch_device_no_overflow

lemma dispatch_at_total:
  "engine_wf e \<Longrightarrow> done_iff (fits n (e_scenes e) c) engine_wf (dispatch_at n V c k depth e)"
proof (induction n arbitrary: c k e)
  case 0
  then show ?case
    by (simp add: done_iff_def)
next
  case (Suc n)
  show ?case
  proof (cases c rule: command_class_cases)
    case (Scene s)
    show ?thesis
    proof (cases "hm_get (e_scenes e) s")
      case None
      with Scene Suc.prems show ?thesis
        by (simp add: dispatch_at_scene done_iff_def notify_def)
    next
      case (Some cmds)
      let ?P = "\<lambda>a. engine_wf a \<and> e_scenes a = e_scenes e"
      have step: "done_iff (fits n (e_scenes e) c') ?P (dispatch_at n V c' 1 depth a)" if "?P a" for c' a
        using Suc.IH [of a c' 1] that dispatch_frame_config(6) [OF frame.dispatch_at_R]
        by (fastforce simp: done_iff_def split: if_splits)
      let ?e = "notify (SceneExpanded s (length cmds)) (notify (CommandDispatched (ActivateScene s) depth) e)"
      have "done_iff (list_all (fits n (e_scenes e)) cmds) ?P (dispatch_all n V cmds depth ?e)"
        unfolding dispatch_all_def
        by (rule done_iff_fold [OF _ step]) (simp_all add: Suc.prems)
      with Some Scene show ?thesis
        by (auto simp: dispatch_at_scene Let_def done_iff_def notify_def split: if_splits)
    qed
  next
    case Timer
    then have "fits (Suc n) (e_scenes e) c"
      by (cases c) simp_all
    moreover have "done_iff True engine_wf
        (dispatch_scheduler V c depth (notify (CommandDispatched c depth) e))"
      by (rule done_iff_leaf) (simp_all add: dispatch_scheduler_wf Suc.prems no_overflow)
    ultimately show ?thesis
      using Timer by (simp add: dispatch_at_timer)
  next
    case Dev
    let ?c = "resolve_implicit (e_state e) c"
    have "done_iff True engine_wf (dispatch_device V ?c k depth (notify (CommandDispatched ?c depth) e))"
      by (rule done_iff_leaf) (simp_all add: dispatch_device_wf Suc.prems no_overflow)
    with Dev show ?thesis
      by (simp add: dispatch_at_device fits_simple Let_def del: fits.simps)
  qed
qed

end
