(* ===== verification/Scene_Stack.thy ===== *)
theory Scene_Stack
  imports Engine_Inv
begin

text \<open>
  Scenes are expanded by recursion on the call stack, at the depth of their activation. This theory
  relates the stack a dispatch needs to the graph of scenes activating one another: the expansion
  is total when the graph is acyclic, and no stack suffices when it has a cycle.
\<close>

definition scene_calls :: "(scene_id, command list) hashmap \<Rightarrow> (scene_id \<times> scene_id) set" where
  "scene_calls S = {(s, t). \<exists>cs. hm_get S s = Some cs \<and> ActivateScene t \<in> set cs}"

text \<open>A stack of \<open>n\<close> calls is enough for every command.\<close>

definition scenes_fit :: "nat \<Rightarrow> (scene_id, command list) hashmap \<Rightarrow> bool" where
  "scenes_fit n S \<longleftrightarrow> 0 < n \<and> list_all (\<lambda>(s, _). fits n S (ActivateScene s)) S"

lemma fits_all: "scenes_fit n S \<longleftrightarrow> (\<forall>c. fits n S c)"
proof
  assume fit: "scenes_fit n S"
  then obtain m where n: "n = Suc m"
    by (cases n) (auto simp: scenes_fit_def)
  show "\<forall>c. fits n S c"
  proof
    fix c
    show "fits n S c"
    proof (cases "is_scene_command c")
      case True
      then obtain s where c: "c = ActivateScene s"
        by (cases c) auto
      show ?thesis
      proof (cases "hm_get S s")
        case None
        then show ?thesis
          by (simp add: n c)
      next
        case (Some cs)
        then have "(s, cs) \<in> set S"
          by (rule map_of_SomeD)
        with fit show ?thesis
          by (auto simp: scenes_fit_def list_all_iff c)
      qed
    next
      case False
      then show ?thesis
        unfolding n by (rule fits_simple)
    qed
  qed
next
  assume "\<forall>c. fits n S c"
  then show "scenes_fit n S"
    by (cases n) (auto simp: scenes_fit_def list_all_iff)
qed

lemma fits_mono: "fits n S c \<Longrightarrow> n \<le> m \<Longrightarrow> fits m S c"
proof (induction n arbitrary: m c)
  case (Suc n)
  then obtain m' where m: "m = Suc m'" "n \<le> m'"
    by (cases m) auto
  show ?case
  proof (cases c rule: command_class_cases)
    case (Scene s)
    with Suc m show ?thesis
      by (auto simp: list_all_iff split: option.splits)
  qed (cases c; simp add: m)+
qed simp

text \<open>Every activation on the way of an expansion takes one call of its own.\<close>

lemma fits_calls: "fits (Suc n) S (ActivateScene s) \<Longrightarrow> (s, t) \<in> scene_calls S \<Longrightarrow> fits n S (ActivateScene t)"
  by (auto simp: scene_calls_def list_all_iff)

lemma fits_path:
  "(s, t) \<in> (scene_calls S)\<^sup>+ \<Longrightarrow> fits n S (ActivateScene s) \<Longrightarrow> \<exists>m < n. fits m S (ActivateScene t)"
proof (induction arbitrary: n rule: trancl_induct)
  case (base t)
  then show ?case
    by (metis fits.simps(1) fits_calls lessI not0_implies_Suc)
next
  case (step t u)
  then obtain m where "m < n" "fits m S (ActivateScene t)"
    by blast
  with step.hyps(2) show ?case
    by (metis fits.simps(1) fits_calls not0_implies_Suc Suc_lessD)
qed

lemma cycle_not_fits: "(s, s) \<in> (scene_calls S)\<^sup>+ \<Longrightarrow> \<not> fits n S (ActivateScene s)"
proof (induction n rule: less_induct)
  case (less n)
  then show ?case
    using fits_path [OF less.prems, of n] by blast
qed

text \<open>The scenes a command can still reach.\<close>

fun reach :: "(scene_id, command list) hashmap \<Rightarrow> command \<Rightarrow> scene_id set" where
  "reach S (ActivateScene s) = {t \<in> dom (hm_get S). (s, t) \<in> (scene_calls S)\<^sup>*}"
| "reach S _ = {}"

lemma reach_finite: "finite (reach S c)" and reach_card: "card (reach S c) \<le> length S"
proof -
  have sub: "reach S c \<subseteq> dom (hm_get S)"
    by (cases c) auto
  then show "finite (reach S c)"
    by (rule finite_subset) (rule finite_dom_map_of)
  have "card (reach S c) \<le> card (dom (hm_get S))"
    using sub by (rule card_mono [OF finite_dom_map_of])
  also have "\<dots> \<le> length S"
    unfolding dom_map_of_conv_image_fst by (metis List.card_set length_map length_remdups_leq list.set_map)
  finally show "card (reach S c) \<le> length S" .
qed

lemma acyclic_fits: "acyclic (scene_calls S) \<Longrightarrow> card (reach S c) < n \<Longrightarrow> fits n S c"
proof (induction n arbitrary: c)
  case (Suc n)
  show ?case
  proof (cases c rule: command_class_cases)
    case (Scene s)
    have "fits n S c'" if get: "hm_get S s = Some cs" and c': "c' \<in> set cs" for cs c'
    proof -
      have s: "s \<in> reach S c"
        using Scene get by auto
      have "reach S c' \<subset> reach S c"
      proof (cases c' rule: command_class_cases)
        case (Scene t)
        then have call: "(s, t) \<in> scene_calls S"
          using get c' by (auto simp: scene_calls_def)
        then have "s \<notin> reach S c'"
          using Suc.prems(1) Scene by (auto simp: acyclic_def dest: rtrancl_into_trancl2)
        moreover have "reach S c' \<subseteq> reach S c"
          using call Scene \<open>c = ActivateScene s\<close> by (auto intro: converse_rtrancl_into_rtrancl)
        ultimately show ?thesis
          using s by blast
      qed (use s in \<open>cases c'; auto\<close>)+
      with Suc.prems(2) have "card (reach S c') < n"
        using psubset_card_mono [OF reach_finite] by (meson less_trans_Suc not_less_eq)
      with Suc show ?thesis
        by blast
    qed
    then show ?thesis
      by (auto simp: Scene list_all_iff split: option.split)
  qed (cases c; simp)+
qed simp

section \<open>Properties\<close>

text \<open>
  The call stack a dispatch needs is exactly the nesting of the scenes it expands. With that
  much the dispatch returns, leaves the engine well formed and panics nowhere; with less it
  overflows, whatever the adapters answer.
\<close>

theorem dispatch_stack_exact:
  assumes "engine_wf e"
  shows "if fits n (e_scenes e) c then \<exists>e'. dispatch_at n V c k depth e = Done e' \<and> engine_wf e'
    else dispatch_at n V c k depth e = StackOverflow"
  using dispatch_at_total [OF assms] by (simp add: done_iff_def)

theorem dispatch_stack_exact_witness:
  "dispatch_at 1 virtual_house (ActivateScene (SceneId 0)) 1 0
     (add_scene (SceneId 0) [SetSwitch (DeviceId 4) True] new_engine) = StackOverflow"
  using dispatch_stack_exact [of "add_scene (SceneId 0) [SetSwitch (DeviceId 4) True] new_engine" 1
      "ActivateScene (SceneId 0)" virtual_house 1 0]
  by (simp add: engine_wf_def new_engine_def add_scene_def)

text \<open>
  The decidable check is complete. A stack of one more call than there are scenes is enough for
  every command iff no scene activates itself through others.
\<close>

theorem scenes_fit_iff_acyclic: "scenes_fit (Suc (length S)) S \<longleftrightarrow> acyclic (scene_calls S)"
proof
  assume "scenes_fit (Suc (length S)) S"
  then show "acyclic (scene_calls S)"
    unfolding fits_all acyclic_def using cycle_not_fits by blast
next
  assume "acyclic (scene_calls S)"
  then show "scenes_fit (Suc (length S)) S"
    unfolding fits_all using acyclic_fits reach_card by (blast intro: le_imp_less_Suc)
qed

text \<open>
  C40: a scene that activates itself, directly or through other scenes, overflows every call stack:
  the depth of the cascade, which its expansion does not increase, never stops it.
\<close>

theorem cyclic_scene_overflows:
  assumes "engine_wf e" and "(s, s) \<in> (scene_calls (e_scenes e))\<^sup>+"
  shows "dispatch_at n V (ActivateScene s) k depth e = StackOverflow"
  using dispatch_at_total [OF assms(1)] cycle_not_fits [OF assms(2)]
  by (auto simp: done_iff_def split: if_splits)

theorem cyclic_scene_overflows_witness:
  "dispatch_at 1000 virtual_house (ActivateScene (SceneId 7)) 1 0
     (add_scene (SceneId 7) [ActivateScene (SceneId 7)] new_engine) = StackOverflow"
  by (rule cyclic_scene_overflows)
    (auto simp: engine_wf_def new_engine_def add_scene_def scene_calls_def)

end
