(* ===== verification/Event_Frame.thy ===== *)
theory Event_Frame
  imports Scene_Stack
begin

text \<open>
  What processing one event does to the engine: which events it queues and at which depth, what the
  observers see, and that only a report changes the store.
\<close>

section \<open>What a dispatch queues and shows\<close>

text \<open>An event a dispatch can put on the queue: a final failure, or what an adapter answers.\<close>

definition produced :: "('x, 'n) vtable \<Rightarrow> event \<Rightarrow> bool" where
  "produced V ev \<longleftrightarrow>
     (\<exists>c reason k. ev = CommandFailed c reason k) \<or>
     (\<exists>x c t x' evs. op_dispatch (dev V) x c t = (x', Ok evs) \<and> ev \<in> set evs)"

text \<open>What a dispatch at a depth shows the observers.\<close>

fun dispatch_notice :: "u32 \<Rightarrow> notice \<Rightarrow> bool" where
  "dispatch_notice depth (CommandDispatched _ d) = (d = depth)"
| "dispatch_notice depth (DispatchFailed _ _ _ _) = True"
| "dispatch_notice depth (RetryScheduled _ _ _) = True"
| "dispatch_notice depth (GaveUp _ _ _) = True"
| "dispatch_notice depth (SceneExpanded _ _) = True"
| "dispatch_notice depth _ = False"

definition same_config :: "('x, 'n) engine \<Rightarrow> ('x, 'n) engine \<Rightarrow> bool" where
  "same_config e e' \<longleftrightarrow>
     e_now e' = e_now e \<and> e_rules e' = e_rules e \<and> e_routes e' = e_routes e \<and>
     e_scenes e' = e_scenes e \<and> e_retry e' = e_retry e \<and> e_max_depth e' = e_max_depth e"

definition event_frame ::
  "('x, 'n) vtable \<Rightarrow> u32 \<Rightarrow> ('x, 'n) engine \<Rightarrow> ('x, 'n) engine \<Rightarrow> bool" where
  "event_frame V depth e e' \<longleftrightarrow>
     same_config e e' \<and> e_state e' = e_state e \<and> e_northbound e' = e_northbound e \<and>
     (\<exists>q. e_queue e' = e_queue e @ q \<and> (\<forall>(ev, d) \<in> set q. d = depth + 1 \<and> produced V ev)) \<and>
     (\<exists>t. e_trace e' = e_trace e @ t \<and> list_all (dispatch_notice depth) t)"

lemma same_config_refl [simp]: "same_config e e"
  by (simp add: same_config_def)

lemma same_config_trans: "same_config e f \<Longrightarrow> same_config f g \<Longrightarrow> same_config e g"
  by (simp add: same_config_def)

lemma event_frame_refl [simp]: "event_frame V depth e e"
  by (simp add: event_frame_def)

lemma event_frame_trans:
  assumes "event_frame V depth e f" and "event_frame V depth f g"
  shows "event_frame V depth e g"
proof -
  obtain q q' t t' where
    "e_queue f = e_queue e @ q" "\<forall>(ev, d) \<in> set q. d = depth + 1 \<and> produced V ev"
    "e_queue g = e_queue f @ q'" "\<forall>(ev, d) \<in> set q'. d = depth + 1 \<and> produced V ev"
    "e_trace f = e_trace e @ t" "list_all (dispatch_notice depth) t"
    "e_trace g = e_trace f @ t'" "list_all (dispatch_notice depth) t'"
    using assms unfolding event_frame_def by blast
  then show ?thesis
    using assms same_config_trans unfolding event_frame_def
    by (intro conjI exI [of _ "q @ q'"] exI [of _ "t @ t'"]) auto
qed

text \<open>The leaves of a dispatch, as steps at the end of a chain.\<close>

lemma event_frame_notify:
  "dispatch_notice depth m \<Longrightarrow> event_frame V depth e f \<Longrightarrow> event_frame V depth e (notify m f)"
  by (erule event_frame_trans) (auto simp: event_frame_def same_config_def)

lemma event_frame_queue:
  "list_all (produced V) evs \<Longrightarrow> event_frame V depth e f \<Longrightarrow>
    event_frame V depth e (enqueue_all evs (depth + 1) f)"
  by (erule event_frame_trans)
    (auto simp: event_frame_def same_config_def enqueue_all_def list_all_iff)

lemma event_frame_retries:
  "event_frame V depth e f \<Longrightarrow>
    event_frame V depth e (f\<lparr>e_retries := rs, e_retry_counter := n\<rparr>)"
  by (erule event_frame_trans) (auto simp: event_frame_def same_config_def)

lemma event_frame_call:
  "call_adapter V i c f = Done (g, out) \<Longrightarrow> event_frame V depth e f \<Longrightarrow> event_frame V depth e g"
  by (erule event_frame_trans)
    (auto simp: event_frame_def same_config_def call_adapter_def split: if_splits prod.splits)

lemma event_frame_call_scheduler:
  "call_scheduler V c f = Done g \<Longrightarrow> event_frame V depth e f \<Longrightarrow> event_frame V depth e g"
  by (auto simp: call_scheduler_def run_bind_Done intro: event_frame_call)

lemma event_frame_give_up:
  "event_frame V depth e f \<Longrightarrow> event_frame V depth e (give_up c reason k depth f)"
  unfolding give_up_def enqueue_is_enqueue_all
  by (intro event_frame_queue event_frame_notify) (auto simp: produced_def)

lemma sched_dispatch_no_events: "sched_dispatch s c t = (s', Ok evs) \<Longrightarrow> evs = []"
  using sched_dispatch_ok [of s c t] by simp

lemma adapter_events_produced:
  "adapter_dispatch V a c t = (a', Ok evs) \<Longrightarrow> list_all (produced V) evs"
proof (cases a)
  case (Device x)
  assume "adapter_dispatch V a c t = (a', Ok evs)"
  with Device obtain x' where "op_dispatch (dev V) x c t = (x', Ok evs)"
    by (auto simp: map_prod_def split: prod.splits)
  then show ?thesis
    unfolding list_all_iff produced_def by blast
qed (auto simp: map_prod_def split: prod.splits dest: sched_dispatch_no_events)

lemma call_adapter_events:
  "call_adapter V i c e = Done (f, Ok evs) \<Longrightarrow> list_all (produced V) evs"
  by (auto simp: call_adapter_def split: if_splits prod.splits dest: adapter_events_produced)

lemma event_frame_handle:
  assumes out: "\<And>evs. out = Ok evs \<Longrightarrow> list_all (produced V) evs"
    and run: "handle_outcome V out c k depth f = Done g"
    and f: "event_frame V depth e f"
  shows "event_frame V depth e g"
proof (cases out)
  case (Ok evs)
  with run have "g = enqueue_all evs (depth + 1) f"
    by simp
  then show ?thesis
    using event_frame_queue [OF out [OF Ok] f] by simp
next
  case (Transient reason)
  let ?f = "notify (DispatchFailed c reason True k) f"
  have f': "event_frame V depth e ?f"
    by (rule event_frame_notify [OF _ f]) simp
  show ?thesis
  proof (cases "k < max_attempts (e_retry f)")
    case True
    with run Transient have "schedule_retry V c k ?f = Done g"
      by simp
    then show ?thesis
      unfolding schedule_retry_eq Let_def
      by (rule event_frame_call_scheduler) (intro event_frame_notify event_frame_retries f', simp)
  next
    case False
    with run Transient have "g = give_up c reason k depth ?f"
      by simp
    then show ?thesis
      by (simp add: event_frame_give_up f')
  qed
next
  case (Permanent reason)
  have "event_frame V depth e (notify (DispatchFailed c reason False k) f)"
    by (rule event_frame_notify [OF _ f]) simp
  moreover from run Permanent
  have "g = give_up c reason k depth (notify (DispatchFailed c reason False k) f)"
    by (simp add: Let_def)
  ultimately show ?thesis
    by (simp add: event_frame_give_up)
qed

lemma event_frame_device:
  assumes "dispatch_device V c k depth e = Done g"
  shows "event_frame V depth e g"
proof -
  from assms obtain f out where run: "handle_outcome V out c k depth f = Done g"
    and call: "case Option.bind (target_device c) (hm_get (e_routes e)) of
        Some i \<Rightarrow> call_adapter V i c e = Done (f, out)
      | None \<Rightarrow> f = e \<and> out = Permanent ''no adapter bound for target device''"
    unfolding dispatch_device_eq by blast
  have "event_frame V depth e f"
    using call by (auto split: option.splits intro: event_frame_call)
  moreover have "list_all (produced V) evs" if "out = Ok evs" for evs
    using call that by (auto split: option.splits intro: call_adapter_events)
  ultimately show ?thesis
    using run by (blast intro: event_frame_handle)
qed

lemma event_frame_scheduler:
  assumes "dispatch_scheduler V c depth e = Done g"
  shows "event_frame V depth e g"
proof -
  from assms obtain f out where call: "call_adapter V 0 c e = Done (f, out)"
    and g: "g = (case out of Ok evs \<Rightarrow> enqueue_all evs (depth + 1) f | _ \<Rightarrow> f)"
    unfolding dispatch_scheduler_eq by blast
  have "event_frame V depth e f"
    using call by (rule event_frame_call) simp
  with call g show ?thesis
    by (auto split: outcome.splits intro: event_frame_queue call_adapter_events)
qed

interpretation events: dispatch_relation V depth "event_frame V depth" for V depth
  by unfold_locales
    (auto intro: event_frame_trans event_frame_notify event_frame_scheduler event_frame_device)

section \<open>The \<open>for:\<close> timers\<close>

lemma event_frame_pending [simp]:
  "event_frame V depth e (f\<lparr>e_pending_for := ps\<rparr>) = event_frame V depth e f"
  "event_frame V depth e (f\<lparr>e_for_counter := n\<rparr>) = event_frame V depth e f"
  by (simp_all add: event_frame_def same_config_def)

lemma event_frame_cancel_for:
  "cancel_for V r f = Done g \<Longrightarrow> event_frame V depth e f \<Longrightarrow> event_frame V depth e g"
  unfolding cancel_for_def by (auto split: option.splits dest: event_frame_call_scheduler)

lemma event_frame_cancel_reverted:
  assumes "cancel_reverted_for_timers V e = Done g"
  shows "event_frame V depth e g"
  using assms unfolding cancel_reverted_for_timers_def
  by (rule run_fold_relation [rotated 3])
    (auto intro: event_frame_trans event_frame_cancel_for)

lemma event_frame_arm:
  assumes "arm_for_timer V r d e = Done g"
  shows "event_frame V depth e g"
proof -
  obtain f where f: "(case hm_get (e_pending_for e) r of
          Some prev \<Rightarrow>
            call_scheduler V (CancelTimer prev) (e\<lparr>e_pending_for := hm_remove r (e_pending_for e)\<rparr>)
        | None \<Rightarrow> Done e) = Done f"
    and g: "call_scheduler V (ScheduleTimer (for_key (e_for_counter f + 1)) d)
        (f\<lparr>e_for_counter := e_for_counter f + 1,
           e_pending_for := hm_insert r (for_key (e_for_counter f + 1)) (e_pending_for f)\<rparr>) = Done g"
    using assms unfolding arm_for_timer_def run_bind_Done by (auto simp: Let_def)
  have "event_frame V depth e f"
    using f by (auto split: option.splits intro: event_frame_call_scheduler)
  then show ?thesis
    by (intro event_frame_call_scheduler [OF g]) simp
qed

lemma event_frame_arms:
  assumes "run_fold (\<lambda>(r, d). arm_for_timer V r d) arms e = Done g"
  shows "event_frame V depth e g"
  using assms
  by (rule run_fold_relation [rotated 3])
    (auto intro: event_frame_trans event_frame_arm)

lemma event_frame_fire:
  "fire_elapsed_for n V key e = Done g \<Longrightarrow> event_frame V 0 e g"
  unfolding fire_elapsed_for_def Let_def
  by (auto split: option.splits prod.splits if_splits dest!: events.dispatch_all_R
      elim: event_frame_trans [rotated])

section \<open>One event\<close>

fun is_intake :: "notice \<Rightarrow> bool" where
  "is_intake (EventReceived _ _) = True"
| "is_intake (CascadeDropped _ _) = True"
| "is_intake _ = False"

lemma dispatch_notice_not_intake:
  "list_all (dispatch_notice depth) t \<Longrightarrow> list_all (\<lambda>m. \<not> is_intake m) t"
proof (erule list.pred_mono_strong)
  show "dispatch_notice depth m \<Longrightarrow> \<not> is_intake m" for m
    by (cases m) auto
qed

fun fold_report :: "event \<Rightarrow> store \<Rightarrow> store" where
  "fold_report (StateReported d s) m = store_set d s m"
| "fold_report _ m = m"

text \<open>
  The events of one step are queued one hop deeper than the event that causes them, except that a
  timer of the engine's own starts a new chain at depth 0.
\<close>

definition event_step ::
  "('x, 'n) vtable \<Rightarrow> event \<Rightarrow> u32 \<Rightarrow> ('x, 'n) engine \<Rightarrow> ('x, 'n) engine \<Rightarrow> bool" where
  "event_step V ev d e e' \<longleftrightarrow>
     same_config e e' \<and> e_state e' = fold_report ev (e_state e) \<and>
     (\<exists>q. e_queue e' = e_queue e @ q \<and>
       (\<forall>(ev', d') \<in> set q. (d' = d + 1 \<or> is_timer_event ev \<and> d' = 1) \<and> produced V ev')) \<and>
     (\<exists>t. e_trace e' = e_trace e @ EventReceived ev d # t \<and> list_all (\<lambda>m. \<not> is_intake m) t)"

lemma event_step_frame:
  assumes f: "event_step V ev d e f" and g: "event_frame V depth f g"
    and depth: "depth = d \<or> is_timer_event ev \<and> depth = 0"
  shows "event_step V ev d e g"
proof -
  let ?q = "\<lambda>q. \<forall>(ev', d') \<in> set q. (d' = d + 1 \<or> is_timer_event ev \<and> d' = 1) \<and> produced V ev'"
  let ?t = "list_all (\<lambda>m. \<not> is_intake m)"
  obtain p t where "same_config e f" "e_state f = fold_report ev (e_state e)"
      "e_queue f = e_queue e @ p" "?q p" "e_trace f = e_trace e @ EventReceived ev d # t" "?t t"
    using f unfolding event_step_def by blast
  moreover from g obtain q t' where "same_config f g" "e_state g = e_state f"
      "e_queue g = e_queue f @ q" and q: "\<forall>(ev, d) \<in> set q. d = depth + 1 \<and> produced V ev"
      and "e_trace g = e_trace f @ t'" and t': "list_all (dispatch_notice depth) t'"
    unfolding event_frame_def by blast
  moreover have "?q q"
    using q depth by fastforce
  ultimately show ?thesis
    unfolding event_step_def using same_config_trans dispatch_notice_not_intake [OF t']
    by (intro conjI exI [of _ "p @ q"] exI [of _ "t @ t'"]) auto
qed

lemma event_step_trace:
  assumes "event_step V ev d e f" and "list_all (\<lambda>m. \<not> is_intake m) ns"
  shows "event_step V ev d e (f\<lparr>e_trace := e_trace f @ ns\<rparr>)"
proof -
  from assms(1) obtain t where "e_trace f = e_trace e @ EventReceived ev d # t"
      "list_all (\<lambda>m. \<not> is_intake m) t"
    unfolding event_step_def by blast
  with assms show ?thesis
    unfolding event_step_def by (auto simp: same_config_def)
qed

lemma same_config_notify [simp]: "same_config e (notify m f) = same_config e f"
  by (simp add: same_config_def)

lemma same_config_fold [simp]: "same_config e (fold_state V ev f) = same_config e f"
  by (cases ev) (simp_all add: fan_state_folded_def same_config_def)

lemma fold_state_sel [simp]:
  "e_queue (fold_state V ev e) = e_queue e"
  "e_state (fold_state V ev e) = fold_report ev (e_state e)"
  "e_rules (fold_state V ev e) = e_rules e"
  "e_adapters (fold_state V ev e) = e_adapters e"
  "e_pending_for (fold_state V ev e) = e_pending_for e"
  "e_for_counter (fold_state V ev e) = e_for_counter e"
  "e_retries (fold_state V ev e) = e_retries e"
  by (cases ev; simp add: fan_state_folded_def)+

lemma fold_state_trace:
  "e_trace (fold_state V ev e) =
     e_trace e @ (case ev of StateReported d s \<Rightarrow> [StateFolded d s] | _ \<Rightarrow> [])"
  by (cases ev) (simp_all add: fan_state_folded_def)

lemma consider_rules_notices:
  "list_all (\<lambda>m. \<not> is_intake m) (fst (consider_rules m ev prior rs))"
  by (induction rs) (auto simp: Let_def split: prod.splits)

lemma event_step_fold:
  "event_step V ev d e (fold_state V ev (notify (EventReceived ev d) e))"
  unfolding event_step_def
  by (auto simp: fold_state_trace split: event.split simp del: fold_state.simps)

lemma react_step:
  assumes run: "react n V ev d (notify (EventReceived ev d) e) = Done g"
  shows "event_step V ev d e g"
proof -
  let ?e = "fold_state V ev (notify (EventReceived ev d) e)"
  obtain f where f: "(case ev of StateReported _ _ \<Rightarrow> cancel_reverted_for_timers V ?e | _ \<Rightarrow> Done ?e) = Done f"
    and rest: "(let (ns, cmds, arms) = consider_rules (e_state f) ev
          (prior_state (e_state e) ev) (e_rules f);
          f' = f\<lparr>e_trace := e_trace f @ ns\<rparr>
        in run_bind (run_fold (\<lambda>(rule, d). arm_for_timer V rule d) arms f')
             (dispatch_all n V cmds d)) = Done g"
    using run unfolding react_def run_bind_Done Let_def by auto
  obtain ns cmds arms where c: "consider_rules (e_state f) ev (prior_state (e_state e) ev) (e_rules f) =
      (ns, cmds, arms)"
    by (metis prod_cases3)
  let ?f = "f\<lparr>e_trace := e_trace f @ ns\<rparr>"
  obtain h where h: "run_fold (\<lambda>(rule, d). arm_for_timer V rule d) arms ?f = Done h"
    and g: "dispatch_all n V cmds d h = Done g"
    using rest by (auto simp: c run_bind_Done)
  have "event_step V ev d e ?e"
    by (rule event_step_fold)
  moreover have "event_frame V d ?e f"
    using f by (cases ev) (auto dest: event_frame_cancel_reverted)
  ultimately have "event_step V ev d e f"
    by (rule event_step_frame) simp
  then have "event_step V ev d e ?f"
    using consider_rules_notices [of "e_state f" ev "prior_state (e_state e) ev" "e_rules f"]
    by (intro event_step_trace) (simp_all add: c)
  moreover have "event_frame V d ?f g"
    using event_frame_arms [OF h] events.dispatch_all_R [OF g] by (rule event_frame_trans)
  ultimately show ?thesis
    by (rule event_step_frame) simp
qed

lemma event_step_received:
  "\<not> (\<exists>d' s. ev = StateReported d' s) \<Longrightarrow> event_step V ev d e (notify (EventReceived ev d) e)"
  unfolding event_step_def by (cases ev) (auto simp: same_config_def)

lemma event_step_fan:
  "event_step V ev d e f \<Longrightarrow> event_step V ev d e (fan_state_folded V x s f)"
  using event_step_trace [of V ev d e f "[StateFolded x s]"]
  by (simp add: event_step_def same_config_def fan_state_folded_def notify_def)

lemma event_step_retries [simp]:
  "event_step V ev d e (f\<lparr>e_retries := rs\<rparr>) = event_step V ev d e f"
  by (simp add: event_step_def same_config_def)

lemma request_change_step:
  assumes run: "request_change n V x des d (notify (EventReceived ev d) e) = Done g"
    and ev: "ev = RequestedChange x des"
  shows "event_step V ev d e g"
proof -
  let ?e = "notify (EventReceived ev d) e"
  obtain f where f: "(case command_for_requested_change x des of
          Some cmd \<Rightarrow> dispatch_at n V cmd 1 d ?e | None \<Rightarrow> Done ?e) = Done f"
    and g: "g = (case store_get (e_state f) x (desired_kind des) of
        Some s \<Rightarrow> fan_state_folded V x s f | None \<Rightarrow> f)"
    using run by (auto simp: request_change_def run_bind_Done)
  have "event_frame V d ?e f"
    using f by (auto split: option.splits dest: events.dispatch_at_R)
  moreover have "event_step V ev d e ?e"
    by (rule event_step_received) (simp add: ev)
  ultimately have "event_step V ev d e f"
    by (auto intro: event_step_frame)
  then show ?thesis
    by (simp add: g event_step_fan split: option.split)
qed

text \<open>The whole of one iteration of the loop, for an event that is not too deep.\<close>

lemma process_event_step:
  assumes run: "process_event n V ev d e = Done g" and d: "d \<le> e_max_depth e"
  shows "event_step V ev d e g"
proof -
  let ?e = "notify (EventReceived ev d) e"
  have "\<not> e_max_depth e < d"
    using d by simp
  note [simp] = this process_event_def Let_def
  show ?thesis
  proof (cases ev)
    case (TimerElapsed key)
    have e: "event_step V ev d e ?e"
      by (rule event_step_received) (simp add: TimerElapsed)
    show ?thesis
    proof (cases "hm_get (e_retries e) key")
      case (Some p)
      let ?f = "?e\<lparr>e_retries := hm_remove key (e_retries ?e)\<rparr>"
      have "event_step V ev d e ?f"
        using e by simp
      moreover have "event_frame V 0 ?f g"
        using run Some TimerElapsed by (auto intro: events.dispatch_at_R)
      ultimately show ?thesis
        by (rule event_step_frame) (simp add: TimerElapsed)
    next
      case None
      show ?thesis
      proof (cases "starts_with for_prefix (timer_name key)")
        case True
        with run None TimerElapsed have "event_frame V 0 ?e g"
          by (auto intro: event_frame_fire)
        then show ?thesis
          using e TimerElapsed by (auto intro: event_step_frame)
      next
        case False
        with run None TimerElapsed show ?thesis
          by (auto intro: react_step)
      qed
    qed
  next
    case (RequestedScene s)
    have "event_step V ev d e ?e"
      by (rule event_step_received) (simp add: RequestedScene)
    moreover have "event_frame V d ?e g"
      using run RequestedScene by (auto intro: events.dispatch_at_R)
    ultimately show ?thesis
      by (rule event_step_frame) simp
  next
    case (RequestedChange x des)
    with run show ?thesis
      by (auto intro: request_change_step)
  qed (use run in \<open>auto intro: react_step\<close>)
qed

lemma process_event_dropped:
  "d > e_max_depth e \<Longrightarrow> process_event n V ev d e = Done (notify (CascadeDropped ev d) e)"
  by (simp add: process_event_def)

end
