(* ===== verification/Event_Loop.thy ===== *)
theory Event_Loop
  imports Event_Frame
begin

text \<open>
  The event loop: it never panics on a well-formed engine, it overflows the call stack only through
  scenes, it ends with an empty queue, and what it leaves in the store is the log of the reports it
  processed.
\<close>

section \<open>Safe runs\<close>

text \<open>A run that does not panic, overflows only if \<open>b\<close> allows it, and ends in \<open>P\<close> otherwise.\<close>

fun run_safe :: "bool \<Rightarrow> ('a \<Rightarrow> bool) \<Rightarrow> 'a run \<Rightarrow> bool" where
  "run_safe b P (Done a) = P a"
| "run_safe b P Panicked = False"
| "run_safe b P StackOverflow = b"

lemma run_safe_bind:
  "run_safe b P r \<Longrightarrow> (\<And>a. P a \<Longrightarrow> run_safe b Q (f a)) \<Longrightarrow> run_safe b Q (run_bind r f)"
  by (cases r) auto

lemma run_safe_fold:
  "P a \<Longrightarrow> (\<And>c a. P a \<Longrightarrow> run_safe b P (f c a)) \<Longrightarrow> run_safe b P (run_fold f cs a)"
  by (induction cs arbitrary: a) (auto intro!: run_safe_bind)

lemma run_safe_weaken: "run_safe b P r \<Longrightarrow> (b \<Longrightarrow> b') \<Longrightarrow> (\<And>a. P a \<Longrightarrow> Q a) \<Longrightarrow> run_safe b' Q r"
  by (cases r) auto

section \<open>One event is safe\<close>

definition wired :: "(scene_id, command list) hashmap \<Rightarrow> ('x, 'n) engine \<Rightarrow> bool" where
  "wired S e \<longleftrightarrow> engine_wf e \<and> e_scenes e = S"

lemma wired_frame [simp]:
  "wired S (notify m e) = wired S e"
  "wired S (e\<lparr>e_trace := t\<rparr>) = wired S e"
  "wired S (e\<lparr>e_queue := q\<rparr>) = wired S e"
  "wired S (e\<lparr>e_for_counter := n\<rparr>) = wired S e"
  "wired S (fan_state_folded V d s e) = wired S e"
  by (simp_all add: wired_def fan_state_folded_def)

lemma wired_tables [simp]:
  "wired S e \<Longrightarrow> hm_wf rs \<Longrightarrow> wired S (e\<lparr>e_retries := rs\<rparr>)"
  "wired S e \<Longrightarrow> hm_wf ps \<Longrightarrow> wired S (e\<lparr>e_pending_for := ps\<rparr>)"
  by (simp_all add: wired_def)

lemma wired_keys [simp]:
  "wired S e \<Longrightarrow> hm_wf (e_retries e)"
  "wired S e \<Longrightarrow> hm_wf (e_pending_for e)"
  by (simp_all add: wired_def engine_wf_parts)

lemma wired_fold [intro]: "wired S e \<Longrightarrow> wired S (fold_state V ev e)"
  by (cases ev)
    (simp_all add: wired_def Let_def fan_state_folded_def engine_wf_parts)

lemma dispatch_at_safe:
  assumes "wired S e"
  shows "run_safe (\<not> scenes_fit n S) (wired S) (dispatch_at n V c k depth e)"
proof -
  have "done_iff (fits n S c) engine_wf (dispatch_at n V c k depth e)"
    using dispatch_at_total assms unfolding wired_def by blast
  moreover have "e_scenes e' = S" if "dispatch_at n V c k depth e = Done e'" for e'
    using dispatch_frame_config(6) [OF frame.dispatch_at_R [OF that]] assms by (simp add: wired_def)
  ultimately show ?thesis
    by (auto simp: done_iff_def wired_def fits_all split: if_splits)
qed

lemma dispatch_all_safe:
  "wired S e \<Longrightarrow> run_safe (\<not> scenes_fit n S) (wired S) (dispatch_all n V cs depth e)"
  unfolding dispatch_all_def by (rule run_safe_fold) (auto intro: dispatch_at_safe)

lemma call_scheduler_safe:
  assumes "wired S e"
  shows "run_safe b (wired S) (call_scheduler V c e)"
proof -
  have "run_ok engine_wf (call_scheduler V c e)"
    using assms by (simp add: wired_def call_scheduler_wf)
  moreover have "e_scenes e' = S" if "call_scheduler V c e = Done e'" for e'
    using dispatch_frame_config(6) [OF dispatch_frame_call_scheduler [OF that]] assms
    by (simp add: wired_def)
  ultimately show ?thesis
    using call_scheduler_no_overflow [of V c e] by (cases "call_scheduler V c e") (auto simp: wired_def)
qed

lemma cancel_for_safe: "wired S e \<Longrightarrow> run_safe b (wired S) (cancel_for V r e)"
  by (auto simp: cancel_for_def split: option.split intro!: call_scheduler_safe)

lemma arm_safe: "wired S e \<Longrightarrow> run_safe b (wired S) (arm_for_timer V r d e)"
  unfolding arm_for_timer_def Let_def
  by (rule run_safe_bind [where P = "wired S"])
    (auto split: option.split intro!: call_scheduler_safe)

lemma fire_elapsed_safe:
  "wired S e \<Longrightarrow> run_safe (\<not> scenes_fit n S) (wired S) (fire_elapsed_for n V key e)"
  unfolding fire_elapsed_for_def Let_def
  by (auto split: option.split prod.split intro!: dispatch_all_safe)

lemma react_safe:
  fixes e :: "('a, 'b) engine"
  shows "wired S e \<Longrightarrow> run_safe (\<not> scenes_fit n S) (wired S) (react n V ev depth e)"
  unfolding react_def Let_def
proof (rule run_safe_bind [where P = "wired S"])
  assume e: "wired S e"
  then show "run_safe (\<not> scenes_fit n S) (wired S)
      (case ev of StateReported _ _ \<Rightarrow> cancel_reverted_for_timers V (fold_state V ev e)
       | _ \<Rightarrow> Done (fold_state V ev e))"
    by (auto split: event.split simp: cancel_reverted_for_timers_def
        intro!: run_safe_fold cancel_for_safe wired_fold simp del: fold_state.simps)
next
  fix f :: "('a, 'b) engine"
  assume "wired S f"
  then show "run_safe (\<not> scenes_fit n S) (wired S)
      (case consider_rules (e_state f) ev (prior_state (e_state e) ev) (e_rules f) of
        (ns, cmds, arms) \<Rightarrow>
          run_bind (run_fold (\<lambda>(rule, d). arm_for_timer V rule d) arms
              (f\<lparr>e_trace := e_trace f @ ns\<rparr>))
            (dispatch_all n V cmds depth))"
    by (auto split: prod.split intro!: run_safe_bind [where P = "wired S"] run_safe_fold
        dispatch_all_safe arm_safe)
qed

lemma request_change_safe:
  "wired S e \<Longrightarrow> run_safe (\<not> scenes_fit n S) (wired S) (request_change n V x des depth e)"
  unfolding request_change_def
  by (rule run_safe_bind [where P = "wired S"])
    (auto split: option.split intro!: dispatch_at_safe)

lemma process_event_safe:
  "wired S e \<Longrightarrow> run_safe (\<not> scenes_fit n S) (wired S) (process_event n V ev depth e)"
  unfolding process_event_def Let_def
  by (auto split: event.split option.split
      intro!: dispatch_at_safe fire_elapsed_safe react_safe request_change_safe)

section \<open>The loop\<close>

lemma drain_induct [consumes 1, case_names empty step panic overflow]:
  assumes "drain n V e = Some r"
    and "\<And>e. e_queue e = [] \<Longrightarrow> P e (Done e)"
    and "\<And>e ev d q e' r. e_queue e = (ev, d) # q \<Longrightarrow>
      process_event n V ev d (e\<lparr>e_queue := q\<rparr>) = Done e' \<Longrightarrow> P e' r \<Longrightarrow> P e r"
    and "\<And>e ev d q. e_queue e = (ev, d) # q \<Longrightarrow>
      process_event n V ev d (e\<lparr>e_queue := q\<rparr>) = Panicked \<Longrightarrow> P e Panicked"
    and "\<And>e ev d q. e_queue e = (ev, d) # q \<Longrightarrow>
      process_event n V ev d (e\<lparr>e_queue := q\<rparr>) = StackOverflow \<Longrightarrow> P e StackOverflow"
  shows "P e r"
proof -
  let ?P = "\<lambda>n' V' e r. n' = n \<longrightarrow> V' = V \<longrightarrow> P e r"
  have "?P n V e r"
  proof (rule drain.raw_induct [where P = ?P, OF _ assms(1)], intro impI)
    fix dr n' V' e r
    assume IH: "\<And>n' V' e r. dr n' V' e = Some r \<Longrightarrow> ?P n' V' e r"
      and run: "(case e_queue e of [] \<Rightarrow> Some (Done e)
          | (ev, d) # q \<Rightarrow>
              (case process_event n' V' ev d (e\<lparr>e_queue := q\<rparr>) of
                 Done e' \<Rightarrow> dr n' V' e' | Panicked \<Rightarrow> Some Panicked
               | StackOverflow \<Rightarrow> Some StackOverflow)) = Some r"
      and eq: "n' = n" "V' = V"
    show "P e r"
    proof (cases "e_queue e")
      case Nil
      with run show ?thesis
        by (auto intro: assms(2))
    next
      case (Cons x q)
      obtain ev d where x: "x = (ev, d)"
        by fastforce
      note body = run [unfolded Cons x eq, simplified]
      show ?thesis
      proof (cases "process_event n V ev d (e\<lparr>e_queue := q\<rparr>)")
        case (Done e')
        with body IH have "P e' r"
          by simp
        with Done Cons x show ?thesis
          by (auto intro: assms(3))
      qed (use body Cons x assms(4,5) in auto)
    qed
  qed
  then show ?thesis
    by simp
qed

text \<open>
  A predicate every processed event keeps holds when the loop ends.
\<close>

locale loop_invariant =
  fixes n :: nat
    and V :: "('x, 'n) vtable"
    and I :: "('x, 'n) engine \<Rightarrow> bool"
  assumes process_I:
    "I e \<Longrightarrow> e_queue e = (ev, d) # q \<Longrightarrow> process_event n V ev d (e\<lparr>e_queue := q\<rparr>) = Done e' \<Longrightarrow> I e'"
begin

lemma drain_I: "drain n V e = Some r \<Longrightarrow> I e \<Longrightarrow> r = Done e' \<Longrightarrow> I e' \<and> e_queue e' = []"
proof (induction rule: drain_induct)
  case (step e ev d q e'' r)
  then show ?case
    using process_I by blast
qed auto

end

section \<open>Reachable states\<close>

text \<open>
  What can happen to an engine after its configuration \<open>e0\<close>: it is started, events are injected,
  time passes, and between its turns the background threads of the protocol adapters change the
  states of devices and of northbound adapters, which the engine only sees through their methods.
\<close>

inductive world_step :: "('x, 'n) engine \<Rightarrow> ('x, 'n) engine \<Rightarrow> bool" where
  device: "e_adapters e ! i = Device x \<Longrightarrow>
    world_step e (e\<lparr>e_adapters := (e_adapters e)[i := Device x']\<rparr>)"
| northbound: "length ns = length (e_northbound e) \<Longrightarrow> world_step e (e\<lparr>e_northbound := ns\<rparr>)"

inductive reachable ::
  "nat \<Rightarrow> ('x, 'n) vtable \<Rightarrow> ('x, 'n) engine \<Rightarrow> ('x, 'n) engine \<Rightarrow> bool"
  for n V e0 where
  boot: "start n V e0 = Some (Done e) \<Longrightarrow> reachable n V e0 e"
| injected: "reachable n V e0 e \<Longrightarrow> inject n V ev e = Some (Done e') \<Longrightarrow> reachable n V e0 e'"
| advanced: "reachable n V e0 e \<Longrightarrow> advance n V dt e = Some (Done e') \<Longrightarrow> reachable n V e0 e'"
| world: "reachable n V e0 e \<Longrightarrow> world_step e e' \<Longrightarrow> reachable n V e0 e'"

inductive_cases world_stepE: "world_step e e'"

locale engine_invariant = loop_invariant n V I
  for n :: nat and V :: "('x, 'n) vtable" and I :: "('x, 'n) engine \<Rightarrow> bool" +
  assumes enqueue_I: "I e \<Longrightarrow> I (enqueue ev 0 e)"
    and now_I: "I e \<Longrightarrow> I (e\<lparr>e_now := t\<rparr>)"
    and tick_I: "I e \<Longrightarrow> I (tick_adapters V e)"
    and northbound_I: "I e \<Longrightarrow> length ns = length (e_northbound e) \<Longrightarrow> I (e\<lparr>e_northbound := ns\<rparr>)"
    and device_I: "I e \<Longrightarrow> e_adapters e ! i = Device x \<Longrightarrow>
      I (e\<lparr>e_adapters := (e_adapters e)[i := Device x']\<rparr>)"
begin

lemma inject_I: "I e \<Longrightarrow> inject n V ev e = Some (Done e') \<Longrightarrow> I e' \<and> e_queue e' = []"
  unfolding inject_def using drain_I enqueue_I by blast

lemma advance_I: "I e \<Longrightarrow> advance n V dt e = Some (Done e') \<Longrightarrow> I e' \<and> e_queue e' = []"
  unfolding advance_def using drain_I tick_I now_I by blast

lemma start_I: "I e \<Longrightarrow> start n V e = Some (Done e') \<Longrightarrow> I e' \<and> e_queue e' = []"
proof -
  assume "I e" and "start n V e = Some (Done e')"
  then obtain f where "drain n V (tick_adapters V e) = Some (Done f)" and e': "e' = sync_northbound V f"
    by (auto simp: start_def run_bind_Done)
  with \<open>I e\<close> have "I f" and "e_queue f = []"
    using drain_I tick_I by blast+
  then show ?thesis
    by (simp add: e' sync_northbound_def northbound_I)
qed

lemma reachable_I: "reachable n V e0 e \<Longrightarrow> I e0 \<Longrightarrow> I e \<and> e_queue e = []"
proof (induction rule: reachable.induct)
  case (world e e')
  then show ?case
    by (auto elim!: world_stepE intro: device_I northbound_I)
qed (auto dest: start_I inject_I advance_I)

end

section \<open>Well-formedness is kept\<close>

lemma enqueue_all_sel [simp]:
  "e_adapters (enqueue_all evs d e) = e_adapters e" "e_state (enqueue_all evs d e) = e_state e"
  "e_trace (enqueue_all evs d e) = e_trace e" "e_scenes (enqueue_all evs d e) = e_scenes e"
  "e_queue (enqueue_all evs d e) = e_queue e @ map (\<lambda>ev. (ev, d)) evs"
  "e_northbound (enqueue_all evs d e) = e_northbound e" "e_rules (enqueue_all evs d e) = e_rules e"
  "e_pending_for (enqueue_all evs d e) = e_pending_for e"
  "e_max_depth (enqueue_all evs d e) = e_max_depth e" "e_routes (enqueue_all evs d e) = e_routes e"
  "e_retries (enqueue_all evs d e) = e_retries e" "e_now (enqueue_all evs d e) = e_now e"
  "e_retry (enqueue_all evs d e) = e_retry e"
  by (simp_all add: enqueue_all_def)

lemma adapters_wf_tick:
  assumes "adapters_wf as"
  shows "adapters_wf (map (\<lambda>a. fst (adapter_tick V a now)) as)"
proof -
  have "is_device (fst (adapter_tick V a now))" if "is_device a" for a
    using that by (cases a) auto
  with assms show ?thesis
    by (auto elim!: adapters_wf_cases simp: sched_tick_wf list_all_iff)
qed

lemma engine_wf_tick [simp, inv_intros]: "engine_wf e \<Longrightarrow> engine_wf (tick_adapters V e)"
  using adapters_wf_tick [of "e_adapters e" V "e_now e"]
  by (simp add: engine_wf_def tick_adapters_def Let_def comp_def)

lemma wired_enqueue [simp]:
  "wired S (enqueue ev d e) = wired S e" "wired S (enqueue_all evs d e) = wired S e"
  "wired S (e\<lparr>e_now := t\<rparr>) = wired S e" "wired S (e\<lparr>e_northbound := ns\<rparr>) = wired S e"
  by (simp_all add: wired_def enqueue_is_enqueue_all)

lemma engine_wf_adapters:
  "engine_wf e \<Longrightarrow> adapters_wf as \<Longrightarrow> length as = length (e_adapters e) \<Longrightarrow>
    engine_wf (e\<lparr>e_adapters := as\<rparr>)"
  by (simp add: engine_wf_def)

lemma wired_device:
  assumes "wired S e" and "e_adapters e ! i = Device x"
  shows "wired S (e\<lparr>e_adapters := (e_adapters e)[i := Device x']\<rparr>)"
proof -
  have wf: "adapters_wf (e_adapters e)"
    using assms(1) by (simp add: wired_def engine_wf_parts)
  then have "0 < i"
    using assms(2) by (cases i) (auto elim: adapters_wf_cases)
  with wf have "adapters_wf ((e_adapters e)[i := Device x'])"
    by (rule adapters_wf_update)
  with assms(1) show ?thesis
    by (simp add: wired_def engine_wf_adapters)
qed

interpretation wired: engine_invariant n V "wired S" for n and V :: "('x, 'n) vtable" and S
proof
  fix e e' :: "('x, 'n) engine" and ev d q
  assume "wired S e" and run: "process_event n V ev d (e\<lparr>e_queue := q\<rparr>) = Done e'"
  then have "wired S (e\<lparr>e_queue := q\<rparr>)"
    by simp
  from process_event_safe [OF this, of n V ev d] run show "wired S e'"
    by simp
next
  fix e :: "('x, 'n) engine"
  assume "wired S e"
  then show "wired S (tick_adapters V e)"
    by (simp add: wired_def) (simp add: tick_adapters_def Let_def)
qed (auto intro: wired_device)

lemma drain_no_panic:
  "drain n V e = Some r \<Longrightarrow> wired S e \<Longrightarrow> run_safe (\<not> scenes_fit n S) (wired S) r"
proof (induction rule: drain_induct)
  case (step e ev d q e' r)
  then have "wired S (e\<lparr>e_queue := q\<rparr>)"
    by simp
  from process_event_safe [OF this, of n V ev d] step show ?case
    by simp
next
  case (panic e ev d q)
  then have "wired S (e\<lparr>e_queue := q\<rparr>)"
    by simp
  from process_event_safe [OF this, of n V ev d] panic show ?case
    by simp
next
  case (overflow e ev d q)
  then have "wired S (e\<lparr>e_queue := q\<rparr>)"
    by simp
  from process_event_safe [OF this, of n V ev d] overflow show ?case
    by simp
qed simp

section \<open>The loop ends\<close>

text \<open>
  The rank of a queued event: a timer is above every other event, and among those the rank is what
  the depth leaves. Processing an event replaces it by events of smaller rank.
\<close>

fun rank :: "u32 \<Rightarrow> event \<times> u32 \<Rightarrow> nat" where
  "rank m (ev, d) =
     (if is_timer_event ev then unat m + 2 else if m < d then 0 else unat m + 1 - unat d)"

definition ranks :: "('x, 'n) engine \<Rightarrow> nat multiset" where
  "ranks e = image_mset (rank (e_max_depth e)) (mset (e_queue e))"

lemma produced_not_timer:
  "quiet_dispatch (op_dispatch (dev V)) \<Longrightarrow> produced V ev \<Longrightarrow> \<not> is_timer_event ev"
  by (auto simp: produced_def dest: quiet_dispatch.no_timer)

lemma rank_deeper:
  assumes "d \<le> m" and "m < - 1" and "\<not> is_timer_event ev'"
    and "d' = d + 1 \<or> is_timer_event ev \<and> d' = 1"
  shows "rank m (ev', d') < rank m (ev, d)"
proof -
  have "unat m < 2 ^ 32 - 1"
    using assms(2) by (simp add: word_less_nat_alt unsigned_minus_1_eq_mask mask_eq_exp_minus_1)
  moreover have "unat d \<le> unat m"
    using assms(1) by (simp add: word_le_nat_alt)
  ultimately have "unat (d + 1) = Suc (unat d)"
    by (intro unat_Suc_word) simp
  with assms \<open>unat d \<le> unat m\<close> show ?thesis
    by (auto simp: word_less_nat_alt)
qed

lemma process_event_ranks:
  assumes quiet: "quiet_dispatch (op_dispatch (dev V))" and m: "e_max_depth e < - 1"
    and q: "e_queue e = (ev, d) # q"
    and run: "process_event n V ev d (e\<lparr>e_queue := q\<rparr>) = Done g"
  shows "(ranks g, ranks e) \<in> mult less_than" and "e_max_depth g = e_max_depth e"
proof -
  let ?r = "rank (e_max_depth e)"
  have "e_max_depth g = e_max_depth e \<and>
    (\<exists>q'. e_queue g = q @ q' \<and> (\<forall>x \<in> set q'. ?r x < ?r (ev, d)))"
  proof (cases "e_max_depth e < d")
    case True
    with run have "g = notify (CascadeDropped ev d) (e\<lparr>e_queue := q\<rparr>)"
      by (simp add: process_event_dropped)
    then show ?thesis
      by simp
  next
    case False
    with process_event_step [OF run] have "event_step V ev d (e\<lparr>e_queue := q\<rparr>) g"
      by simp
    then obtain q' where "e_queue g = q @ q'" "same_config (e\<lparr>e_queue := q\<rparr>) g"
      and q': "\<forall>(ev', d') \<in> set q'. (d' = d + 1 \<or> is_timer_event ev \<and> d' = 1) \<and> produced V ev'"
      unfolding event_step_def by auto
    moreover have "?r x < ?r (ev, d)" if x: "x \<in> set q'" for x
    proof -
      obtain ev' d' where "x = (ev', d')"
        by fastforce
      with x q' False m show ?thesis
        using produced_not_timer [OF quiet] by (auto intro!: rank_deeper simp del: rank.simps)
    qed
    ultimately show ?thesis
      by (auto simp: same_config_def)
  qed
  then obtain q' where g: "e_max_depth g = e_max_depth e" "e_queue g = q @ q'"
      "\<forall>x \<in> set q'. ?r x < ?r (ev, d)"
    by blast
  show "e_max_depth g = e_max_depth e"
    by (rule g(1))
  have "ranks g = image_mset ?r (mset q) + image_mset ?r (mset q')"
    by (simp add: ranks_def g(1,2))
  moreover have "ranks e = add_mset (?r (ev, d)) (image_mset ?r (mset q))"
    by (simp add: ranks_def q del: rank.simps)
  moreover have "\<forall>k \<in># image_mset ?r (mset q'). k < ?r (ev, d)"
    using g(3) by (auto simp del: rank.simps)
  ultimately show "(ranks g, ranks e) \<in> mult less_than"
    by (metis mult_less_than_step)
qed

lemma drain_total:
  assumes "quiet_dispatch (op_dispatch (dev V))" and "scenes_fit n S"
    and "wired S e" and "e_max_depth e < - 1"
  shows "\<exists>e'. drain n V e = Some (Done e') \<and> wired S e' \<and> e_queue e' = []"
proof -
  have "wf (inv_image (mult less_than) ranks)"
    by (intro wf_inv_image wf_mult) simp
  then show ?thesis
    using assms(3,4)
  proof (induction e)
    case (less e)
    show ?case
    proof (cases "e_queue e")
      case Nil
      with less.prems show ?thesis
        by (simp add: drain.simps)
    next
      case (Cons x q)
      obtain ev d where x: "x = (ev, d)"
        by fastforce
      have "wired S (e\<lparr>e_queue := q\<rparr>)"
        using less.prems by simp
      from process_event_safe [OF this, of n V ev d] assms(2)
      obtain g where g: "process_event n V ev d (e\<lparr>e_queue := q\<rparr>) = Done g" "wired S g"
        by (cases "process_event n V ev d (e\<lparr>e_queue := q\<rparr>)") auto
      note ranks = process_event_ranks [OF assms(1) less.prems(2) Cons [unfolded x] g(1)]
      then have "\<exists>e'. drain n V g = Some (Done e') \<and> wired S e' \<and> e_queue e' = []"
        using less.prems(2) g(2) by (intro less.IH) simp_all
      then show ?thesis
        by (subst drain.simps) (simp add: Cons x g(1))
    qed
  qed
qed

end
