(* ===== verification/Reactions.thy ===== *)
theory Reactions
  imports Engine_Props
begin

text \<open>
  How the engine reacts: which rules a report concerns and in which order they act, what an intent
  of a consumer may change, how the northbound adapters follow the store, and the sustained
  (\<open>for:\<close>) rules.
\<close>

section \<open>The rules an event concerns\<close>

definition rule_notice :: "store \<Rightarrow> rule \<Rightarrow> notice" where
  "rule_notice m r =
     RuleConsidered (r_id r) (cond_eval m (r_condition r)) (is_true (cond_eval m (r_condition r)))"

definition fires :: "store \<Rightarrow> event \<Rightarrow> capability_state option \<Rightarrow> rule \<Rightarrow> bool" where
  "fires m ev prior r \<longleftrightarrow> matches (r_trigger r) ev prior \<and> is_true (cond_eval m (r_condition r))"

text \<open>
  A loop over the rules considers exactly the matching ones, in their order; the commands are
  those of the firing rules without \<open>for:\<close>, concatenated in rule order, and the timers to arm are
  those of the firing rules with it.
\<close>

theorem consider_rules_exact:
  "consider_rules m ev prior rs =
     (map (rule_notice m) (filter (\<lambda>r. matches (r_trigger r) ev prior) rs),
      concat (map r_commands (filter (\<lambda>r. fires m ev prior r \<and> r_for r = None) rs)),
      map (\<lambda>r. (r_id r, the (r_for r))) (filter (\<lambda>r. fires m ev prior r \<and> r_for r \<noteq> None) rs))"
  by (induction rs) (auto simp: rule_notice_def fires_def Let_def)

lemma consider_rules_eq:
  "consider_rules m ev prior rs =
     (map (rule_notice m) (filter (\<lambda>r. matches (r_trigger r) ev prior) rs),
      concat (map r_commands (filter (\<lambda>r. fires m ev prior r \<and> r_for r = None) rs)),
      map (\<lambda>r. (r_id r, the (r_for r))) (filter (\<lambda>r. fires m ev prior r \<and> r_for r \<noteq> None) rs))"
  by (induction rs) (auto simp: rule_notice_def fires_def Let_def)

text \<open>The three phases of a reaction after the fold.\<close>

lemma react_cases:
  assumes "react n V ev d e = Done g"
  obtains f h where
    "(case ev of StateReported _ _ \<Rightarrow> cancel_reverted_for_timers V (fold_state V ev e)
      | _ \<Rightarrow> Done (fold_state V ev e)) = Done f"
    "run_fold (\<lambda>(rule, d). arm_for_timer V rule d)
       (map (\<lambda>r. (r_id r, the (r_for r)))
         (filter (\<lambda>r. fires (e_state f) ev (prior_state (e_state e) ev) r \<and> r_for r \<noteq> None) (e_rules f)))
       (f\<lparr>e_trace := e_trace f @ map (rule_notice (e_state f))
         (filter (\<lambda>r. matches (r_trigger r) ev (prior_state (e_state e) ev)) (e_rules f))\<rparr>) = Done h"
    "dispatch_all n V
       (concat (map r_commands
         (filter (\<lambda>r. fires (e_state f) ev (prior_state (e_state e) ev) r \<and> r_for r = None) (e_rules f))))
       d h = Done g"
  using assms unfolding react_def consider_rules_eq by (auto simp: Let_def run_bind_Done)

lemma after_fold_frame:
  assumes "(case ev of StateReported _ _ \<Rightarrow> cancel_reverted_for_timers V e | _ \<Rightarrow> Done e) = Done f"
  shows "event_frame V d e f"
  using assms by (cases ev) (auto dest: event_frame_cancel_reverted)

fun is_considered :: "notice \<Rightarrow> bool" where
  "is_considered (RuleConsidered _ _ _) = True"
| "is_considered _ = False"

lemma event_frame_not_considered:
  assumes "event_frame V d e f"
  obtains t where "e_trace f = e_trace e @ t" "filter is_considered t = []"
proof -
  have "\<not> is_considered m" if "dispatch_notice d m" for m
    using that by (cases m) auto
  with assms that show thesis
    unfolding event_frame_def list_all_iff by (metis filter_False)
qed

lemma react_considered:
  assumes "react n V ev d e = Done g"
  obtains t where "e_trace g = e_trace e @ t"
    "filter is_considered t = map (rule_notice (fold_report ev (e_state e)))
       (filter (\<lambda>r. matches (r_trigger r) ev (prior_state (e_state e) ev)) (e_rules e))"
  using assms
proof (rule react_cases)
  let ?e = "fold_state V ev e" and ?prior = "prior_state (e_state e) ev"
  fix f h
  assume f: "(case ev of StateReported _ _ \<Rightarrow> cancel_reverted_for_timers V ?e | _ \<Rightarrow> Done ?e) = Done f"
    and h: "run_fold (\<lambda>(rule, d). arm_for_timer V rule d)
       (map (\<lambda>r. (r_id r, the (r_for r)))
         (filter (\<lambda>r. fires (e_state f) ev ?prior r \<and> r_for r \<noteq> None) (e_rules f)))
       (f\<lparr>e_trace := e_trace f @ map (rule_notice (e_state f))
         (filter (\<lambda>r. matches (r_trigger r) ev ?prior) (e_rules f))\<rparr>) = Done h"
    and g: "dispatch_all n V
       (concat (map r_commands (filter (\<lambda>r. fires (e_state f) ev ?prior r \<and> r_for r = None) (e_rules f))))
       d h = Done g"
  note ef = after_fold_frame [OF f, of d]
  then have same: "e_state f = fold_report ev (e_state e)" "e_rules f = e_rules e"
    by (auto simp: event_frame_def same_config_def)
  obtain t1 where t1: "e_trace f = e_trace ?e @ t1" "filter is_considered t1 = []"
    using ef by (rule event_frame_not_considered)
  obtain t2 where t2: "e_trace h = e_trace f @ map (rule_notice (e_state f))
      (filter (\<lambda>r. matches (r_trigger r) ev ?prior) (e_rules f)) @ t2" "filter is_considered t2 = []"
    using event_frame_arms [OF h] by (rule event_frame_not_considered) simp
  obtain t3 where t3: "e_trace g = e_trace h @ t3" "filter is_considered t3 = []"
    using events.dispatch_all_R [OF g] by (rule event_frame_not_considered)
  have "filter is_considered (case ev of StateReported x s \<Rightarrow> [StateFolded x s] | _ \<Rightarrow> []) = []"
    by (cases ev) auto
  moreover have "filter is_considered (map (rule_notice m) rs) = map (rule_notice m) rs" for m rs
    by (induction rs) (simp_all add: rule_notice_def)
  ultimately show thesis
    using that t1 t2 t3 by (simp add: fold_state_trace same)
qed

text \<open>
  C14: fold before match. On a report, the rules considered are exactly those whose trigger matches
  it against the value before the report, in rule order, and each is judged on the store after it.
\<close>

theorem report_considers_rules:
  assumes "process_event n V (StateReported x s) d e = Done e'" and "d \<le> e_max_depth e"
  shows "filter is_considered (drop (length (e_trace e)) (e_trace e')) =
    map (rule_notice (store_set x s (e_state e)))
      (filter (\<lambda>r. matches (r_trigger r) (StateReported x s) (store_get (e_state e) x (kind s)))
        (e_rules e))"
proof -
  have "react n V (StateReported x s) d (notify (EventReceived (StateReported x s) d) e) = Done e'"
    using assms by (simp add: process_event_def leD Let_def)
  then obtain t where "e_trace e' = e_trace e @ EventReceived (StateReported x s) d # t"
    "filter is_considered t = map (rule_notice (store_set x s (e_state e)))
      (filter (\<lambda>r. matches (r_trigger r) (StateReported x s) (store_get (e_state e) x (kind s)))
        (e_rules e))"
    by (rule react_considered) simp
  then show ?thesis
    by simp
qed

lemma process_event_done:
  assumes "wired S e" and "scenes_fit n S"
  obtains e' where "process_event n V ev d e = Done e'"
  using process_event_safe [OF assms(1), of n V ev d] assms(2)
  by (cases "process_event n V ev d e") auto

lemma small_house_wired: "wired [] small_house" "wired [] moved_house"
proof -
  show "wired [] small_house"
    using small_house_wf
    by (simp add: wired_def) (simp add: small_house_def add_rule_def bind_device_def
        add_northbound_def add_adapter_def new_engine_def)
  then show "wired [] moved_house"
    using wired.reachable_I [OF moved_house_reachable] by blast
qed

lemma scenes_fit_none: "scenes_fit 1 []"
  by (simp add: scenes_fit_def)

theorem report_considers_rules_witness:
  "\<exists>e'. process_event 1 virtual_house (StateReported (DeviceId 1) (Occupancy True)) 0 small_house = Done e' \<and>
    filter is_considered (e_trace e') = [RuleConsidered (RuleId 0) True3 True]"
proof -
  obtain e' where
    run: "process_event 1 virtual_house (StateReported (DeviceId 1) (Occupancy True)) 0 small_house =
      Done e'"
    by (rule process_event_done [OF small_house_wired(1) scenes_fit_none])
  have "filter is_considered (drop (length (e_trace small_house)) (e_trace e')) =
      [RuleConsidered (RuleId 0) True3 True]"
    by (subst report_considers_rules [OF run]) (simp, code_simp)
  with run small_house_fresh show ?thesis
    by simp
qed

section \<open>Intents are not reports\<close>

lemma no_considered_frame:
  assumes "event_frame V d (notify m e) f" and "\<not> is_considered m"
  shows "filter is_considered (drop (length (e_trace e)) (e_trace f)) = []"
  using assms(1) by (rule event_frame_not_considered) (use assms(2) in simp)

lemma request_change_cases:
  assumes "process_event n V (RequestedChange x des) d e = Done e'" and "d \<le> e_max_depth e"
  obtains f where "event_frame V d (notify (EventReceived (RequestedChange x des) d) e) f"
    "dispatch_frame (notify (EventReceived (RequestedChange x des) d) e) f"
    "e' = (case store_get (e_state e) x (desired_kind des) of
        Some s \<Rightarrow> fan_state_folded V x s f | None \<Rightarrow> f)"
proof -
  let ?e = "notify (EventReceived (RequestedChange x des) d) e"
  have "request_change n V x des d ?e = Done e'"
    using assms by (simp add: process_event_def leD Let_def)
  then obtain f where f: "(case command_for_requested_change x des of
          Some cmd \<Rightarrow> dispatch_at n V cmd 1 d ?e | None \<Rightarrow> Done ?e) = Done f"
    and e': "e' = (case store_get (e_state f) x (desired_kind des) of
        Some s \<Rightarrow> fan_state_folded V x s f | None \<Rightarrow> f)"
    by (auto simp: request_change_def run_bind_Done)
  have "event_frame V d ?e f" and frame: "dispatch_frame ?e f"
    using f by (auto split: option.splits dest: events.dispatch_at_R frame.dispatch_at_R
        intro: dispatch_frame_refl)
  with e' dispatch_frame_config(2) [OF frame] that show thesis
    by simp
qed

text \<open>
  C16: an intent is not a report. A change requested by a consumer never writes the store, never
  starts or stops a \<open>for:\<close> timer and concerns no rule: it becomes at most one command. Afterwards
  every northbound adapter is told the value the store has, which takes back an optimistic write.
\<close>

theorem intent_is_not_a_report:
  assumes "process_event n V (RequestedChange x des) d e = Done e'" and "d \<le> e_max_depth e"
  shows "e_state e' = e_state e \<and> e_pending_for e' = e_pending_for e \<and>
    filter is_considered (drop (length (e_trace e)) (e_trace e')) = [] \<and>
    e_northbound e' =
      (case store_get (e_state e) x (desired_kind des) of
         Some s \<Rightarrow> map (\<lambda>nbs. nb_folded (nb V) nbs x s) (e_northbound e)
       | None \<Rightarrow> e_northbound e)"
  using assms
proof (rule request_change_cases)
  let ?e = "notify (EventReceived (RequestedChange x des) d) e"
  fix f
  assume ev: "event_frame V d ?e f" and frame: "dispatch_frame ?e f"
    and e': "e' = (case store_get (e_state e) x (desired_kind des) of
        Some s \<Rightarrow> fan_state_folded V x s f | None \<Rightarrow> f)"
  have "filter is_considered (drop (length (e_trace e)) (e_trace f)) = []"
    using ev by (rule no_considered_frame) simp
  moreover have "length (e_trace e) \<le> length (e_trace f)"
    using ev by (auto simp: event_frame_def)
  ultimately show ?thesis
    using dispatch_frame_config [OF frame]
    by (auto simp: e' fan_state_folded_def split: option.split)
qed

theorem intent_is_not_a_report_witness:
  "\<exists>e'. process_event 1 virtual_house (RequestedChange (DeviceId 2) Toggle) 0 moved_house = Done e' \<and>
    switch_state e' (DeviceId 2) = Some True"
proof -
  obtain e' where
    run: "process_event 1 virtual_house (RequestedChange (DeviceId 2) Toggle) 0 moved_house = Done e'"
    by (rule process_event_done [OF small_house_wired(2) scenes_fit_none])
  have "e_state e' = e_state moved_house"
    using intent_is_not_a_report [OF run] by simp
  moreover have "switch_state moved_house (DeviceId 2) = Some True"
    by code_simp
  ultimately show ?thesis
    using run by (simp add: switch_state_def)
qed

section \<open>Northbound mirrors\<close>

definition mirrors ::
  "('n \<Rightarrow> device_id \<Rightarrow> capability_kind \<Rightarrow> capability_state option) \<Rightarrow> store \<Rightarrow> 'n list \<Rightarrow> bool" where
  "mirrors view m ns \<longleftrightarrow> (\<forall>n \<in> set ns. \<forall>d k. view n d k = store_get m d k)"

text \<open>What the northbound adapters are told of one event.\<close>

fun told :: "('x, 'n) vtable \<Rightarrow> store \<Rightarrow> event \<Rightarrow> 'n \<Rightarrow> 'n" where
  "told V m (StateReported d s) n = nb_folded (nb V) n d s"
| "told V m (RequestedChange d des) n =
     (case store_get m d (desired_kind des) of Some s \<Rightarrow> nb_folded (nb V) n d s | None \<Rightarrow> n)"
| "told V m _ n = n"

lemma told_report: "told V m (StateReported d s) = (\<lambda>n. nb_folded (nb V) n d s)"
  by (simp add: fun_eq_iff)

lemma fold_state_northbound:
  "e_northbound (fold_state V ev e) =
    (case ev of StateReported d s \<Rightarrow> map (\<lambda>n. nb_folded (nb V) n d s) (e_northbound e)
     | _ \<Rightarrow> e_northbound e)"
  by (cases ev) (simp_all add: fan_state_folded_def Let_def)

lemma event_frame_northbound: "event_frame V d e f \<Longrightarrow> e_northbound f = e_northbound e"
  by (simp add: event_frame_def)

lemma react_northbound:
  assumes "react n V ev d e = Done g"
  shows "e_northbound g = e_northbound (fold_state V ev e)"
  using assms
  by (rule react_cases)
    (drule event_frame_northbound [OF after_fold_frame] event_frame_northbound [OF event_frame_arms]
      event_frame_northbound [OF events.dispatch_all_R], simp)+

lemma process_event_northbound:
  assumes run: "process_event n V ev d e = Done g" and d: "d \<le> e_max_depth e"
  shows "e_northbound g = map (told V (e_state e) ev) (e_northbound e)"
proof -
  note [simp] = process_event_def leD [OF d] Let_def map_idI
  note northbound = react_northbound
    event_frame_northbound [OF events.dispatch_at_R] event_frame_northbound [OF event_frame_fire]
  show ?thesis
  proof (cases ev)
    case (RequestedChange x des)
    from run [unfolded RequestedChange] d show ?thesis
      by (rule request_change_cases)
        (auto simp: RequestedChange fan_state_folded_def event_frame_northbound map_idI
          split: option.split)
  qed (use run in \<open>auto split: option.splits if_splits dest!: northbound
      simp: fold_state_northbound simp del: fold_state.simps\<close>)
qed

text \<open>
  A northbound adapter projects the store: \<open>view\<close> is what a consumer reads from it. The laws are that
  a fold updates the projection as a report updates the store, and that a tick leaves it alone.
\<close>

locale mirror =
  fixes folded :: "'n \<Rightarrow> device_id \<Rightarrow> capability_state \<Rightarrow> 'n"
    and tick :: "'n \<Rightarrow> millis \<Rightarrow> 'n \<times> event list"
    and view :: "'n \<Rightarrow> device_id \<Rightarrow> capability_kind \<Rightarrow> capability_state option"
  assumes view_folded:
      "view (folded n d s) d' k = (if d' = d \<and> k = kind s then Some s else view n d' k)"
    and view_tick: "view (fst (tick n t)) = view n"
begin

lemma mirrors_report:
  "mirrors view m ns \<Longrightarrow> mirrors view (store_set d s m) (map (\<lambda>n. folded n d s) ns)"
  by (auto simp: mirrors_def view_folded)

lemma mirrors_again:
  "mirrors view m ns \<Longrightarrow> store_get m d (kind s) = Some s \<Longrightarrow>
    mirrors view m (map (\<lambda>n. folded n d s) ns)"
  by (auto simp: mirrors_def view_folded)

lemma mirrors_event:
  assumes "mirrors view m ns" and "store_wf m" and "nb_folded (nb V) = folded"
  shows "mirrors view (fold_report ev m) (map (told V m ev) ns)"
proof (cases ev)
  case (RequestedChange x des)
  show ?thesis
  proof (cases "store_get m x (desired_kind des)")
    case (Some s)
    then have "store_get m x (kind s) = Some s"
      using store_get_kind [OF assms(2)] by simp
    then have "mirrors view m (map (\<lambda>n. folded n x s) ns)"
      by (rule mirrors_again [OF assms(1)])
    moreover have "map (told V m ev) ns = map (\<lambda>n. folded n x s) ns"
      using Some RequestedChange assms(3) by (intro map_cong) simp_all
    moreover have "fold_report ev m = m"
      by (simp add: RequestedChange)
    ultimately show ?thesis
      by (simp only:)
  qed (use RequestedChange assms(1) in \<open>simp add: map_idI\<close>)
qed (use assms mirrors_report in \<open>auto simp: map_idI told_report\<close>)

lemma mirrors_tick: "mirrors view m ns \<Longrightarrow> mirrors view m (map (\<lambda>n. fst (tick n t)) ns)"
  by (auto simp: mirrors_def view_tick)

lemma mirrors_sync:
  "mirrors view m ns \<Longrightarrow> (\<And>d s. (d, s) \<in> set log \<Longrightarrow> store_get m d (kind s) = Some s) \<Longrightarrow>
    mirrors view m (map (fold (\<lambda>(d, s) n. folded n d s) log) ns)"
proof (induction log arbitrary: ns)
  case (Cons x log)
  obtain d s where x: "x = (d, s)"
    by fastforce
  have "mirrors view m (map (\<lambda>n. folded n d s) ns)"
    using Cons.prems x by (intro mirrors_again) auto
  from Cons.IH [OF this] Cons.prems(2) show ?case
    by (simp add: x comp_def)
qed simp

end

text \<open>The house of an engine whose northbound adapters are of this kind: it follows its own store.\<close>

definition follows ::
  "('n \<Rightarrow> device_id \<Rightarrow> capability_kind \<Rightarrow> capability_state option) \<Rightarrow> ('x, 'n) engine \<Rightarrow> bool" where
  "follows view e \<longleftrightarrow> engine_wf e \<and> mirrors view (e_state e) (e_northbound e)"

locale mirror_house = mirror folded tick view
  for folded :: "'n \<Rightarrow> device_id \<Rightarrow> capability_state \<Rightarrow> 'n" and tick and view +
  fixes V :: "('x, 'n) vtable"
  assumes table: "nb_folded (nb V) = folded" "nb_tick (nb V) = tick"
begin

lemma follows_step:
  assumes e: "follows view e" and q: "e_queue e = (ev, d) # q"
    and run: "process_event n V ev d (e\<lparr>e_queue := q\<rparr>) = Done e'"
  shows "follows view e'"
proof -
  let ?e = "e\<lparr>e_queue := q\<rparr>"
  have wf: "engine_wf e'"
    using wired.process_I [OF _ q run, of "e_scenes e"] e by (simp add: wired_def follows_def)
  show ?thesis
  proof (cases "e_max_depth e < d")
    case True
    with run have "e' = notify (CascadeDropped ev d) ?e"
      by (simp add: process_event_dropped)
    with e show ?thesis
      by (simp add: follows_def)
  next
    case False
    then have d: "d \<le> e_max_depth ?e"
      by simp
    have "e_state e' = fold_report ev (e_state e)"
      using process_event_step [OF run d] by (simp add: event_step_def)
    moreover have "e_northbound e' = map (told V (e_state e) ev) (e_northbound e)"
      using process_event_northbound [OF run d] by simp
    ultimately show ?thesis
      using wf e mirrors_event [of "e_state e" "e_northbound e" V ev] table
      by (simp add: follows_def engine_wf_parts)
  qed
qed

lemma follows_tick: "follows view e \<Longrightarrow> follows view (tick_adapters V e)"
  using mirrors_tick
  by (simp add: follows_def) (simp add: tick_adapters_def Let_def table comp_def)

lemma follows_sync: "follows view e \<Longrightarrow> follows view (sync_northbound V e)"
  using mirrors_sync [of "e_state e" "e_northbound e" "store_iter (e_state e)"]
  by (auto simp: follows_def sync_northbound_def table engine_wf_parts store_iter_get)

end

sublocale mirror_house \<subseteq> loop: loop_invariant n V "follows view" for n
  by unfold_locales (rule follows_step)

context mirror_house
begin

lemma follows_turn:
  assumes "follows view e"
    and "start n V e = Some (Done e') \<or> inject n V ev e = Some (Done e') \<or> advance n V dt e = Some (Done e')"
  shows "follows view e'"
proof -
  have drain: "follows view g" if "drain n V f = Some (Done g)" "follows view f" for f g
    using loop.drain_I that by blast
  have "follows view (enqueue ev 0 e)" and "follows view (e\<lparr>e_now := e_now e + dt\<rparr>)"
    using assms(1) by (simp_all add: follows_def)
  then show ?thesis
    using assms unfolding start_def inject_def advance_def
    by (auto simp: run_bind_Done intro!: follows_sync intro: drain [OF _ follows_tick] drain)
qed

end

definition mock_view ::
  "mock_northbound \<Rightarrow> device_id \<Rightarrow> capability_kind \<Rightarrow> capability_state option" where
  "mock_view n d k = map_option snd (find (\<lambda>(d', s). d' = d \<and> kind s = k) (rev (mirrored n)))"

interpretation mock_mirror: mirror mock_nb_folded mock_nb_tick mock_view
  by unfold_locales (auto simp: mock_nb_folded_def mock_nb_tick_def mock_view_def fun_eq_iff)

definition mirrored_house :: "('x, mock_northbound) engine \<Rightarrow> bool" where
  "mirrored_house e \<longleftrightarrow> engine_wf e \<and> mirrors mock_view (e_state e) (e_northbound e)"

definition mock_vtable :: "'x adapter_ops \<Rightarrow> ('x, mock_northbound) vtable" where
  "mock_vtable D = \<lparr>dev = D, nb = mock_nb_ops\<rparr>"

interpretation mock_house: mirror_house mock_nb_folded mock_nb_tick mock_view "mock_vtable D" for D
  by unfold_locales (simp_all add: mock_vtable_def mock_nb_ops_def)

text \<open>
  A northbound adapter mirrors the store. After the start and after every injected event or
  advance, what a consumer reads from it is the store, whatever it had queued or shown before.
\<close>

theorem mirror_follows_store:
  assumes "mirrored_house e"
    and "start n (mock_vtable D) e = Some (Done e') \<or> inject n (mock_vtable D) ev e = Some (Done e') \<or>
      advance n (mock_vtable D) dt e = Some (Done e')"
  shows "mirrored_house e'"
proof -
  have house: "mirrored_house g \<longleftrightarrow> follows mock_view g" for g :: "('x, mock_northbound) engine"
    by (simp add: follows_def mirrored_house_def)
  show ?thesis
    using assms unfolding house by (rule mock_house.follows_turn)
qed

theorem mirror_follows_store_witness:
  "mock_view (e_northbound moved_house ! 0) (DeviceId 2) KSwitch =
    store_get (e_state moved_house) (DeviceId 2) KSwitch"
proof -
  have "mirrored_house small_house"
    using small_house_wf small_house_fresh
    by (simp add: mirrored_house_def mirrors_def store_get_def)
      (simp add: small_house_def add_rule_def bind_device_def add_northbound_def add_adapter_def
        new_engine_def mock_view_def mock_nb_new_def)
  then have "mirrored_house moved_house"
    by (rule mirror_follows_store [where n = 1 and D = virtual_ops and dt = 0 and
          ev = "StateReported (DeviceId 1) (Occupancy True)"])
      (use moved_house_inject in \<open>simp add: virtual_house_def mock_vtable_def\<close>)
  moreover have "length (e_northbound moved_house) = 1"
    by code_simp
  ultimately show ?thesis
    by (simp add: mirrored_house_def mirrors_def)
qed

end
