(* ===== verification/Sustained.thy ===== *)
theory Sustained
  imports Reactions
begin

text \<open>
  Sustained rules: a rule with \<open>for:\<close> acts only when its predicate has held for the whole duration.
  The engine keeps at most one timer a rule, and a pending timer means that the predicate of its rule
  holds in the store now.
\<close>

section \<open>The invariant\<close>

definition rules_ok :: "rule list \<Rightarrow> bool" where
  "rules_ok rs \<longleftrightarrow> distinct (map r_id rs) \<and>
     list_all (\<lambda>r. r_for r \<noteq> None \<longrightarrow> watched (r_trigger r) \<noteq> None) rs"

text \<open>The test of \<open>cancel_reverted_for_timers\<close>, on the rules and the store.\<close>

definition holds_now :: "store \<Rightarrow> rule list \<Rightarrow> rule_id \<Rightarrow> bool" where
  "holds_now m rs i \<longleftrightarrow>
     (case find (\<lambda>r. r_id r = i) rs of Some r \<Rightarrow> predicate_holds (r_trigger r) m | None \<Rightarrow> False)"

definition sustained :: "('x, 'n) engine \<Rightarrow> bool" where
  "sustained e \<longleftrightarrow> rules_ok (e_rules e) \<and> hm_wf (e_pending_for e) \<and>
     list_all (\<lambda>(i, _). holds_now (e_state e) (e_rules e) i) (e_pending_for e)"

lemma find_rule_distinct:
  "distinct (map r_id rs) \<Longrightarrow> r \<in> set rs \<Longrightarrow> find (\<lambda>r'. r_id r' = r_id r) rs = Some r"
  by (induction rs) auto

lemma reverted_rules_eq:
  "reverted_rules e =
    filter (\<lambda>i. \<not> holds_now (e_state e) (e_rules e) i) (map fst (e_pending_for e))"
  by (auto simp: reverted_rules_def find_rule_def holds_now_def split: option.splits
      intro!: filter_cong)

section \<open>What the operations do to the pending timers\<close>

lemma call_scheduler_pending:
  "call_scheduler V c e = Done f \<Longrightarrow> e_pending_for f = e_pending_for e"
  by (drule dispatch_frame_call_scheduler) (rule dispatch_frame_config)

lemma hm_remove_absent: "hm_get m k = None \<Longrightarrow> hm_remove k m = m"
  by (simp add: map_of_eq_None_iff delete_idem)

lemma cancel_for_pending:
  "cancel_for V i e = Done f \<Longrightarrow> e_pending_for f = hm_remove i (e_pending_for e)"
  by (auto simp: cancel_for_def hm_remove_absent split: option.splits dest: call_scheduler_pending)

lemma cancel_fors_pending:
  "run_fold (cancel_for V) is e = Done f \<Longrightarrow>
    e_pending_for f = filter (\<lambda>(i, _). i \<notin> set is) (e_pending_for e)"
proof (induction "is" arbitrary: e)
  case (Cons i js)
  then obtain g where g: "cancel_for V i e = Done g" "run_fold (cancel_for V) js g = Done f"
    by (auto simp: run_bind_Done)
  from Cons.IH [OF g(2)] cancel_for_pending [OF g(1)] show ?case
    by (auto simp: AList.delete_eq case_prod_beta intro!: filter_cong)
qed (simp add: case_prod_beta)

lemma cancel_reverted_pending:
  assumes "cancel_reverted_for_timers V e = Done f"
  shows "e_pending_for f =
    filter (\<lambda>(i, _). holds_now (e_state e) (e_rules e) i) (e_pending_for e)"
  using cancel_fors_pending [OF assms [unfolded cancel_reverted_for_timers_def]]
  by (auto simp: reverted_rules_eq intro!: filter_cong) force

lemma arm_pending:
  assumes "arm_for_timer V i d e = Done f"
  shows "\<exists>k. e_pending_for f = hm_insert i k (hm_remove i (e_pending_for e))"
proof -
  obtain g where g: "(case hm_get (e_pending_for e) i of
          Some prev \<Rightarrow>
            call_scheduler V (CancelTimer prev) (e\<lparr>e_pending_for := hm_remove i (e_pending_for e)\<rparr>)
        | None \<Rightarrow> Done e) = Done g"
    and f: "call_scheduler V (ScheduleTimer (for_key (e_for_counter g + 1)) d)
        (g\<lparr>e_for_counter := e_for_counter g + 1,
           e_pending_for := hm_insert i (for_key (e_for_counter g + 1)) (e_pending_for g)\<rparr>) = Done f"
    using assms unfolding arm_for_timer_def run_bind_Done by (auto simp: Let_def)
  have "e_pending_for g = hm_remove i (e_pending_for e)"
    using g by (auto split: option.splits dest: call_scheduler_pending simp: hm_remove_absent)
  with call_scheduler_pending [OF f] show ?thesis
    by auto
qed

lemma set_arm: "hm_wf m \<Longrightarrow> set (hm_insert i k (hm_remove i m)) \<subseteq> insert (i, k) (set m)"
  by (auto simp: set_hm_insert set_hm_remove)

lemma arms_pending:
  "run_fold (\<lambda>(i, d). arm_for_timer V i d) arms e = Done f \<Longrightarrow> hm_wf (e_pending_for e) \<Longrightarrow>
    hm_wf (e_pending_for f) \<and> fst ` set (e_pending_for f) \<subseteq> fst ` set (e_pending_for e) \<union> fst ` set arms"
proof (induction arms arbitrary: e)
  case (Cons a arms)
  obtain i d where a: "a = (i, d)"
    by fastforce
  with Cons.prems(1) obtain g where g: "arm_for_timer V i d e = Done g"
      "run_fold (\<lambda>(i, d). arm_for_timer V i d) arms g = Done f"
    by (auto simp: run_bind_Done)
  obtain k where k: "e_pending_for g = hm_insert i k (hm_remove i (e_pending_for e))"
    using arm_pending [OF g(1)] by blast
  then have wf: "hm_wf (e_pending_for g)"
    using Cons.prems(2) by simp
  have "fst ` set (e_pending_for g) \<subseteq> insert i (fst ` set (e_pending_for e))"
    using set_arm [OF Cons.prems(2), of i k] unfolding k by force
  with Cons.IH [OF g(2) wf] show ?case
    by (simp add: a) blast
qed simp

lemma dispatch_all_pending: "dispatch_all n V cs d e = Done f \<Longrightarrow> e_pending_for f = e_pending_for e"
  by (drule frame.dispatch_all_R) (rule dispatch_frame_config)

lemma dispatch_at_pending: "dispatch_at n V c k d e = Done f \<Longrightarrow> e_pending_for f = e_pending_for e"
  by (drule frame.dispatch_at_R) (rule dispatch_frame_config)

section \<open>The invariant is kept\<close>

lemma armed_holds:
  assumes "rules_ok rs" and "r \<in> set rs" and "r_for r \<noteq> None"
    and "matches (r_trigger r) ev (prior_state m ev)"
  shows "holds_now (fold_report ev m) rs (r_id r)"
proof -
  obtain d k where w: "watched (r_trigger r) = Some (d, k)"
    using assms(1-3) by (auto simp: rules_ok_def list_all_iff)
  then obtain s where "ev = StateReported d s"
    using matches_edge_watched assms(4) by blast
  moreover have "find (\<lambda>r'. r_id r' = r_id r) rs = Some r"
    using assms(1,2) by (simp add: rules_ok_def find_rule_distinct)
  ultimately show ?thesis
    using matches_edge_holds [OF w] assms(4) by (simp add: holds_now_def)
qed

lemma list_all_keys: "list_all (\<lambda>(i, _). P i) m \<longleftrightarrow> (\<forall>i \<in> fst ` set m. P i)"
  by (auto simp: list_all_iff)

lemma fold_then_cancel_pending:
  assumes "(case ev of StateReported _ _ \<Rightarrow> cancel_reverted_for_timers V (fold_state V ev e)
      | _ \<Rightarrow> Done (fold_state V ev e)) = Done f" and "sustained e"
  shows "hm_wf (e_pending_for f) \<and>
    (\<forall>i \<in> fst ` set (e_pending_for f). holds_now (fold_report ev (e_state e)) (e_rules e) i)"
proof (cases "\<exists>d s. ev = StateReported d s")
  case True
  with assms(1) have "e_pending_for f =
      filter (\<lambda>(i, _). holds_now (fold_report ev (e_state e)) (e_rules e) i) (e_pending_for e)"
    using cancel_reverted_pending [of V "fold_state V ev e" f] by (auto simp del: fold_state.simps)
  with assms(2) show ?thesis
    by (auto simp: sustained_def hm_wf_filter)
next
  case False
  with assms have "f = e" and "fold_report ev (e_state e) = e_state e"
    by (cases ev; simp)+
  with assms(2) show ?thesis
    by (simp add: sustained_def list_all_keys)
qed

lemma react_sustained:
  assumes e: "sustained e" and run: "react n V ev d e = Done g"
    and g: "e_rules g = e_rules e" "e_state g = fold_report ev (e_state e)"
  shows "sustained g"
  using run
proof (rule react_cases)
  let ?m = "fold_report ev (e_state e)" and ?prior = "prior_state (e_state e) ev"
  fix f h
  assume f: "(case ev of StateReported _ _ \<Rightarrow> cancel_reverted_for_timers V (fold_state V ev e)
      | _ \<Rightarrow> Done (fold_state V ev e)) = Done f"
    and h: "run_fold (\<lambda>(rule, d). arm_for_timer V rule d)
       (map (\<lambda>r. (r_id r, the (r_for r)))
         (filter (\<lambda>r. fires (e_state f) ev ?prior r \<and> r_for r \<noteq> None) (e_rules f)))
       (f\<lparr>e_trace := e_trace f @ map (rule_notice (e_state f))
         (filter (\<lambda>r. matches (r_trigger r) ev ?prior) (e_rules f))\<rparr>) = Done h"
    and d: "dispatch_all n V
       (concat (map r_commands (filter (\<lambda>r. fires (e_state f) ev ?prior r \<and> r_for r = None) (e_rules f))))
       d h = Done g"
  have same: "e_rules f = e_rules e"
    using after_fold_frame [OF f, of d] by (auto simp: event_frame_def same_config_def)
  note pend = fold_then_cancel_pending [OF f e]
  let ?armed = "filter (\<lambda>r. fires (e_state f) ev ?prior r \<and> r_for r \<noteq> None) (e_rules f)"
  have "holds_now ?m (e_rules e) (r_id r)" if "r \<in> set ?armed" for r
    using that e by (auto intro!: armed_holds simp: fires_def sustained_def same)
  then have armed: "\<forall>i \<in> fst ` set (map (\<lambda>r. (r_id r, the (r_for r))) ?armed). holds_now ?m (e_rules e) i"
    by auto
  let ?keys = "fst ` set (map (\<lambda>r. (r_id r, the (r_for r))) ?armed)"
  have "hm_wf (e_pending_for h) \<and> fst ` set (e_pending_for h) \<subseteq> fst ` set (e_pending_for f) \<union> ?keys"
    using arms_pending [OF h] pend by (simp del: set_map)
  then have "hm_wf (e_pending_for h) \<and> (\<forall>i \<in> fst ` set (e_pending_for h). holds_now ?m (e_rules e) i)"
    using pend armed by blast
  moreover have "e_pending_for g = e_pending_for h"
    using d by (rule dispatch_all_pending)
  ultimately show ?thesis
    using e g by (simp add: sustained_def list_all_keys)
qed

lemma fire_pending:
  assumes "fire_elapsed_for n V key e = Done f"
  shows "e_pending_for f = e_pending_for e \<or> (\<exists>i. e_pending_for f = hm_remove i (e_pending_for e))"
proof (cases "find (\<lambda>(_, k). k = key) (e_pending_for e)")
  case (Some p)
  obtain i k where p: "p = (i, k)"
    by fastforce
  let ?e = "e\<lparr>e_pending_for := hm_remove i (e_pending_for e)\<rparr>"
  have "f = ?e \<or> (\<exists>cs. dispatch_all n V cs 0 ?e = Done f)"
    using assms Some p by (auto simp: fire_elapsed_for_def Let_def split: option.splits if_splits)
  then have "e_pending_for f = e_pending_for ?e"
    using dispatch_all_pending by blast
  then show ?thesis
    by auto
qed (use assms in \<open>simp add: fire_elapsed_for_def\<close>)

lemma sustained_pending:
  assumes e: "sustained e" and "e_rules g = e_rules e" and "e_state g = e_state e"
    and g: "e_pending_for g = e_pending_for e \<or> (\<exists>i. e_pending_for g = hm_remove i (e_pending_for e))"
  shows "sustained g"
  using assms by (auto simp: sustained_def list_all_iff set_hm_remove)

lemma sustained_step:
  assumes e: "sustained e" and q: "e_queue e = (ev, d) # q"
    and run: "process_event n V ev d (e\<lparr>e_queue := q\<rparr>) = Done g"
  shows "sustained g"
proof (cases "e_max_depth e < d")
  case True
  with run have "g = notify (CascadeDropped ev d) (e\<lparr>e_queue := q\<rparr>)"
    by (simp add: process_event_dropped)
  with e show ?thesis
    by (simp add: sustained_def)
next
  case False
  let ?e = "notify (EventReceived ev d) (e\<lparr>e_queue := q\<rparr>)"
  have "event_step V ev d (e\<lparr>e_queue := q\<rparr>) g"
    using process_event_step [OF run] False by simp
  then have same: "e_rules g = e_rules e" "e_state g = fold_report ev (e_state e)"
    by (simp_all add: event_step_def same_config_def)
  have live: "sustained ?e"
    using e by (simp add: sustained_def)
  note react = react_sustained [OF live _, of n V ev d g]
  note [simp] = process_event_def False Let_def
  show ?thesis
  proof (cases ev)
    case (RequestedChange x des)
    have "d \<le> e_max_depth (e\<lparr>e_queue := q\<rparr>)"
      using leI [OF False] by simp
    with run [unfolded RequestedChange] have "e_pending_for g = e_pending_for e"
      by (rule request_change_cases)
        (auto dest!: dispatch_frame_config(8) simp: fan_state_folded_def split: option.split)
    with e same RequestedChange show ?thesis
      by (auto intro: sustained_pending)
  next
    case (RequestedScene s)
    with run have "dispatch_at n V (ActivateScene s) 1 d ?e = Done g"
      by simp
    then have "e_pending_for g = e_pending_for e"
      by (drule_tac dispatch_at_pending) simp
    with e same RequestedScene show ?thesis
      by (auto intro: sustained_pending)
  next
    case (TimerElapsed key)
    then have st: "e_state g = e_state e"
      using same by simp
    show ?thesis
    proof (cases "hm_get (e_retries e) key = None \<and> \<not> starts_with for_prefix (timer_name key)")
      case True
      with run TimerElapsed same show ?thesis
        by (auto intro: react)
    next
      case False
      with run TimerElapsed have "e_pending_for g = e_pending_for e \<or>
          (\<exists>i. e_pending_for g = hm_remove i (e_pending_for e))"
        using fire_pending [of n V key ?e g]
        by (auto split: option.splits if_splits dest: dispatch_at_pending)
      with e same(1) st show ?thesis
        by (rule sustained_pending)
    qed
  qed (use run same in \<open>auto intro: react\<close>)
qed

interpretation sustained: engine_invariant n V sustained for n and V :: "('x, 'n) vtable"
  by unfold_locales (erule (2) sustained_step, simp_all add: sustained_def)

section \<open>Properties\<close>

lemma sustained_fresh: "rules_ok (e_rules e) \<Longrightarrow> e_pending_for e = [] \<Longrightarrow> sustained e"
  by (simp add: sustained_def)

lemma rules_kept:
  "reachable n V e0 e \<Longrightarrow> sustained e0 \<Longrightarrow> sustained e"
  using sustained.reachable_I by blast

lemma holds_now_rule:
  "holds_now m rs i \<Longrightarrow> \<exists>r \<in> set rs. r_id r = i \<and> find (\<lambda>r. r_id r = i) rs = Some r \<and> predicate_holds (r_trigger r) m"
  by (auto simp: holds_now_def find_Some_iff split: option.splits)

text \<open>
  C3: a pending \<open>for:\<close> timer is a promise about now. In every reachable engine each rule has at most
  one pending timer, and the predicate of its trigger holds in the current store, so no report that
  ended the condition was missed.
\<close>

theorem pending_for_holds:
  assumes "reachable n V e0 e" and "rules_ok (e_rules e0)" and "e_pending_for e0 = []"
  shows "distinct (map fst (e_pending_for e)) \<and>
    (\<forall>(i, key) \<in> set (e_pending_for e).
       \<exists>r \<in> set (e_rules e). r_id r = i \<and> predicate_holds (r_trigger r) (e_state e))"
proof -
  have "sustained e"
    using assms rules_kept sustained_fresh by blast
  then show ?thesis
    using holds_now_rule by (fastforce simp: sustained_def list_all_iff)
qed

text \<open>The house after the motion has ended.\<close>

definition still_house :: "(unit, mock_northbound) engine" where
  "still_house =
     (case inject 1 virtual_house (StateReported (DeviceId 1) (Occupancy False)) moved_house of
        Some (Done e) \<Rightarrow> e
      | _ \<Rightarrow> moved_house)"

lemma still_house_reachable: "reachable 1 virtual_house small_house still_house"
proof (rule reachable.injected [OF moved_house_reachable])
  show "inject 1 virtual_house (StateReported (DeviceId 1) (Occupancy False)) moved_house =
      Some (Done still_house)"
    by code_simp
qed

lemma still_house_pending: "e_pending_for still_house = [(RuleId 1, for_key 1)]"
  by code_simp

lemma small_house_rules: "rules_ok (e_rules small_house)" "e_pending_for small_house = []"
  by code_simp+

theorem pending_for_holds_witness:
  "\<exists>r \<in> set (e_rules still_house). r_id r = RuleId 1 \<and> predicate_holds (r_trigger r) (e_state still_house)"
  using pending_for_holds [OF still_house_reachable small_house_rules] by (simp add: still_house_pending)



end
