(* ===== verification/Failures.thy ===== *)
theory Failures
  imports Sustained
begin

text \<open>
  Failure and retry: the backoff, what becomes of a command an adapter refused, the bound on its
  attempts, and the commands themselves: how intents and relative commands are resolved.
\<close>

section \<open>Backoff\<close>

lemma unat_backoff:
  "unat (backoff p k) =
    min (unat (base_backoff p) * 2 ^ (min (unat k) 16 - 1)) (2 ^ 64 - 1)"
proof -
  let ?s = "saturating_sub (min k 16) 1"
  have k: "unat (min k 16) = min (unat k) 16"
    by (simp add: min_def word_le_nat_alt)
  then have s: "unat ?s = min (unat k) 16 - 1"
    by simp
  then have "2 ^ unat ?s < (2 :: nat) ^ 64"
    by (intro power_strict_increasing) auto
  then have "unat (push_bit (unat ?s) 1 :: 64 word) = 2 ^ unat ?s"
    by (simp only: unsigned_push_bit_eq unsigned_1) (simp add: take_bit_eq_mod push_bit_eq_mult)
  then show ?thesis
    by (simp add: backoff_def Let_def unat_saturating_mul s k)
qed

text \<open>
  Exponential backoff. The delay before the next attempt is the base doubled for each failed
  attempt after the first, up to the sixteenth; it saturates instead of wrapping around, so it never
  shrinks from one attempt to the next.
\<close>

theorem backoff_exact:
  "unat (backoff p k) = min (unat (base_backoff p) * 2 ^ (min (unat k) 16 - 1)) (2 ^ 64 - 1) \<and>
   backoff p (min k k') \<le> backoff p k"
proof
  have "min (unat (min k k')) 16 - 1 \<le> min (unat k) 16 - 1"
    by (auto simp: min_def word_le_nat_alt)
  then show "backoff p (min k k') \<le> backoff p k"
    unfolding word_le_nat_alt unat_backoff
    by (intro min.mono mult_le_mono power_increasing) auto
qed (rule unat_backoff)

section \<open>What becomes of a refused command\<close>

lemma call_scheduler_only:
  "call_scheduler V c e = Done f \<Longrightarrow> \<exists>as. f = e\<lparr>e_adapters := as\<rparr>"
  by (auto simp: call_scheduler_def call_adapter_def Let_def run_bind_Done split: if_splits prod.splits)

lemma call_scheduler_eq:
  assumes "engine_wf e"
  shows "call_scheduler V c e = Done (e\<lparr>e_adapters :=
    Scheduler (fst (sched_dispatch (timers (e_adapters e)) c (e_now e))) # tl (e_adapters e)\<rparr>)"
proof -
  obtain s ds where "e_adapters e = Scheduler s # ds"
    using engine_wf_parts(1) [OF assms] by (rule adapters_wf_cases)
  then show ?thesis
    by (simp add: call_scheduler_def call_adapter_def map_prod_def split: prod.split)
qed

text \<open>
  C39: a failed dispatch. A transient failure with attempts left is remembered under a new key, with
  the next attempt, and the scheduler holds a timer of that key exactly the backoff away; nothing is
  queued. A permanent failure, or the last transient one, queues one failure event, one hop deeper,
  and touches neither the retries nor the adapters.
\<close>

theorem failed_dispatch:
  assumes "engine_wf e"
  shows "(k < max_attempts (e_retry e) \<longrightarrow>
      (\<exists>e'. handle_outcome V (Transient reason) c k depth e = Done e' \<and>
        e_retries e' = hm_insert (retry_key (e_retry_counter e + 1))
          \<lparr>pr_command = c, pr_attempt = k + 1\<rparr> (e_retries e) \<and>
        hm_get (timers (e_adapters e')) (retry_key (e_retry_counter e + 1)) =
          Some (e_now e + backoff (e_retry e) k) \<and>
        e_queue e' = e_queue e)) \<and>
    (out = Permanent reason \<or> out = Transient reason \<and> \<not> k < max_attempts (e_retry e) \<longrightarrow>
      handle_outcome V out c k depth e = Done (e\<lparr>
        e_trace := e_trace e @ [DispatchFailed c reason (out \<noteq> Permanent reason) k, GaveUp c reason k],
        e_queue := e_queue e @ [(CommandFailed c reason k, depth + 1)]\<rparr>))"
proof (intro conjI impI)
  assume k: "k < max_attempts (e_retry e)"
  let ?e = "notify (RetryScheduled c (k + 1) (backoff (e_retry e) k))
    ((notify (DispatchFailed c reason True k) e)\<lparr>
      e_retries := hm_insert (retry_key (e_retry_counter e + 1))
        \<lparr>pr_command = c, pr_attempt = k + 1\<rparr> (e_retries e),
      e_retry_counter := e_retry_counter e + 1\<rparr>)"
  have "engine_wf ?e"
    using assms by (simp add: engine_wf_parts)
  from call_scheduler_eq [OF this, of V] k
  show "\<exists>e'. handle_outcome V (Transient reason) c k depth e = Done e' \<and>
        e_retries e' = hm_insert (retry_key (e_retry_counter e + 1))
          \<lparr>pr_command = c, pr_attempt = k + 1\<rparr> (e_retries e) \<and>
        hm_get (timers (e_adapters e')) (retry_key (e_retry_counter e + 1)) =
          Some (e_now e + backoff (e_retry e) k) \<and>
        e_queue e' = e_queue e"
    by (simp add: schedule_retry_eq Let_def)
next
  assume "out = Permanent reason \<or> out = Transient reason \<and> \<not> k < max_attempts (e_retry e)"
  then show "handle_outcome V out c k depth e = Done (e\<lparr>
        e_trace := e_trace e @ [DispatchFailed c reason (out \<noteq> Permanent reason) k, GaveUp c reason k],
        e_queue := e_queue e @ [(CommandFailed c reason k, depth + 1)]\<rparr>)"
    by (auto simp: give_up_def enqueue_def notify_def)
qed

theorem failed_dispatch_witness:
  "\<exists>e'. handle_outcome virtual_house (Transient ''timeout'') (SetSwitch (DeviceId 2) True) 1 0 small_house =
      Done e' \<and> hm_get (timers (e_adapters e')) (retry_key 1) = Some 1000"
proof -
  have lt: "(1 :: u32) < max_attempts (e_retry small_house)"
    by code_simp
  have n: "e_retry_counter small_house + 1 = 1"
    by code_simp
  have "backoff default_retry 1 = 1000"
    by (simp add: word_unat_eq_iff unat_backoff default_retry_def)
  moreover have "e_now small_house = 0" "e_retry small_house = default_retry"
    by code_simp+
  ultimately have d: "e_now small_house + backoff (e_retry small_house) 1 = 1000"
    by simp
  from failed_dispatch [OF small_house_wf, THEN conjunct1, rule_format, OF lt]
  show ?thesis
    unfolding n d by blast
qed

section \<open>The bound on the attempts\<close>

definition retries_ok :: "retry_policy \<Rightarrow> (timer_key, pending_retry) hashmap \<Rightarrow> bool" where
  "retries_ok pol rs \<longleftrightarrow>
     (\<forall>p \<in> snd ` set rs. pr_attempt p \<le> max_attempts pol \<and>
       \<not> is_timer_command (pr_command p) \<and> \<not> is_scene_command (pr_command p))"

definition retrying :: "retry_policy \<Rightarrow> ('x, 'n) engine \<Rightarrow> bool" where
  "retrying pol e \<longleftrightarrow> e_retry e = pol \<and> retries_ok pol (e_retries e)"

lemma set_update_subset: "set (hm_insert k v m) \<subseteq> insert (k, v) (set m)"
  by (induction m) auto

lemma retries_ok_insert:
  "retries_ok pol rs \<Longrightarrow> pr_attempt p \<le> max_attempts pol \<Longrightarrow> \<not> is_timer_command (pr_command p) \<Longrightarrow>
    \<not> is_scene_command (pr_command p) \<Longrightarrow> retries_ok pol (hm_insert key p rs)"
  using set_update_subset [of key p rs] by (fastforce simp: retries_ok_def)

lemma retries_ok_remove: "retries_ok pol rs \<Longrightarrow> retries_ok pol (hm_remove key rs)"
  by (auto simp: retries_ok_def set_hm_remove)

lemma retrying_frame [simp]:
  "retrying pol (notify m e) = retrying pol e"
  "retrying pol (enqueue_all evs d e) = retrying pol e"
  "retrying pol (enqueue ev d e) = retrying pol e"
  "retrying pol (give_up c reason k d e) = retrying pol e"
  "retrying pol (e\<lparr>e_adapters := as\<rparr>) = retrying pol e"
  "retrying pol (e\<lparr>e_trace := t\<rparr>) = retrying pol e"
  "retrying pol (e\<lparr>e_queue := q\<rparr>) = retrying pol e"
  "retrying pol (e\<lparr>e_now := now\<rparr>) = retrying pol e"
  "retrying pol (e\<lparr>e_northbound := ns\<rparr>) = retrying pol e"
  "retrying pol (e\<lparr>e_pending_for := ps\<rparr>) = retrying pol e"
  "retrying pol (e\<lparr>e_for_counter := n\<rparr>) = retrying pol e"
  "retrying pol (fan_state_folded V x s e) = retrying pol e"
  by (simp_all add: retrying_def enqueue_is_enqueue_all give_up_def fan_state_folded_def)

lemma retrying_fold [simp]: "retrying pol (fold_state V ev e) = retrying pol e"
  by (cases ev) (simp_all add: Let_def retrying_def fan_state_folded_def)

lemma retrying_scheduler:
  "call_scheduler V c e = Done f \<Longrightarrow> retrying pol f = retrying pol e"
  by (drule call_scheduler_only) auto

lemma retrying_call:
  "call_adapter V i c e = Done (f, out) \<Longrightarrow> retrying pol f = retrying pol e"
  by (auto simp: call_adapter_def split: if_splits prod.splits)

lemma retrying_handle:
  assumes "handle_outcome V out c k d e = Done f" and "retrying pol e"
    and "\<not> is_timer_command c" and "\<not> is_scene_command c"
  shows "retrying pol f"
proof (cases "\<exists>reason. out = Transient reason \<and> k < max_attempts (e_retry e)")
  case True
  then obtain reason where out: "out = Transient reason" and k: "k < max_attempts (e_retry e)"
    by blast
  then have "k + 1 \<le> max_attempts (e_retry e)"
    by (simp add: inc_le)
  with assms(2-4) have "retrying pol (e\<lparr>e_retries := hm_insert (retry_key (e_retry_counter e + 1))
      \<lparr>pr_command = c, pr_attempt = k + 1\<rparr> (e_retries e), e_retry_counter := e_retry_counter e + 1\<rparr>)"
    by (auto simp: retrying_def intro!: retries_ok_insert)
  moreover have "schedule_retry V c k (notify (DispatchFailed c reason True k) e) = Done f"
    using assms(1) out k by simp
  ultimately show ?thesis
    unfolding schedule_retry_eq Let_def by (auto dest!: retrying_scheduler [of _ _ _ _ pol] simp: retrying_def)
next
  case False
  with assms(1,2) show ?thesis
    by (cases out) (auto simp: Let_def)
qed

interpretation retrying: dispatch_relation V depth "\<lambda>e f. retrying pol e \<longrightarrow> retrying pol f"
  for V :: "('x, 'n) vtable" and depth pol
proof
  fix c :: command and e e' :: "('x, 'n) engine" and attempt
  assume "\<not> is_timer_command c" "\<not> is_scene_command c" "dispatch_device V c attempt depth e = Done e'"
  then show "retrying pol e \<longrightarrow> retrying pol e'"
    unfolding dispatch_device_eq
    by (auto split: option.splits dest: retrying_handle retrying_call [THEN iffD2]
        simp del: handle_outcome.simps)
next
  fix c :: command and e e' :: "('x, 'n) engine"
  assume "dispatch_scheduler V c depth e = Done e'"
  then show "retrying pol e \<longrightarrow> retrying pol e'"
    unfolding dispatch_scheduler_eq
    by (elim exE conjE, rename_tac f out, case_tac out) (auto simp: retrying_call)
qed auto

lemma retrying_cancel_for: "cancel_for V i e = Done f \<Longrightarrow> retrying pol f = retrying pol e"
  by (auto simp: cancel_for_def split: option.splits dest: retrying_scheduler [of _ _ _ _ pol])

lemma retrying_arm: "arm_for_timer V i d e = Done f \<Longrightarrow> retrying pol f = retrying pol e"
  unfolding arm_for_timer_def Let_def run_bind_Done
  by (auto split: option.splits dest!: retrying_scheduler [of _ _ _ _ pol])

lemma retrying_run_fold:
  assumes "run_fold f cs e = Done g"
    and "\<And>c e g. f c e = Done g \<Longrightarrow> retrying pol g = retrying pol e"
  shows "retrying pol g = retrying pol e"
  using assms(1)
  by (rule run_fold_relation [where R = "\<lambda>e g. retrying pol g = retrying pol e", rotated 3])
    (auto simp: assms(2))

lemma retrying_fire:
  "fire_elapsed_for n V key e = Done f \<Longrightarrow> retrying pol e \<Longrightarrow> retrying pol f"
  unfolding fire_elapsed_for_def Let_def
  by (auto split: option.splits prod.splits if_splits dest!: retrying.dispatch_all_R [where pol = pol])

lemma retrying_react:
  assumes "react n V ev d e = Done g" and e: "retrying pol e"
  shows "retrying pol g"
  using assms(1)
proof (rule react_cases)
  fix f h arms ns cmds
  assume f: "(case ev of StateReported _ _ \<Rightarrow> cancel_reverted_for_timers V (fold_state V ev e)
      | _ \<Rightarrow> Done (fold_state V ev e)) = Done f"
    and h: "run_fold (\<lambda>(rule, d). arm_for_timer V rule d)
       (map (\<lambda>r. (r_id r, the (r_for r)))
         (filter (\<lambda>r. fires (e_state f) ev (prior_state (e_state e) ev) r \<and> r_for r \<noteq> None) (e_rules f)))
       (f\<lparr>e_trace := e_trace f @ map (rule_notice (e_state f))
         (filter (\<lambda>r. matches (r_trigger r) ev (prior_state (e_state e) ev)) (e_rules f))\<rparr>) = Done h"
    and g: "dispatch_all n V
       (concat (map r_commands
         (filter (\<lambda>r. fires (e_state f) ev (prior_state (e_state e) ev) r \<and> r_for r = None) (e_rules f))))
       d h = Done g"
  have "retrying pol f"
  proof (cases "\<exists>x s. ev = StateReported x s")
    case True
    with f have "run_fold (cancel_for V) (reverted_rules (fold_state V ev e)) (fold_state V ev e) = Done f"
      by (auto simp: cancel_reverted_for_timers_def simp del: fold_state.simps)
    then have "retrying pol f = retrying pol (fold_state V ev e)"
      by (rule retrying_run_fold) (rule retrying_cancel_for)
    with e show ?thesis
      by simp
  next
    case False
    with f e show ?thesis
      by (cases ev) auto
  qed
  moreover have "retrying pol h = retrying pol f"
    using retrying_run_fold [OF h, of pol] by (auto dest: retrying_arm [of _ _ _ _ _ pol])
  ultimately show ?thesis
    using retrying.dispatch_all_R [OF g] by blast
qed

lemma retrying_remove [simp]:
  "retrying pol e \<Longrightarrow> retrying pol (e\<lparr>e_retries := hm_remove key (e_retries e)\<rparr>)"
  by (simp add: retrying_def retries_ok_remove)

lemma retrying_request:
  assumes "request_change n V x des d e = Done g" and "retrying pol e"
  shows "retrying pol g"
  using assms unfolding request_change_def run_bind_Done
  by (auto split: option.splits dest!: retrying.dispatch_at_R [where pol = pol])

lemma retrying_step:
  assumes "retrying pol e" and "e_queue e = (ev, d) # q"
    and "process_event n V ev d (e\<lparr>e_queue := q\<rparr>) = Done g"
  shows "retrying pol g"
proof -
  let ?e = "notify (EventReceived ev d) (e\<lparr>e_queue := q\<rparr>)"
  have e: "retrying pol ?e"
    using assms(1) by simp
  then have "retrying pol (?e\<lparr>e_retries := hm_remove key (e_retries ?e)\<rparr>)" for key
    by (rule retrying_remove)
  with e assms show ?thesis
    unfolding process_event_def Let_def
    by (auto split: if_splits event.splits option.splits
        dest: retrying.dispatch_at_R [where pol = pol]
        intro: retrying_react retrying_fire retrying_request)
qed

interpretation retries: engine_invariant n V "retrying pol" for n and V :: "('x, 'n) vtable" and pol
  by unfold_locales (erule (2) retrying_step, simp_all add: tick_adapters_def Let_def)

text \<open>
  Retries are bounded. In a reachable engine every pending retry is of a command for a device and
  is at most attempt \<open>max_attempts\<close>, so a command is handed to an adapter at most that often for each
  time it is issued.
\<close>

theorem retries_bounded:
  assumes "reachable n V e0 e" and "e_retries e0 = []"
  shows "(key, p) \<in> set (e_retries e) \<longrightarrow>
    pr_attempt p \<le> max_attempts (e_retry e0) \<and> \<not> is_timer_command (pr_command p) \<and>
    \<not> is_scene_command (pr_command p)"
proof -
  have "retrying (e_retry e0) e0"
    using assms(2) by (simp add: retrying_def retries_ok_def)
  with assms(1) have "retrying (e_retry e0) e"
    using retries.reachable_I by blast
  then show ?thesis
    by (force simp: retrying_def retries_ok_def)
qed

text \<open>The house with an adapter that always times out.\<close>

definition flaky_ops :: "unit adapter_ops" where
  "flaky_ops = virtual_ops\<lparr>op_dispatch := (\<lambda>x c t. (x, Transient ''timeout''))\<rparr>"

definition flaky_house :: "(unit, mock_northbound) engine" where
  "flaky_house =
     (case inject 1 (mock_vtable flaky_ops) (RequestedChange (DeviceId 2) Toggle) small_house of
        Some (Done e) \<Rightarrow> e
      | _ \<Rightarrow> small_house)"

lemma flaky_house_reachable: "reachable 1 (mock_vtable flaky_ops) small_house flaky_house"
proof (rule reachable.injected [OF reachable.boot])
  show "start 1 (mock_vtable flaky_ops) small_house = Some (Done small_house)"
    by code_simp
  show "inject 1 (mock_vtable flaky_ops) (RequestedChange (DeviceId 2) Toggle) small_house =
      Some (Done flaky_house)"
    by code_simp
qed

lemma flaky_house_retries:
  "e_retries flaky_house =
    [(retry_key 1, \<lparr>pr_command = ToggleSwitch (DeviceId 2), pr_attempt = 2\<rparr>)]"
  by code_simp

theorem retries_bounded_witness:
  "(2 :: u32) \<le> max_attempts (e_retry small_house) \<and> \<not> is_scene_command (ToggleSwitch (DeviceId 2))"
proof -
  have "e_retries small_house = []"
    by code_simp
  from retries_bounded [OF flaky_house_reachable this, of "retry_key 1"
      "\<lparr>pr_command = ToggleSwitch (DeviceId 2), pr_attempt = 2\<rparr>"]
  show ?thesis
    by (simp add: flaky_house_retries)
qed

section \<open>Reserved timer keys\<close>

text \<open>
  The compiler takes any text for the key of a timer, also one in the name space the engine keeps for
  itself. Such a timer is scheduled and elapses, but a rule that waits for it never sees it.
\<close>

theorem reserved_timer_swallowed:
  assumes "d \<le> e_max_depth e" and "starts_with for_prefix (timer_name key)"
    and "hm_get (e_retries e) key = None" and "key \<notin> snd ` set (e_pending_for e)"
  shows "process_event n V (TimerElapsed key) d e = Done (notify (EventReceived (TimerElapsed key) d) e)"
proof -
  have "find (\<lambda>(_, k). k = key) (e_pending_for e) = None"
    using assms(4) by (auto simp: find_None_iff image_iff)
  with assms(1-3) show ?thesis
    by (simp add: process_event_def fire_elapsed_for_def notify_def not_less [symmetric] Let_def)
qed

theorem reserved_timer_swallowed_witness:
  "process_event 1 virtual_house (TimerElapsed (TimerKey ''__for:mine'')) 0 small_house =
     Done (notify (EventReceived (TimerElapsed (TimerKey ''__for:mine'')) 0) small_house)"
proof (rule reserved_timer_swallowed)
  show "hm_get (e_retries small_house) (TimerKey ''__for:mine'') = None"
    and "TimerKey ''__for:mine'' \<notin> snd ` set (e_pending_for small_house)"
    by code_simp+
qed (simp_all add: for_prefix_def starts_with_def)

end
