(* ===== verification/Intents.thy ===== *)
theory Intents
  imports Failures
begin

text \<open>
  What an intent becomes: the command for a wanted state and its echo, relative changes resolved
  against the store, and how long the host may sleep.
\<close>

section \<open>Commands for states\<close>

text \<open>
  A state can be asked for iff its kind is writable; the command is for that device, and a device
  that echoes what it is told reports exactly the state asked for.
\<close>

theorem wanted_state_is_echoed:
  "case command_for_state d s of
     None \<Rightarrow> \<not> is_writable (kind s)
   | Some c \<Rightarrow> is_writable (kind s) \<and> target_device c = Some d \<and>
       virtual_dispatch c t = Ok [StateReported d s]"
  by (cases s) simp_all

section \<open>Relative commands\<close>

lemma uint_clamp_u8: "uint (word_of_int (clamp 0 100 x) :: u8) = clamp 0 100 x"
  using clamp_bounds [of 0 100 x] by (simp add: uint_word_of_int)

lemma sint_abs_u8: "uint (word_of_int \<bar>sint w\<bar> :: u8) = \<bar>sint w\<bar>" for w :: i8
proof -
  have "- 128 \<le> sint w" "sint w < 128"
    using sint_greater_eq [of w] sint_less [of w] by simp_all
  then have "0 \<le> \<bar>sint w\<bar>" "\<bar>sint w\<bar> < 256"
    by linarith+
  then show ?thesis
    by (simp add: uint_word_of_int)
qed

lemma i8_magnitude:
  "0 < sint w \<Longrightarrow> uint w = sint w" "sint w < 0 \<Longrightarrow> uint (- w) = - sint w" for w :: i8
  using sint_abs_u8 [of w] by simp_all

text \<open>
  A relative change of brightness is exact. With a known brightness the command is to set the
  sum, kept within 0 to 100 without wrapping around in the device's byte; with an unknown one the
  relative command is passed on; a change by nothing is no command.
\<close>

theorem adjust_brightness_exact:
  "case command_for_requested_change d (AdjustBrightness delta) of
     None \<Rightarrow> sint delta = 0
   | Some c \<Rightarrow> sint delta \<noteq> 0 \<and>
       (case num_value m d KBrightness of
          None \<Rightarrow> resolve_implicit m c = c
        | Some b \<Rightarrow> \<exists>v. resolve_implicit m c = SetBrightness d v None \<and>
            uint v = clamp 0 100 (b + sint delta))"
  by (auto simp: uint_clamp_u8 i8_magnitude split: option.split)

text \<open>
  A toggle is resolved against the store at its dispatch: to the opposite of the reported value,
  or not at all when none was reported. Resolving is idempotent and keeps the target.
\<close>

theorem resolve_toggle:
  "resolve_implicit m (ToggleSwitch d) =
     (case store_get m d KSwitch of
        Some (Switch on) \<Rightarrow> SetSwitch d (\<not> on)
      | Some s \<Rightarrow> (case as_bool s of Some b \<Rightarrow> SetSwitch d (\<not> b) | None \<Rightarrow> ToggleSwitch d)
      | None \<Rightarrow> ToggleSwitch d) \<and>
   resolve_implicit m (resolve_implicit m c) = resolve_implicit m c \<and>
   target_device (resolve_implicit m c) = target_device c"
  by (cases c) (auto simp: switch_is_def bool_value_def split: option.split capability_state.split)

section \<open>The host's sleep\<close>

lemma in_map_filter: "y \<in> set (List.map_filter f xs) \<longleftrightarrow> (\<exists>x \<in> set xs. f x = Some y)"
  by (auto simp: List.map_filter_def image_iff)

lemma saturating_sub_mono: "a \<le> b \<Longrightarrow> saturating_sub a c \<le> saturating_sub b c"
  by (simp add: word_le_nat_alt diff_le_mono)

lemma sched_wake_before:
  assumes "sched_next_wake s now = Some w" and "(k, t) \<in> set s"
  shows "w \<le> saturating_sub t now"
proof -
  obtain f where "min_opt (map snd s) = Some f" and w: "w = saturating_sub f now"
    using assms(1) by (auto simp: sched_next_wake_def)
  then have "\<not> t < f"
    using assms(2) unfolding min_opt_Some_iff by force
  then show ?thesis
    by (simp add: w not_less saturating_sub_mono)
qed

text \<open>The delays the adapters ask for, the scheduler's included, and those of the northbound adapters.\<close>

definition wishes :: "('x, 'n) vtable \<Rightarrow> ('x, 'n) engine \<Rightarrow> millis list" where
  "wishes V e = List.map_filter (\<lambda>a. adapter_next_wake V a (e_now e)) (e_adapters e) @
    List.map_filter (\<lambda>n. nb_next_wake (nb V) n (e_now e)) (e_northbound e)"

lemma next_wake_delay_wishes: "next_wake_delay V e = min_opt (wishes V e)"
  by (simp add: next_wake_delay_def wishes_def)

lemma in_wishes:
  "w \<in> set (wishes V e) \<longleftrightarrow> (\<exists>a \<in> set (e_adapters e). adapter_next_wake V a (e_now e) = Some w) \<or>
    (\<exists>n \<in> set (e_northbound e). nb_next_wake (nb V) n (e_now e) = Some w)"
  by (simp only: wishes_def set_append Un_iff in_map_filter)

lemma sched_pending_wake: "(k, t) \<in> set s \<Longrightarrow> \<exists>w. sched_next_wake s now = Some w"
  by (cases s) (auto simp: sched_next_wake_def)

text \<open>
  The host never oversleeps. The delay the engine asks for is the least any adapter asks for, so
  no timer comes due during the sleep; without a delay no timer is pending and no adapter waits.
\<close>

theorem host_never_oversleeps:
  assumes "engine_wf e"
  shows "case next_wake_delay V e of
     None \<Rightarrow> timers (e_adapters e) = [] \<and>
       (\<forall>a \<in> set (e_adapters e). adapter_next_wake V a (e_now e) = None)
   | Some dt \<Rightarrow>
       (\<forall>(k, t) \<in> set (timers (e_adapters e)). dt \<le> saturating_sub t (e_now e)) \<and>
       (\<forall>a \<in> set (e_adapters e). \<forall>w. adapter_next_wake V a (e_now e) = Some w \<longrightarrow> dt \<le> w) \<and>
       ((\<exists>a \<in> set (e_adapters e). adapter_next_wake V a (e_now e) = Some dt) \<or>
        (\<exists>n \<in> set (e_northbound e). nb_next_wake (nb V) n (e_now e) = Some dt))"
proof -
  obtain s ds where as: "e_adapters e = Scheduler s # ds"
    using engine_wf_parts(1) [OF assms] by (rule adapters_wf_cases)
  show ?thesis
  proof (cases "next_wake_delay V e")
    case None
    then have "wishes V e = []"
      by (simp add: next_wake_delay_wishes)
    then have none: "adapter_next_wake V a (e_now e) = None" if "a \<in> set (e_adapters e)" for a
      using that in_wishes [of _ V e] by (cases "adapter_next_wake V a (e_now e)") auto
    from none [of "Scheduler s"] have "s = []"
      by (simp add: as sched_next_wake_def)
    with None none show ?thesis
      by (simp add: as)
  next
    case (Some dt)
    then have dt: "dt \<in> set (wishes V e)" and least: "\<And>w. w \<in> set (wishes V e) \<Longrightarrow> dt \<le> w"
      unfolding next_wake_delay_wishes min_opt_Some_iff by (auto simp: not_less)
    have "dt \<le> saturating_sub t (e_now e)" if kt: "(k, t) \<in> set s" for k t
    proof -
      obtain w where w: "sched_next_wake s (e_now e) = Some w"
        using sched_pending_wake [OF kt] by blast
      then have "w \<in> set (wishes V e)"
        unfolding in_wishes by (simp add: as)
      with sched_wake_before [OF w kt] least show ?thesis
        by (meson order_trans)
    qed
    moreover have "timers (e_adapters e) = s"
      by (simp add: as)
    ultimately show ?thesis
      using dt [unfolded in_wishes] least [unfolded in_wishes] unfolding Some option.case by blast
  qed
qed

theorem host_never_oversleeps_witness:
  "next_wake_delay virtual_house still_house = Some 5000 \<and>
   (5000 :: u64) \<le> saturating_sub (snd (hd (timers (e_adapters still_house)))) (e_now still_house)"
proof -
  have dt: "next_wake_delay virtual_house still_house = Some 5000"
    by code_simp
  have "length (timers (e_adapters still_house)) = 1"
    by code_simp
  then have "hd (timers (e_adapters still_house)) \<in> set (timers (e_adapters still_house))"
    by (intro hd_in_set) auto
  moreover have "engine_wf still_house"
    using wired.reachable_I [OF still_house_reachable] small_house_wired(1) by (simp add: wired_def)
  from host_never_oversleeps [OF this, of virtual_house] dt have
    "\<forall>kt \<in> set (timers (e_adapters still_house)). (5000 :: u64) \<le> saturating_sub (snd kt) (e_now still_house)"
    by (auto simp: case_prod_beta)
  ultimately show ?thesis
    using dt by blast
qed

end
