(* ===== verification/Config.thy ===== *)
theory Config
  imports Rules
begin

text \<open>
  The data of the compiler: diagnostics (\<open>compile/diagnostic.rs\<close>), the parsed configuration
  (\<open>compile/ast.rs\<close>) and the device definitions of \<open>compile/resolve.rs\<close>.

  The YAML library is not part of the program. A document is a \<open>yaml\<close>, the public enum of
  \<open>serde_yaml\<close> over an abstract type of numbers, and deserialization is a parameter: the record
  \<open>serde\<close> of functions that give the typed payload or the library's error message.
\<close>

section \<open>Diagnostics\<close>

datatype severity = Error | Warning

record diagnostic =
  d_severity :: severity
  d_code :: string
  d_message :: string
  d_context :: "string option"

definition diag_error :: "string \<Rightarrow> string \<Rightarrow> diagnostic" where
  "diag_error code msg = \<lparr>d_severity = Error, d_code = code, d_message = msg, d_context = None\<rparr>"

definition diag_warning :: "string \<Rightarrow> string \<Rightarrow> diagnostic" where
  "diag_warning code msg = \<lparr>d_severity = Warning, d_code = code, d_message = msg, d_context = None\<rparr>"

definition diag_at :: "string \<Rightarrow> diagnostic \<Rightarrow> diagnostic" where
  "diag_at ctx d = d\<lparr>d_context := Some ctx\<rparr>"

definition is_error :: "diagnostic \<Rightarrow> bool" where
  "is_error d \<longleftrightarrow> d_severity d = Error"

definition diag_display :: "diagnostic \<Rightarrow> string" where
  "diag_display d =
     (case d_severity d of Error \<Rightarrow> ''error'' | Warning \<Rightarrow> ''warning'') @ ''['' @ d_code d @ '']'' @
     (case d_context d of Some ctx \<Rightarrow> '' ('' @ ctx @ '')'' | None \<Rightarrow> []) @ '': '' @ d_message d"

definition compile_errors :: "diagnostic list \<Rightarrow> diagnostic list" where
  "compile_errors ds = filter is_error ds"

fun errors_display :: "diagnostic list \<Rightarrow> string" where
  "errors_display [] = []"
| "errors_display [d] = diag_display d"
| "errors_display (d # ds) = diag_display d @ [char_of (10 :: nat)] @ errors_display ds"

lemma is_error_simps [simp]:
  "is_error (diag_error c m)" "\<not> is_error (diag_warning c m)" "is_error (diag_at x d) = is_error d"
  by (simp_all add: is_error_def diag_error_def diag_warning_def diag_at_def)

text \<open>A name in single quotes, as the messages print it.\<close>

definition quoted :: "string \<Rightarrow> string" where
  "quoted s = [char_of (39 :: nat)] @ s @ [char_of (39 :: nat)]"

text \<open>An en dash, in UTF-8.\<close>

definition en_dash :: string where
  "en_dash = utf8_bytes [226, 128, 147]"

section \<open>YAML documents\<close>

datatype 'n yaml =
    Null
  | VBool bool
  | VNumber 'n
  | VString string
  | VSequence "'n yaml list"
  | VMapping "('n yaml \<times> 'n yaml) list"
  | VTagged string "'n yaml"

fun untag :: "'n yaml \<Rightarrow> 'n yaml" where
  "untag (VTagged t v) = untag v"
| "untag v = v"

definition as_str :: "'n yaml \<Rightarrow> string option" where
  "as_str v = (case untag v of VString s \<Rightarrow> Some s | _ \<Rightarrow> None)"

definition val_bool :: "'n yaml \<Rightarrow> bool option" where
  "val_bool v = (case untag v of VBool b \<Rightarrow> Some b | _ \<Rightarrow> None)"

definition as_sequence :: "'n yaml \<Rightarrow> 'n yaml list option" where
  "as_sequence v = (case untag v of VSequence vs \<Rightarrow> Some vs | _ \<Rightarrow> None)"

definition map_lookup :: "string \<Rightarrow> ('n yaml \<times> 'n yaml) list \<Rightarrow> 'n yaml option" where
  "map_lookup k m = map_of m (VString k)"

lemma size_untag: "size (untag v) \<le> size v"
  by (induction v rule: untag.induct) auto

lemma as_sequence_size: "as_sequence v = Some vs \<Longrightarrow> size_list size vs < size v"
  using size_untag [of v] by (auto simp: as_sequence_def split: yaml.splits)

section \<open>The typed payloads\<close>

record raw_switch_is =
  si_device :: string
  si_on :: bool

record raw_occupancy_is =
  oi_device :: string
  oi_occupied :: bool

record raw_changed =
  ch_device :: string
  ch_capability :: string
  ch_to :: bool

record raw_crosses =
  cr_device :: string
  cr_capability :: string
  cr_above :: "i64 option"
  cr_below :: "i64 option"

record raw_reports =
  rp_device :: string
  rp_capability :: string

record raw_compare =
  cp_device :: string
  cp_capability :: string
  cp_op :: string
  cp_value :: i64

record raw_set_brightness =
  sb_device :: string
  sb_value :: u8
  sb_transition :: "string option"

record raw_step_brightness =
  st_device :: string
  st_value :: u8

record 'n raw_set_color =
  sc_device :: string
  sc_color :: "'n yaml"
  sc_transition :: "string option"

record 'n raw_color_is =
  ci_device :: string
  ci_color :: "'n yaml"

record raw_set_color_temperature =
  ct_device :: string
  ct_kelvin :: "u32 option"
  ct_mireds :: "u16 option"
  ct_transition :: "string option"

record raw_schedule_timer =
  tm_key :: string
  tm_after :: string

record raw_send_ir_code =
  ir_device :: string
  ir_code :: string

text \<open>
  \<open>serde_yaml::from_value\<close> after \<open>apply_merge\<close>, for each payload type; the error is the message
  the library displays. \<open>de_u64\<close> is \<open>Number::as_u64\<close>.
\<close>

record 'n serde =
  de_u64 :: "'n \<Rightarrow> u64 option"
  de_switch_is :: "'n yaml \<Rightarrow> string + raw_switch_is"
  de_occupancy_is :: "'n yaml \<Rightarrow> string + raw_occupancy_is"
  de_changed :: "'n yaml \<Rightarrow> string + raw_changed"
  de_crosses :: "'n yaml \<Rightarrow> string + raw_crosses"
  de_reports :: "'n yaml \<Rightarrow> string + raw_reports"
  de_compare :: "'n yaml \<Rightarrow> string + raw_compare"
  de_set_brightness :: "'n yaml \<Rightarrow> string + raw_set_brightness"
  de_decrease_brightness :: "'n yaml \<Rightarrow> string + raw_step_brightness"
  de_increase_brightness :: "'n yaml \<Rightarrow> string + raw_step_brightness"
  de_set_color :: "'n yaml \<Rightarrow> string + 'n raw_set_color"
  de_color_is :: "'n yaml \<Rightarrow> string + 'n raw_color_is"
  de_set_color_temperature :: "'n yaml \<Rightarrow> string + raw_set_color_temperature"
  de_schedule_timer :: "'n yaml \<Rightarrow> string + raw_schedule_timer"
  de_send_ir_code :: "'n yaml \<Rightarrow> string + raw_send_ir_code"

definition as_u64 :: "'n serde \<Rightarrow> 'n yaml \<Rightarrow> u64 option" where
  "as_u64 Y v = (case untag v of VNumber n \<Rightarrow> de_u64 Y n | _ \<Rightarrow> None)"

section \<open>The configuration file\<close>

text \<open>A \<open>BTreeMap<String, _>\<close>: its entries in the order of the keys, each key once.\<close>

type_synonym 'a btree = "(string \<times> 'a) list"

definition btree_ok :: "'a btree \<Rightarrow> bool" where
  "btree_ok m \<longleftrightarrow> sorted (map fst m) \<and> distinct (map fst m)"

record raw_schedule =
  rs_cron :: "string option"
  rs_daily :: "string option"
  rs_weekday :: "string option"
  rs_weekend :: "string option"

record raw_healthcheck =
  hc_host :: string
  hc_port :: u16

record raw_rest_api =
  api_host :: string
  api_port :: u16
  api_token :: "string option"

text \<open>An \<open>f64\<close> is carried along and never computed with: its type is a parameter.\<close>

record 'f raw_system =
  sy_name :: "string option"
  sy_timezone :: "string option"
  sy_latitude :: "'f option"
  sy_longitude :: "'f option"
  sy_runtime_storage_path :: "string option"
  sy_healthcheck :: "raw_healthcheck option"
  sy_rest_api :: "raw_rest_api option"

record 'n raw_adapter =
  ra_kind :: string
  ra_config :: "'n yaml"

record raw_device =
  rd_adapter :: string
  rd_address :: "string option"
  rd_endpoint :: "u16 option"
  rd_capabilities :: "string list"
  rd_events :: "string btree"
  rd_manufacturer :: "string option"
  rd_model :: "string option"
  rd_room :: "string option"

record 'n raw_rule =
  rr_when :: "'n yaml"
  rr_condition :: "'n yaml option"
  rr_for_duration :: "string option"
  rr_then :: "'n yaml list"

record ('n, 'f) raw_config =
  rc_system :: "'f raw_system"
  rc_adapters :: "'n raw_adapter btree"
  rc_devices :: "raw_device btree"
  rc_scenes :: "'n yaml list btree"
  rc_schedules :: "raw_schedule btree"
  rc_rules :: "'n raw_rule btree"

definition raw_ok :: "('n, 'f) raw_config \<Rightarrow> bool" where
  "raw_ok raw \<longleftrightarrow> btree_ok (rc_adapters raw) \<and> btree_ok (rc_devices raw) \<and>
     btree_ok (rc_scenes raw) \<and> btree_ok (rc_schedules raw) \<and> btree_ok (rc_rules raw) \<and>
     list_all (\<lambda>(_, d). btree_ok (rd_events d)) (rc_devices raw)"

text \<open>
  \<open>parse_raw_config\<close>: the YAML text becomes a document, the top-level keys that start with \<open>x-\<close> are
  removed, and the rest is deserialized. Reading and deserializing are the library's.
\<close>

fun strip_extensions :: "'n yaml \<Rightarrow> 'n yaml" where
  "strip_extensions (VMapping m) =
     VMapping (filter (\<lambda>(k, _). case as_str k of Some s \<Rightarrow> \<not> starts_with ''x-'' s | None \<Rightarrow> True) m)"
| "strip_extensions v = v"

definition parse_raw_config ::
  "(string \<Rightarrow> string + 'n yaml) \<Rightarrow> ('n yaml \<Rightarrow> string + 'c) \<Rightarrow> string \<Rightarrow> string + 'c" where
  "parse_raw_config read deserialize src =
     (case read src of Inl e \<Rightarrow> Inl e | Inr v \<Rightarrow> deserialize (strip_extensions v))"

section \<open>Devices\<close>

record device_metadata =
  dm_manufacturer :: "string option"
  dm_model :: "string option"
  dm_room :: "string option"

record device_event =
  ev_id :: action_id
  ev_name :: string
  ev_raw :: string

record device_def =
  dd_id :: device_id
  dd_name :: string
  dd_adapter :: nat
  dd_address :: "string option"
  dd_endpoint :: "u16 option"
  dd_capabilities :: "capability_kind list"
  dd_events :: "device_event list"
  dd_metadata :: device_metadata

definition parse_capability :: "string \<Rightarrow> capability_kind option" where
  "parse_capability s =
     (case kind_from_name s of
        None \<Rightarrow> None
      | Some KTimeOfDay \<Rightarrow> None
      | Some KSunUp \<Rightarrow> None
      | Some k \<Rightarrow> Some k)"

text \<open>The derived \<open>Debug\<close> form of a kind, as the messages print it.\<close>

fun debug_kind :: "capability_kind \<Rightarrow> string" where
  "debug_kind KSwitch = ''Switch''"
| "debug_kind KBrightness = ''Brightness''"
| "debug_kind KColor = ''Color''"
| "debug_kind KColorTemperature = ''ColorTemperature''"
| "debug_kind KOccupancy = ''Occupancy''"
| "debug_kind KBattery = ''Battery''"
| "debug_kind KTemperature = ''Temperature''"
| "debug_kind KHumidity = ''Humidity''"
| "debug_kind KIlluminance = ''Illuminance''"
| "debug_kind KPower = ''Power''"
| "debug_kind KContact = ''Contact''"
| "debug_kind KWaterLeak = ''WaterLeak''"
| "debug_kind KSmoke = ''Smoke''"
| "debug_kind KIrTransmitter = ''IrTransmitter''"
| "debug_kind KTimeOfDay = ''TimeOfDay''"
| "debug_kind KSunUp = ''SunUp''"

end
