(* ===== verification/Lower.thy ===== *)
theory Lower
  imports Config Colors
begin

text \<open>
  Lowering (\<open>compile/lower.rs\<close>): the raw nodes of rules and scenes become triggers, conditions and
  commands. A lowering step reads the interned names, adds diagnostics and notes what it uses; a
  failed step is \<open>None\<close>, the early return of the operator \<open>?\<close>.
\<close>

section \<open>The state of the pass\<close>

record lower_ctx =
  lc_devices :: "device_def list"
  lc_device_index :: "(string, device_id) hashmap"
  lc_scene_index :: "(string, scene_id) hashmap"
  lc_schedule_index :: "(string, schedule_id) hashmap"
  lc_clock_device :: device_id

text \<open>A \<open>HashSet\<close> is a list without duplicates, in an order that stands for the table's own.\<close>

record lower_state =
  l_diags :: "diagnostic list"
  l_scheduled_keys :: "string list"
  l_referenced_keys :: "string list"
  l_used_scenes :: "scene_id list"
  l_referenced_schedules :: "schedule_id list"

type_synonym 'a lowering = "lower_state \<Rightarrow> 'a option \<times> lower_state"

definition lo_ok :: "'a \<Rightarrow> 'a lowering" where
  "lo_ok a s = (Some a, s)"

definition lo_bind :: "'a lowering \<Rightarrow> ('a \<Rightarrow> 'b lowering) \<Rightarrow> 'b lowering" where
  "lo_bind m f s = (case m s of (Some a, s') \<Rightarrow> f a s' | (None, s') \<Rightarrow> (None, s'))"

definition lo_mod :: "(lower_state \<Rightarrow> lower_state) \<Rightarrow> unit lowering" where
  "lo_mod f s = (Some (), f s)"

definition push_diag :: "diagnostic \<Rightarrow> lower_state \<Rightarrow> lower_state" where
  "push_diag d s = s\<lparr>l_diags := l_diags s @ [d]\<rparr>"

definition lo_error :: "string \<Rightarrow> string \<Rightarrow> string \<Rightarrow> 'a lowering" where
  "lo_error code msg at s = (None, push_diag (diag_at at (diag_error code msg)) s)"

section \<open>Node shapes\<close>

definition single_entry :: "'n yaml \<Rightarrow> string \<Rightarrow> string \<Rightarrow> (string \<times> 'n yaml) lowering" where
  "single_entry v node at =
     (case v of
        VMapping [(k, payload)] \<Rightarrow>
          (case as_str k of
             Some verb \<Rightarrow> lo_ok (verb, payload)
           | None \<Rightarrow> lo_error ''E_BAD_NODE'' (node @ '' must be a single-key map like { verb: target }'') at)
      | _ \<Rightarrow> lo_error ''E_BAD_NODE'' (node @ '' must be a single-key map like { verb: target }'') at)"

definition as_name :: "'n yaml \<Rightarrow> string \<Rightarrow> string \<Rightarrow> string lowering" where
  "as_name v node at =
     (case as_str v of
        Some s \<Rightarrow> lo_ok s
      | None \<Rightarrow> lo_error ''E_BAD_NODE'' (quoted node @ '' expects a name'') at)"

definition as_flag :: "'n yaml \<Rightarrow> string \<Rightarrow> string \<Rightarrow> bool lowering" where
  "as_flag v node at =
     (case val_bool v of
        Some b \<Rightarrow> lo_ok b
      | None \<Rightarrow> lo_error ''E_BAD_NODE'' (quoted node @ '' expects true/false'') at)"

definition payload :: "('n yaml \<Rightarrow> string + 'a) \<Rightarrow> 'n yaml \<Rightarrow> string \<Rightarrow> string \<Rightarrow> 'a lowering" where
  "payload de v node at =
     (case de v of
        Inr a \<Rightarrow> lo_ok a
      | Inl e \<Rightarrow> lo_error ''E_BAD_NODE'' (''invalid '' @ quoted node @ '': '' @ e) at)"

section \<open>References and capabilities\<close>

definition resolve_device :: "lower_ctx \<Rightarrow> string \<Rightarrow> string \<Rightarrow> device_id lowering" where
  "resolve_device C name at =
     (case hm_get (lc_device_index C) name of
        Some i \<Rightarrow> lo_ok i
      | None \<Rightarrow> lo_error ''E_UNKNOWN_DEVICE'' (''unknown device '' @ quoted name) at)"

definition device_at :: "device_def list \<Rightarrow> device_id \<Rightarrow> device_def option" where
  "device_at ds d =
     (if unat (device_num d) < length ds then Some (ds ! unat (device_num d)) else None)"

definition require_cap ::
  "lower_ctx \<Rightarrow> device_id \<Rightarrow> string \<Rightarrow> capability_kind \<Rightarrow> string \<Rightarrow> string \<Rightarrow> unit lowering" where
  "require_cap C d name cap usage at =
     (if d = lc_clock_device C then lo_ok ()
      else
        (let has = (case device_at (lc_devices C) d of
             Some def \<Rightarrow> cap \<in> set (dd_capabilities def) | None \<Rightarrow> False)
         in if has then lo_ok ()
            else lo_mod (push_diag (diag_at at (diag_error ''E_MISSING_CAPABILITY''
              (quoted usage @ '' needs capability '' @ debug_kind cap @ '', which device '' @
               quoted name @ '' does not declare''))))))"

definition parse_cmp_op :: "string \<Rightarrow> string \<Rightarrow> cmp_op lowering" where
  "parse_cmp_op s at =
     (if s = ''<'' then lo_ok Lt
      else if s = ''<='' then lo_ok Le
      else if s = ''=='' then lo_ok Eq
      else if s = ''!='' then lo_ok Ne
      else if s = ''>='' then lo_ok Ge
      else if s = ''>'' then lo_ok Gt
      else lo_error ''E_BAD_OP''
        (''unknown comparison operator '' @ quoted s @ '' (expected <, <=, ==, !=, >=, >)'') at)"

definition unknown_capability :: "string \<Rightarrow> string \<Rightarrow> 'a lowering" where
  "unknown_capability name at =
     lo_error ''E_BAD_CAPABILITY'' (''unknown capability '' @ quoted name) at"

definition numeric_capability :: "string \<Rightarrow> string \<Rightarrow> capability_kind lowering" where
  "numeric_capability name at =
     (case parse_capability name of
        Some k \<Rightarrow>
          if is_numeric k then lo_ok k
          else lo_error ''E_NON_NUMERIC_CAPABILITY''
            (quoted ''compare'' @ '' needs a numeric capability, but '' @ quoted name @
             '' is not numeric-shaped'') at
      | None \<Rightarrow> unknown_capability name at)"

definition bool_capability :: "string \<Rightarrow> string \<Rightarrow> capability_kind lowering" where
  "bool_capability name at =
     (case parse_capability name of
        Some k \<Rightarrow>
          if is_bool k then lo_ok k
          else lo_error ''E_NON_BOOL_CAPABILITY''
            (quoted ''changed'' @ '' needs a bool capability, but '' @ quoted name @
             '' is not bool-shaped'') at
      | None \<Rightarrow> unknown_capability name at)"

definition any_capability :: "string \<Rightarrow> string \<Rightarrow> capability_kind lowering" where
  "any_capability name at =
     (case parse_capability name of Some k \<Rightarrow> lo_ok k | None \<Rightarrow> unknown_capability name at)"

section \<open>Scalars\<close>

definition unit_millis :: "string \<Rightarrow> u64 option" where
  "unit_millis u =
     (if u = ''ms'' then Some 1
      else if u = ''s'' then Some 1000
      else if u = ''m'' then Some 60000
      else if u = ''h'' then Some 3600000
      else None)"

text \<open>\<open>str::parse\<close> of the two unsigned widths the compiler reads.\<close>

definition parse_u64 :: "string \<Rightarrow> u64 option" where
  "parse_u64 s = map_option word_of_nat (parse_uint (2 ^ 64) s)"

definition parse_u16 :: "string \<Rightarrow> u16 option" where
  "parse_u16 s = map_option word_of_nat (parse_uint (2 ^ 16) s)"

definition duration_of :: "string \<Rightarrow> millis option" where
  "duration_of s =
     (let trimmed = trim s;
          num = takeWhile (\<lambda>c. \<not> is_ascii_alphabetic c) trimmed;
          unit = dropWhile (\<lambda>c. \<not> is_ascii_alphabetic c) trimmed
      in if unit = [] then None
         else case parse_u64 (trim num) of
           None \<Rightarrow> None
         | Some n \<Rightarrow> Option.bind (unit_millis unit) (checked_mul n))"

definition parse_duration :: "string \<Rightarrow> string \<Rightarrow> millis lowering" where
  "parse_duration s at =
     (case duration_of s of
        Some ms \<Rightarrow> lo_ok ms
      | None \<Rightarrow> lo_error ''E_BAD_DURATION''
          (''invalid duration '' @ quoted s @ '' (expected e.g. 30s, 10m, 1h)'') at)"

definition hour_minute :: "string \<Rightarrow> (u16 \<times> u16) option" where
  "hour_minute s =
     (case split_once CHR '':'' (trim s) of
        None \<Rightarrow> None
      | Some (h, m) \<Rightarrow>
          (case (parse_u16 (trim h), parse_u16 (trim m)) of
             (Some h, Some m) \<Rightarrow> if h < 24 \<and> m < 60 then Some (h, m) else None
           | _ \<Rightarrow> None))"

definition bad_time :: "string \<Rightarrow> string" where
  "bad_time s = ''invalid time '' @ quoted s @ '' (expected HH:MM)''"

definition parse_time :: "string \<Rightarrow> string \<Rightarrow> u16 lowering" where
  "parse_time s at =
     (case hour_minute s of
        Some (h, m) \<Rightarrow> lo_ok (h * 60 + m)
      | None \<Rightarrow> lo_error ''E_BAD_TIME'' (bad_time s) at)"

definition parse_color :: "'n serde \<Rightarrow> 'n yaml \<Rightarrow> string \<Rightarrow> (u8 \<times> u8 \<times> u8) lowering" where
  "parse_color Y v at =
     (case as_str v of
        Some s \<Rightarrow>
          (case hex_to_rgb s of
             Some rgb \<Rightarrow> lo_ok rgb
           | None \<Rightarrow> lo_error ''E_BAD_COLOR''
               (''invalid hex color '' @ quoted s @ '' (expected `#RRGGBB`)'') at)
      | None \<Rightarrow>
          (let rgb =
             (case v of
                VMapping m \<Rightarrow>
                  (case (Option.bind (map_lookup ''r'' m) (as_u64 Y),
                         Option.bind (map_lookup ''g'' m) (as_u64 Y),
                         Option.bind (map_lookup ''b'' m) (as_u64 Y)) of
                     (Some r, Some g, Some b) \<Rightarrow>
                       if r \<le> 255 \<and> g \<le> 255 \<and> b \<le> 255 then Some (ucast r, ucast g, ucast b) else None
                   | _ \<Rightarrow> None)
              | _ \<Rightarrow> None)
           in case rgb of
                Some rgb \<Rightarrow> lo_ok rgb
              | None \<Rightarrow> lo_error ''E_BAD_COLOR''
                  (''color must be a `#RRGGBB` hex string or `{ r, g, b }` object with values 0'' @
                   en_dash @ ''255'') at))"

definition parse_color_temperature :: "raw_set_color_temperature \<Rightarrow> string \<Rightarrow> u16 lowering" where
  "parse_color_temperature raw at =
     (case (ct_kelvin raw, ct_mireds raw) of
        (Some _, Some _) \<Rightarrow> lo_error ''E_BAD_COLOR_TEMP''
          ''set_color_temperature must set exactly one of `kelvin` or `mireds`'' at
      | (None, None) \<Rightarrow> lo_error ''E_BAD_COLOR_TEMP''
          ''set_color_temperature needs one of `kelvin` or `mireds`'' at
      | (Some kelvin, None) \<Rightarrow>
          if 1000 \<le> kelvin \<and> kelvin \<le> 10000 then lo_ok (ucast (min (1000000 div kelvin) 65535))
          else lo_error ''E_BAD_COLOR_TEMP''
            (''kelvin '' @ decimal (unat kelvin) @ '' out of range (expected 1000'' @ en_dash @ ''10000)'') at
      | (None, Some mireds) \<Rightarrow>
          if 100 \<le> mireds \<and> mireds \<le> 1000 then lo_ok mireds
          else lo_error ''E_BAD_COLOR_TEMP''
            (''mireds '' @ decimal (unat mireds) @ '' out of range (expected 100'' @ en_dash @ ''1000)'') at)"

definition opt_duration :: "string option \<Rightarrow> string \<Rightarrow> millis option lowering" where
  "opt_duration t at =
     (case t of Some s \<Rightarrow> lo_bind (parse_duration s at) (\<lambda>d. lo_ok (Some d)) | None \<Rightarrow> lo_ok None)"

section \<open>Triggers\<close>

definition resolve_event ::
  "lower_ctx \<Rightarrow> device_id \<Rightarrow> string \<Rightarrow> string \<Rightarrow> string \<Rightarrow> action_id lowering" where
  "resolve_event C d dev_name event at =
     (case device_at (lc_devices C) d of
        None \<Rightarrow> (\<lambda>s. (None, s))
      | Some def \<Rightarrow>
          (case find (\<lambda>e. ev_name e = event) (dd_events def) of
             Some e \<Rightarrow> lo_ok (ev_id e)
           | None \<Rightarrow> lo_error ''E_UNKNOWN_EVENT''
               (''device '' @ quoted dev_name @ '' declares no event '' @ quoted event) at))"

definition note_referenced_key :: "string \<Rightarrow> unit lowering" where
  "note_referenced_key k = lo_mod (\<lambda>s. s\<lparr>l_referenced_keys := List.insert k (l_referenced_keys s)\<rparr>)"

definition note_scheduled_key :: "string \<Rightarrow> unit lowering" where
  "note_scheduled_key k = lo_mod (\<lambda>s. s\<lparr>l_scheduled_keys := List.insert k (l_scheduled_keys s)\<rparr>)"

definition lower_event :: "lower_ctx \<Rightarrow> 'n yaml \<Rightarrow> string \<Rightarrow> trigger lowering" where
  "lower_event C p at =
     lo_bind (as_name p ''event'' at) (\<lambda>spec.
       case split_once CHR ''.'' spec of
         None \<Rightarrow> lo_error ''E_BAD_NODE''
           (''event trigger must be '' @ quoted ''<device>.<event>'' @ '', got '' @ quoted spec) at
       | Some (dev_name, event_name) \<Rightarrow>
           lo_bind (resolve_device C dev_name at) (\<lambda>d.
           lo_bind (resolve_event C d dev_name event_name at) (\<lambda>a.
             lo_ok (TAction d a))))"

definition lower_changed :: "'n serde \<Rightarrow> lower_ctx \<Rightarrow> 'n yaml \<Rightarrow> string \<Rightarrow> trigger lowering" where
  "lower_changed Y C p at =
     lo_bind (payload (de_changed Y) p ''changed'' at) (\<lambda>c.
     lo_bind (resolve_device C (ch_device c) at) (\<lambda>d.
     lo_bind (bool_capability (ch_capability c) at) (\<lambda>k.
     lo_bind (require_cap C d (ch_device c) k ''changed'' at) (\<lambda>_.
       lo_ok (TChanged d k (ch_to c))))))"

definition cross_bound :: "raw_crosses \<Rightarrow> string \<Rightarrow> (i64 \<times> cross_dir) lowering" where
  "cross_bound c at =
     (case (cr_above c, cr_below c) of
        (Some _, Some _) \<Rightarrow>
          lo_error ''E_BAD_CROSS''
            (quoted ''crosses'' @ '' must set exactly one of `above` or `below`'') at
      | (None, None) \<Rightarrow>
          lo_error ''E_BAD_CROSS'' (quoted ''crosses'' @ '' needs one of `above` or `below`'') at
      | (Some v, None) \<Rightarrow> lo_ok (v, Above)
      | (None, Some v) \<Rightarrow> lo_ok (v, Below))"

definition lower_crosses :: "'n serde \<Rightarrow> lower_ctx \<Rightarrow> 'n yaml \<Rightarrow> string \<Rightarrow> trigger lowering" where
  "lower_crosses Y C p at =
     lo_bind (payload (de_crosses Y) p ''crosses'' at) (\<lambda>c.
     lo_bind (resolve_device C (cr_device c) at) (\<lambda>d.
     lo_bind (numeric_capability (cr_capability c) at) (\<lambda>k.
     lo_bind (require_cap C d (cr_device c) k ''crosses'' at) (\<lambda>_.
     lo_bind (cross_bound c at) (\<lambda>(bound, dir).
       lo_ok (TCrosses d k bound dir))))))"

definition lower_reports :: "'n serde \<Rightarrow> lower_ctx \<Rightarrow> 'n yaml \<Rightarrow> string \<Rightarrow> trigger lowering" where
  "lower_reports Y C p at =
     lo_bind (payload (de_reports Y) p ''reports'' at) (\<lambda>r.
     lo_bind (resolve_device C (rp_device r) at) (\<lambda>d.
     lo_bind (any_capability (rp_capability r) at) (\<lambda>k.
     lo_bind (require_cap C d (rp_device r) k ''reports'' at) (\<lambda>_.
       lo_ok (TReports d k)))))"

definition lower_schedule :: "lower_ctx \<Rightarrow> 'n yaml \<Rightarrow> string \<Rightarrow> trigger lowering" where
  "lower_schedule C p at =
     lo_bind (as_name p ''schedule'' at) (\<lambda>name.
       case hm_get (lc_schedule_index C) name of
         Some i \<Rightarrow>
           lo_bind (lo_mod (\<lambda>s. s\<lparr>l_referenced_schedules := List.insert i (l_referenced_schedules s)\<rparr>))
             (\<lambda>_. lo_ok (TTime i))
       | None \<Rightarrow> lo_error ''E_UNKNOWN_SCHEDULE'' (''unknown schedule '' @ quoted name) at)"

definition lower_command_failed :: "lower_ctx \<Rightarrow> 'n yaml \<Rightarrow> string \<Rightarrow> trigger lowering" where
  "lower_command_failed C p at =
     lo_bind (as_name p ''command_failed'' at) (\<lambda>spec.
       if spec = ''*'' then lo_ok (TCommandFailed None)
       else lo_bind (resolve_device C spec at) (\<lambda>d. lo_ok (TCommandFailed (Some d))))"

definition lower_trigger :: "'n serde \<Rightarrow> lower_ctx \<Rightarrow> 'n yaml \<Rightarrow> string \<Rightarrow> trigger lowering" where
  "lower_trigger Y C v at =
     lo_bind (single_entry v ''trigger'' at) (\<lambda>(verb, p).
       if verb = ''event'' then lower_event C p at
       else if verb = ''changed'' then lower_changed Y C p at
       else if verb = ''crosses'' then lower_crosses Y C p at
       else if verb = ''reports'' then lower_reports Y C p at
       else if verb = ''timer'' then
         lo_bind (as_name p ''timer'' at) (\<lambda>key.
         lo_bind (note_referenced_key key) (\<lambda>_. lo_ok (TTimer (TimerKey key))))
       else if verb = ''schedule'' then lower_schedule C p at
       else if verb = ''command_failed'' then lower_command_failed C p at
       else lo_error ''E_UNKNOWN_TRIGGER'' (''unknown trigger '' @ quoted verb) at)"

section \<open>Conditions\<close>

definition lower_switch_is :: "'n serde \<Rightarrow> lower_ctx \<Rightarrow> 'n yaml \<Rightarrow> string \<Rightarrow> condition lowering" where
  "lower_switch_is Y C p at =
     lo_bind (payload (de_switch_is Y) p ''switch'' at) (\<lambda>x.
     lo_bind (resolve_device C (si_device x) at) (\<lambda>d.
     lo_bind (require_cap C d (si_device x) KSwitch ''switch'' at) (\<lambda>_.
       lo_ok (BoolEquals d KSwitch (si_on x)))))"

definition lower_occupancy_is :: "'n serde \<Rightarrow> lower_ctx \<Rightarrow> 'n yaml \<Rightarrow> string \<Rightarrow> condition lowering" where
  "lower_occupancy_is Y C p at =
     lo_bind (payload (de_occupancy_is Y) p ''occupancy_is'' at) (\<lambda>x.
     lo_bind (resolve_device C (oi_device x) at) (\<lambda>d.
     lo_bind (require_cap C d (oi_device x) KOccupancy ''occupancy_is'' at) (\<lambda>_.
       lo_ok (BoolEquals d KOccupancy (oi_occupied x)))))"

definition lower_compare :: "'n serde \<Rightarrow> lower_ctx \<Rightarrow> 'n yaml \<Rightarrow> string \<Rightarrow> condition lowering" where
  "lower_compare Y C p at =
     lo_bind (payload (de_compare Y) p ''compare'' at) (\<lambda>x.
     lo_bind (resolve_device C (cp_device x) at) (\<lambda>d.
     lo_bind (numeric_capability (cp_capability x) at) (\<lambda>k.
     lo_bind (parse_cmp_op (cp_op x) at) (\<lambda>op.
     lo_bind (require_cap C d (cp_device x) k ''compare'' at) (\<lambda>_.
       lo_ok (Compare d k op (cp_value x)))))))"

definition lower_color_is :: "'n serde \<Rightarrow> lower_ctx \<Rightarrow> 'n yaml \<Rightarrow> string \<Rightarrow> condition lowering" where
  "lower_color_is Y C p at =
     lo_bind (payload (de_color_is Y) p ''color_is'' at) (\<lambda>x.
     lo_bind (resolve_device C (ci_device x) at) (\<lambda>d.
     lo_bind (require_cap C d (ci_device x) KColor ''color_is'' at) (\<lambda>_.
     lo_bind (parse_color Y (ci_color x) at) (\<lambda>(r, g, b).
       lo_ok (ColorEquals d r g b)))))"

definition lower_time :: "lower_ctx \<Rightarrow> string \<Rightarrow> cmp_op \<Rightarrow> 'n yaml \<Rightarrow> string \<Rightarrow> condition lowering" where
  "lower_time C node op p at =
     lo_bind (as_name p node at) (\<lambda>t.
     lo_bind (parse_time t at) (\<lambda>m.
       lo_ok (Compare (lc_clock_device C) KTimeOfDay op (uint m))))"

text \<open>
  Conditions nest. A list of conditions is lowered to its end even after a failure, so that every
  problem is reported, and fails if one of them failed.
\<close>

function (sequential) lower_condition ::
    "'n serde \<Rightarrow> lower_ctx \<Rightarrow> 'n yaml \<Rightarrow> string \<Rightarrow> condition lowering"
  and lower_conditions ::
    "'n serde \<Rightarrow> lower_ctx \<Rightarrow> 'n yaml list \<Rightarrow> string \<Rightarrow> condition list lowering" where
  "lower_condition Y C (VMapping [(k, p)]) at =
     (case as_str k of
        None \<Rightarrow> lo_error ''E_BAD_NODE'' ''condition must be a single-key map like { verb: target }'' at
      | Some verb \<Rightarrow>
          if verb = ''all'' \<or> verb = ''any'' then
            (case as_sequence p of
               None \<Rightarrow> lo_error ''E_BAD_NODE'' (quoted verb @ '' expects a list of conditions'') at
             | Some vs \<Rightarrow>
                 lo_bind (lower_conditions Y C vs at)
                   (\<lambda>cs. lo_ok (if verb = ''all'' then And cs else Or cs)))
          else if verb = ''not'' then lo_bind (lower_condition Y C p at) (\<lambda>c. lo_ok (Not c))
          else if verb = ''sun_up'' then
            lo_bind (as_flag p ''sun_up'' at)
              (\<lambda>b. lo_ok (BoolEquals (lc_clock_device C) KSunUp b))
          else if verb = ''switch'' then lower_switch_is Y C p at
          else if verb = ''occupancy_is'' then lower_occupancy_is Y C p at
          else if verb = ''compare'' then lower_compare Y C p at
          else if verb = ''color_is'' then lower_color_is Y C p at
          else if verb = ''time_after'' then lower_time C ''time_after'' Ge p at
          else if verb = ''time_before'' then lower_time C ''time_before'' Lt p at
          else lo_error ''E_UNKNOWN_CONDITION'' (''unknown condition '' @ quoted verb) at)"
| "lower_condition Y C v at =
     lo_error ''E_BAD_NODE'' ''condition must be a single-key map like { verb: target }'' at"
| "lower_conditions Y C [] at = lo_ok []"
| "lower_conditions Y C (v # vs) at =
     (\<lambda>s. let (c, s) = lower_condition Y C v at s;
              (cs, s) = lower_conditions Y C vs at s
          in (case (c, cs) of (Some c, Some cs) \<Rightarrow> Some (c # cs) | _ \<Rightarrow> None, s))"
  by pat_completeness auto

termination
  by (relation "measure (\<lambda>x. case x of
        Inl (Y, C, v, at) \<Rightarrow> size v | Inr (Y, C, vs, at) \<Rightarrow> size_list size vs)")
    (auto dest: as_sequence_size)

section \<open>Commands\<close>

definition lower_switch ::
  "lower_ctx \<Rightarrow> string \<Rightarrow> (device_id \<Rightarrow> command) \<Rightarrow> 'n yaml \<Rightarrow> string \<Rightarrow> command lowering" where
  "lower_switch C verb mk p at =
     lo_bind (as_name p verb at) (\<lambda>name.
     lo_bind (resolve_device C name at) (\<lambda>d.
     lo_bind (require_cap C d name KSwitch verb at) (\<lambda>_.
       lo_ok (mk d))))"

definition lower_set_brightness :: "'n serde \<Rightarrow> lower_ctx \<Rightarrow> 'n yaml \<Rightarrow> string \<Rightarrow> command lowering" where
  "lower_set_brightness Y C p at =
     lo_bind (payload (de_set_brightness Y) p ''set_brightness'' at) (\<lambda>b.
     lo_bind (resolve_device C (sb_device b) at) (\<lambda>d.
     lo_bind (require_cap C d (sb_device b) KBrightness ''set_brightness'' at) (\<lambda>_.
     lo_bind (opt_duration (sb_transition b) at) (\<lambda>t.
       lo_ok (SetBrightness d (sb_value b) t)))))"

definition lower_step_brightness ::
  "lower_ctx \<Rightarrow> ('n yaml \<Rightarrow> string + raw_step_brightness) \<Rightarrow> string \<Rightarrow> (device_id \<Rightarrow> u8 \<Rightarrow> command) \<Rightarrow>
    'n yaml \<Rightarrow> string \<Rightarrow> command lowering" where
  "lower_step_brightness C de verb mk p at =
     lo_bind (payload de p verb at) (\<lambda>b.
     lo_bind (resolve_device C (st_device b) at) (\<lambda>d.
     lo_bind (require_cap C d (st_device b) KBrightness verb at) (\<lambda>_.
       lo_ok (mk d (st_value b)))))"

definition lower_set_color :: "'n serde \<Rightarrow> lower_ctx \<Rightarrow> 'n yaml \<Rightarrow> string \<Rightarrow> command lowering" where
  "lower_set_color Y C p at =
     lo_bind (payload (de_set_color Y) p ''set_color'' at) (\<lambda>c.
     lo_bind (resolve_device C (sc_device c) at) (\<lambda>d.
     lo_bind (require_cap C d (sc_device c) KColor ''set_color'' at) (\<lambda>_.
     lo_bind (parse_color Y (sc_color c) at) (\<lambda>(r, g, b).
     lo_bind (opt_duration (sc_transition c) at) (\<lambda>t.
       lo_ok (SetColor d r g b t))))))"

definition lower_set_color_temperature ::
  "'n serde \<Rightarrow> lower_ctx \<Rightarrow> 'n yaml \<Rightarrow> string \<Rightarrow> command lowering" where
  "lower_set_color_temperature Y C p at =
     lo_bind (payload (de_set_color_temperature Y) p ''set_color_temperature'' at) (\<lambda>c.
     lo_bind (resolve_device C (ct_device c) at) (\<lambda>d.
     lo_bind (require_cap C d (ct_device c) KColorTemperature ''set_color_temperature'' at) (\<lambda>_.
     lo_bind (parse_color_temperature c at) (\<lambda>mireds.
     lo_bind (opt_duration (ct_transition c) at) (\<lambda>t.
       lo_ok (SetColorTemperature d mireds t))))))"

definition lower_activate_scene :: "lower_ctx \<Rightarrow> 'n yaml \<Rightarrow> string \<Rightarrow> command lowering" where
  "lower_activate_scene C p at =
     lo_bind (as_name p ''activate_scene'' at) (\<lambda>name.
       case hm_get (lc_scene_index C) name of
         Some i \<Rightarrow>
           lo_bind (lo_mod (\<lambda>s. s\<lparr>l_used_scenes := List.insert i (l_used_scenes s)\<rparr>))
             (\<lambda>_. lo_ok (ActivateScene i))
       | None \<Rightarrow> lo_error ''E_UNKNOWN_SCENE'' (''unknown scene '' @ quoted name) at)"

definition lower_schedule_timer :: "'n serde \<Rightarrow> 'n yaml \<Rightarrow> string \<Rightarrow> command lowering" where
  "lower_schedule_timer Y p at =
     lo_bind (payload (de_schedule_timer Y) p ''schedule_timer'' at) (\<lambda>x.
     lo_bind (note_scheduled_key (tm_key x)) (\<lambda>_.
     lo_bind (parse_duration (tm_after x) at) (\<lambda>after.
       lo_ok (ScheduleTimer (TimerKey (tm_key x)) after))))"

definition lower_send_ir_code :: "'n serde \<Rightarrow> lower_ctx \<Rightarrow> 'n yaml \<Rightarrow> string \<Rightarrow> command lowering" where
  "lower_send_ir_code Y C p at =
     lo_bind (payload (de_send_ir_code Y) p ''send_ir_code'' at) (\<lambda>ir.
     lo_bind (resolve_device C (ir_device ir) at) (\<lambda>d.
     lo_bind (require_cap C d (ir_device ir) KIrTransmitter ''send_ir_code'' at) (\<lambda>_.
       lo_ok (SendIrCode d (ir_code ir)))))"

definition lower_command :: "'n serde \<Rightarrow> lower_ctx \<Rightarrow> string \<Rightarrow> 'n yaml \<Rightarrow> command lowering" where
  "lower_command Y C at v =
     lo_bind (single_entry v ''command'' at) (\<lambda>(verb, p).
       if verb = ''turn_on'' \<or> verb = ''turn_off'' then
         lower_switch C verb (\<lambda>d. SetSwitch d (verb = ''turn_on'')) p at
       else if verb = ''toggle'' then lower_switch C ''toggle'' ToggleSwitch p at
       else if verb = ''set_brightness'' then lower_set_brightness Y C p at
       else if verb = ''decrease_brightness'' then
         lower_step_brightness C (de_decrease_brightness Y) ''decrease_brightness'' DecreaseBrightness p at
       else if verb = ''increase_brightness'' then
         lower_step_brightness C (de_increase_brightness Y) ''increase_brightness'' IncreaseBrightness p at
       else if verb = ''set_color'' then lower_set_color Y C p at
       else if verb = ''set_color_temperature'' then lower_set_color_temperature Y C p at
       else if verb = ''activate_scene'' then lower_activate_scene C p at
       else if verb = ''schedule_timer'' then lower_schedule_timer Y p at
       else if verb = ''cancel_timer'' then
         lo_bind (as_name p ''cancel_timer'' at) (\<lambda>key.
         lo_bind (note_referenced_key key) (\<lambda>_. lo_ok (CancelTimer (TimerKey key))))
       else if verb = ''send_ir_code'' then lower_send_ir_code Y C p at
       else lo_error ''E_UNKNOWN_COMMAND'' (''unknown command '' @ quoted verb) at)"

text \<open>\<open>filter_map\<close>: a command that fails is dropped, the next ones are still lowered.\<close>

fun lower_commands ::
  "'n serde \<Rightarrow> lower_ctx \<Rightarrow> string \<Rightarrow> 'n yaml list \<Rightarrow> lower_state \<Rightarrow> command list \<times> lower_state" where
  "lower_commands Y C at [] s = ([], s)"
| "lower_commands Y C at (v # vs) s =
     (let (c, s) = lower_command Y C at v s;
          (cs, s) = lower_commands Y C at vs s
      in (case c of Some c \<Rightarrow> c # cs | None \<Rightarrow> cs, s))"

definition lower_for :: "string \<Rightarrow> trigger \<Rightarrow> string \<Rightarrow> millis lowering" where
  "lower_for raw trig at =
     (if watched trig = None then
        lo_error ''E_FOR_UNSUPPORTED''
          (quoted ''for:'' @ '' is only valid on an edge trigger (`changed` or `crosses`)'') at
      else parse_duration raw at)"

end
