(* ===== verification/Lower_Props.thy ===== *)
theory Lower_Props
  imports Lower
begin

text \<open>
  What lowering guarantees: no failure is silent, and what is lowered without an error is well
  formed against the devices, scenes and schedules of the configuration.
\<close>

section \<open>Honest passes\<close>

text \<open>
  A step is honest for \<open>P\<close>: it only adds diagnostics, it adds an error whenever it fails, and a result
  it gives without adding an error satisfies \<open>P\<close>.
\<close>

definition honest :: "('a \<Rightarrow> bool) \<Rightarrow> 'a lowering \<Rightarrow> bool" where
  "honest P m \<longleftrightarrow>
     (\<forall>s. \<exists>ds. l_diags (snd (m s)) = l_diags s @ ds \<and>
        ((\<exists>d \<in> set ds. is_error d) \<or> (case fst (m s) of Some a \<Rightarrow> P a | None \<Rightarrow> False)))"

lemma honest_ok [intro]: "P a \<Longrightarrow> honest P (lo_ok a)"
  by (auto simp: honest_def lo_ok_def)

lemma honest_error [intro]: "honest P (lo_error code msg at)"
  by (auto simp: honest_def lo_error_def push_diag_def)

lemma honest_mod: "(\<And>s. l_diags (f s) = l_diags s) \<Longrightarrow> P () \<Longrightarrow> honest P (lo_mod f)"
  by (simp add: honest_def lo_mod_def)

lemma honest_bind:
  assumes m: "honest P m" and f: "\<And>a. honest (\<lambda>x. P a \<longrightarrow> Q x) (f a)"
  shows "honest Q (lo_bind m f)"
  unfolding honest_def
proof
  fix s
  obtain r s' where ms: "m s = (r, s')"
    by fastforce
  with m obtain ds where ds: "l_diags s' = l_diags s @ ds"
    "(\<exists>d \<in> set ds. is_error d) \<or> (case r of Some a \<Rightarrow> P a | None \<Rightarrow> False)"
    unfolding honest_def by (metis fst_conv snd_conv)
  show "\<exists>ds. l_diags (snd (lo_bind m f s)) = l_diags s @ ds \<and>
      ((\<exists>d \<in> set ds. is_error d) \<or> (case fst (lo_bind m f s) of Some a \<Rightarrow> Q a | None \<Rightarrow> False))"
  proof (cases r)
    case None
    with ds ms show ?thesis
      by (auto simp: lo_bind_def)
  next
    case (Some a)
    with f [of a] obtain es where es: "l_diags (snd (f a s')) = l_diags s' @ es"
      "(\<exists>d \<in> set es. is_error d) \<or> (case fst (f a s') of Some x \<Rightarrow> P a \<longrightarrow> Q x | None \<Rightarrow> False)"
      unfolding honest_def by blast
    with ds Some ms show ?thesis
      by (intro exI [of _ "ds @ es"]) (auto simp: lo_bind_def split: option.splits)
  qed
qed

lemma honest_weaken:
  assumes "honest P m" and "\<And>a. P a \<Longrightarrow> Q a"
  shows "honest Q m"
  unfolding honest_def
proof
  fix s
  from assms(1) obtain ds where "l_diags (snd (m s)) = l_diags s @ ds"
    "(\<exists>d \<in> set ds. is_error d) \<or> (case fst (m s) of Some a \<Rightarrow> P a | None \<Rightarrow> False)"
    unfolding honest_def by blast
  with assms(2) show "\<exists>ds. l_diags (snd (m s)) = l_diags s @ ds \<and>
      ((\<exists>d \<in> set ds. is_error d) \<or> (case fst (m s) of Some a \<Rightarrow> Q a | None \<Rightarrow> False))"
    by (intro exI [of _ ds]) (auto split: option.splits)
qed

section \<open>What is well formed\<close>

definition known :: "lower_ctx \<Rightarrow> device_id \<Rightarrow> bool" where
  "known C d \<longleftrightarrow> (\<exists>name. hm_get (lc_device_index C) name = Some d)"

definition has_cap :: "lower_ctx \<Rightarrow> device_id \<Rightarrow> capability_kind \<Rightarrow> bool" where
  "has_cap C d k \<longleftrightarrow> d = lc_clock_device C \<or>
     (\<exists>def. device_at (lc_devices C) d = Some def \<and> k \<in> set (dd_capabilities def))"

definition ctx_wf :: "lower_ctx \<Rightarrow> bool" where
  "ctx_wf C \<longleftrightarrow> list_all (\<lambda>(_, d). device_at (lc_devices C) d \<noteq> None) (lc_device_index C)"

fun trigger_ok :: "lower_ctx \<Rightarrow> trigger \<Rightarrow> bool" where
  "trigger_ok C (TAction d a) =
     (known C d \<and> (\<exists>def. device_at (lc_devices C) d = Some def \<and> a \<in> ev_id ` set (dd_events def)))"
| "trigger_ok C (TChanged d k to) = (known C d \<and> has_cap C d k \<and> is_bool k)"
| "trigger_ok C (TCrosses d k bound dir) = (known C d \<and> has_cap C d k \<and> is_numeric k)"
| "trigger_ok C (TReports d k) = (known C d \<and> has_cap C d k)"
| "trigger_ok C (TTimer key) = True"
| "trigger_ok C (TTime i) = (\<exists>name. hm_get (lc_schedule_index C) name = Some i)"
| "trigger_ok C (TCommandFailed d) = (case d of None \<Rightarrow> True | Some d \<Rightarrow> known C d)"

fun condition_ok :: "lower_ctx \<Rightarrow> condition \<Rightarrow> bool" where
  "condition_ok C Always = True"
| "condition_ok C (Not c) = condition_ok C c"
| "condition_ok C (And cs) = list_all (condition_ok C) cs"
| "condition_ok C (Or cs) = list_all (condition_ok C) cs"
| "condition_ok C (BoolEquals d k b) =
     (is_bool k \<and> (d = lc_clock_device C \<and> k = KSunUp \<or> known C d \<and> has_cap C d k))"
| "condition_ok C (Compare d k op v) =
     (is_numeric k \<and> (d = lc_clock_device C \<and> k = KTimeOfDay \<or> known C d \<and> has_cap C d k))"
| "condition_ok C (ColorEquals d r g b) = (known C d \<and> has_cap C d KColor)"

fun command_ok :: "lower_ctx \<Rightarrow> command \<Rightarrow> bool" where
  "command_ok C (SetSwitch d on) = (known C d \<and> has_cap C d KSwitch)"
| "command_ok C (ToggleSwitch d) = (known C d \<and> has_cap C d KSwitch)"
| "command_ok C (SetBrightness d v t) = (known C d \<and> has_cap C d KBrightness)"
| "command_ok C (DecreaseBrightness d v) = (known C d \<and> has_cap C d KBrightness)"
| "command_ok C (IncreaseBrightness d v) = (known C d \<and> has_cap C d KBrightness)"
| "command_ok C (SetColor d r g b t) = (known C d \<and> has_cap C d KColor)"
| "command_ok C (SetColorTemperature d m t) =
     (known C d \<and> has_cap C d KColorTemperature \<and> 100 \<le> m \<and> m \<le> 1000)"
| "command_ok C (ActivateScene i) = (\<exists>name. hm_get (lc_scene_index C) name = Some i)"
| "command_ok C (ScheduleTimer key after) = True"
| "command_ok C (CancelTimer key) = True"
| "command_ok C (SendIrCode d code) = (known C d \<and> has_cap C d KIrTransmitter)"

section \<open>The helpers are honest\<close>

lemma honest_name: "honest (\<lambda>_. True) (as_name v node at)"
  by (auto simp: as_name_def split: option.split)

lemma honest_flag: "honest (\<lambda>_. True) (as_flag v node at)"
  by (auto simp: as_flag_def split: option.split)

lemma honest_payload: "honest (\<lambda>_. True) (payload de v node at)"
  by (auto simp: payload_def split: sum.split)

lemma honest_entry: "honest (\<lambda>_. True) (single_entry v node at)"
  unfolding single_entry_def by (auto split: yaml.split list.split prod.split option.split)

lemma honest_device: "honest (known C) (resolve_device C name at)"
  by (auto simp: resolve_device_def known_def split: option.split intro!: honest_ok)

lemma honest_cap: "honest (\<lambda>_. has_cap C d k) (require_cap C d name k usage at)"
proof -
  have "honest P (lo_mod (push_diag (diag_at at (diag_error code msg))))" for P :: "unit \<Rightarrow> bool" and code msg
    by (auto simp: honest_def lo_mod_def push_diag_def)
  then show ?thesis
    by (auto simp: require_cap_def has_cap_def Let_def split: option.split)
qed

lemma honest_numeric: "honest is_numeric (numeric_capability name at)"
  by (auto simp: numeric_capability_def unknown_capability_def split: option.split)

lemma honest_bool: "honest is_bool (bool_capability name at)"
  by (auto simp: bool_capability_def unknown_capability_def split: option.split)

lemma honest_any: "honest (\<lambda>_. True) (any_capability name at)"
  by (auto simp: any_capability_def unknown_capability_def split: option.split)

lemma honest_op: "honest (\<lambda>_. True) (parse_cmp_op s at)"
  by (auto simp: parse_cmp_op_def)

lemma honest_duration: "honest (\<lambda>_. True) (parse_duration s at)"
  by (auto simp: parse_duration_def split: option.split)

lemma honest_opt_duration: "honest (\<lambda>_. True) (opt_duration t at)"
  by (auto simp: opt_duration_def split: option.split intro!: honest_bind [OF honest_duration])

lemma honest_time: "honest (\<lambda>_. True) (parse_time s at)"
  by (auto simp: parse_time_def split: option.split prod.split)

lemma honest_color: "honest (\<lambda>_. True) (parse_color Y v at)"
  unfolding parse_color_def Let_def by (auto split: option.split)

lemma kelvin_mireds:
  "1000 \<le> k \<Longrightarrow> k \<le> 10000 \<Longrightarrow>
    unat (ucast (min (1000000 div k) 65535) :: u16) = 1000000 div unat (k :: u32) \<and>
    100 \<le> 1000000 div unat k \<and> 1000000 div unat k \<le> 1000"
proof -
  assume "1000 \<le> k" "k \<le> 10000"
  then have k: "1000 \<le> unat k" "unat k \<le> 10000"
    by (simp_all add: word_le_nat_alt)
  have lo: "100 \<le> 1000000 div unat k"
    using k div_le_mono2 [of "unat k" 10000 1000000] by simp
  have hi: "1000000 div unat k \<le> 1000"
    using k div_le_mono2 [of 1000 "unat k" 1000000] by simp
  have "unat (1000000 div k) = 1000000 div unat k"
    by (simp add: unat_div)
  then have "min (1000000 div k) 65535 = 1000000 div k"
    using hi by (simp add: min_def word_le_nat_alt)
  then have "unat (ucast (min (1000000 div k) 65535) :: u16) = 1000000 div unat k"
    using hi \<open>unat (1000000 div k) = 1000000 div unat k\<close> by (simp add: unat_ucast_mod)
  with lo hi show ?thesis
    by blast
qed

lemma honest_color_temperature:
  "honest (\<lambda>m. 100 \<le> m \<and> m \<le> 1000) (parse_color_temperature raw at)"
  using kelvin_mireds
  by (auto simp: parse_color_temperature_def word_le_nat_alt split: option.split)

lemma honest_event:
  "device_at (lc_devices C) d \<noteq> None \<Longrightarrow>
    honest (\<lambda>a. \<exists>def. device_at (lc_devices C) d = Some def \<and> a \<in> ev_id ` set (dd_events def))
      (resolve_event C d name event at)"
  by (auto simp: resolve_event_def find_Some_iff split: option.split)

section \<open>Lowering is honest\<close>

text \<open>
  The chains of \<open>lo_bind\<close> are taken apart step by step; what each step established is a premise of
  the steps after it.
\<close>

lemma honest_if: "(c \<Longrightarrow> honest P m) \<Longrightarrow> (\<not> c \<Longrightarrow> honest P m') \<Longrightarrow> honest P (if c then m else m')"
  by simp

lemma honest_under: "(\<And>x. P x \<Longrightarrow> A \<Longrightarrow> Q x) \<Longrightarrow> honest P m \<Longrightarrow> honest (\<lambda>x. A \<longrightarrow> Q x) m"
  by (erule honest_weaken) blast

lemmas honest_steps =
  honest_bind [OF honest_name] honest_bind [OF honest_flag] honest_bind [OF honest_payload]
  honest_bind [OF honest_entry] honest_bind [OF honest_device] honest_bind [OF honest_cap]
  honest_bind [OF honest_numeric] honest_bind [OF honest_bool] honest_bind [OF honest_any]
  honest_bind [OF honest_op] honest_bind [OF honest_duration] honest_bind [OF honest_opt_duration]
  honest_bind [OF honest_time] honest_bind [OF honest_color] honest_bind [OF honest_color_temperature]

lemma honest_note:
  "honest (\<lambda>_. True) (note_referenced_key key)" "honest (\<lambda>_. True) (note_scheduled_key key)"
  by (auto simp: note_referenced_key_def note_scheduled_key_def intro!: honest_mod)

lemma honest_changed: "honest (trigger_ok C) (lower_changed Y C p at)"
  unfolding lower_changed_def by (intro honest_steps honest_ok) auto

lemma honest_crosses: "honest (trigger_ok C) (lower_crosses Y C p at)"
proof -
  have "honest (\<lambda>_. True) (cross_bound c at)" for c
    by (auto simp: cross_bound_def split: option.split)
  note cross = honest_bind [OF this]
  show ?thesis
    unfolding lower_crosses_def
    by (intro honest_steps cross) (auto split: prod.split intro!: honest_ok)
qed

lemma honest_reports: "honest (trigger_ok C) (lower_reports Y C p at)"
  unfolding lower_reports_def by (intro honest_steps honest_ok) auto

lemma honest_schedule: "honest (trigger_ok C) (lower_schedule C p at)"
  unfolding lower_schedule_def
  by (intro honest_steps) (auto split: option.split intro!: honest_bind [OF honest_mod] honest_ok)

lemma honest_command_failed: "honest (trigger_ok C) (lower_command_failed C p at)"
  unfolding lower_command_failed_def
  by (intro honest_steps honest_if honest_ok) (auto split: option.split)

lemma known_device_at: "ctx_wf C \<Longrightarrow> known C d \<Longrightarrow> device_at (lc_devices C) d \<noteq> None"
  unfolding ctx_wf_def known_def list_all_iff by (auto dest!: map_of_SomeD)

definition appends :: "'a lowering \<Rightarrow> bool" where
  "appends m \<longleftrightarrow> (\<forall>s. \<exists>ds. l_diags (snd (m s)) = l_diags s @ ds)"

lemma honest_appends: "honest P m \<Longrightarrow> appends m"
  unfolding honest_def appends_def by blast

lemma appends_bind:
  assumes "appends m" and "\<And>a. appends (f a)"
  shows "appends (lo_bind m f)"
  unfolding appends_def
proof
  fix s
  obtain r s' where ms: "m s = (r, s')"
    by fastforce
  with assms(1) obtain ds where "l_diags s' = l_diags s @ ds"
    unfolding appends_def by (metis snd_conv)
  moreover have "\<exists>es. l_diags (snd (f a s')) = l_diags s' @ es" for a
    using assms(2) unfolding appends_def by blast
  ultimately show "\<exists>ds. l_diags (snd (lo_bind m f s)) = l_diags s @ ds"
    using ms by (cases r) (simp_all add: lo_bind_def, metis append.assoc)
qed

text \<open>A step that relies on what the one before it established.\<close>

lemma honest_bind_strict:
  assumes m: "honest P m" and f: "\<And>a. P a \<Longrightarrow> honest Q (f a)" and "\<And>a. appends (f a)"
  shows "honest Q (lo_bind m f)"
  unfolding honest_def
proof
  fix s
  obtain r s' where ms: "m s = (r, s')"
    by fastforce
  with m obtain ds where ds: "l_diags s' = l_diags s @ ds"
    "(\<exists>d \<in> set ds. is_error d) \<or> (case r of Some a \<Rightarrow> P a | None \<Rightarrow> False)"
    unfolding honest_def by (metis fst_conv snd_conv)
  show "\<exists>ds. l_diags (snd (lo_bind m f s)) = l_diags s @ ds \<and>
      ((\<exists>d \<in> set ds. is_error d) \<or> (case fst (lo_bind m f s) of Some a \<Rightarrow> Q a | None \<Rightarrow> False))"
  proof (cases r)
    case None
    with ds ms show ?thesis
      by (auto simp: lo_bind_def)
  next
    case (Some a)
    show ?thesis
    proof (cases "P a")
      case True
      with f obtain es where "l_diags (snd (f a s')) = l_diags s' @ es"
        "(\<exists>d \<in> set es. is_error d) \<or> (case fst (f a s') of Some x \<Rightarrow> Q x | None \<Rightarrow> False)"
        unfolding honest_def by blast
      with ds Some ms show ?thesis
        by (intro exI [of _ "ds @ es"]) (auto simp: lo_bind_def split: option.splits)
    next
      case False
      obtain es where "l_diags (snd (f a s')) = l_diags s' @ es"
        using assms(3) unfolding appends_def by blast
      with ds Some ms False show ?thesis
        by (intro exI [of _ "ds @ es"]) (auto simp: lo_bind_def)
    qed
  qed
qed

lemma appends_event: "appends (resolve_event C d n ev at)"
  by (auto simp: resolve_event_def appends_def lo_ok_def lo_error_def push_diag_def split: option.split)

lemma appends_ok: "appends (lo_ok a)"
  by (simp add: appends_def lo_ok_def)

lemma honest_lower_event:
  assumes "ctx_wf C"
  shows "honest (trigger_ok C) (lower_event C p at)"
proof -
  have "honest (trigger_ok C)
      (lo_bind (resolve_device C n at) (\<lambda>d. lo_bind (resolve_event C d n ev at) (\<lambda>a. lo_ok (TAction d a))))"
    for n ev
  proof (rule honest_bind_strict [OF honest_device])
    fix d
    assume d: "known C d"
    show "honest (trigger_ok C) (lo_bind (resolve_event C d n ev at) (\<lambda>a. lo_ok (TAction d a)))"
      by (rule honest_bind [OF honest_event [OF known_device_at [OF assms d]]]) (auto simp: d)
  qed (intro appends_bind appends_event appends_ok)
  then have "honest (\<lambda>x. True \<longrightarrow> trigger_ok C x)
      (lo_bind (resolve_device C n at) (\<lambda>d. lo_bind (resolve_event C d n ev at) (\<lambda>a. lo_ok (TAction d a))))"
    for n ev
    by simp
  then show ?thesis
    unfolding lower_event_def by (intro honest_bind [OF honest_name]) (auto split: option.split prod.split)
qed

lemma honest_timer:
  "honest (trigger_ok C) (lo_bind (as_name p node at) (\<lambda>key.
     lo_bind (note_referenced_key key) (\<lambda>_. lo_ok (TTimer (TimerKey key)))))"
  by (intro honest_steps honest_bind [OF honest_note(1)] honest_ok) auto

lemma honest_lower_trigger:
  assumes "ctx_wf C"
  shows "honest (trigger_ok C) (lower_trigger Y C v at)"
proof -
  have "honest (trigger_ok C)
      (if verb = ''event'' then lower_event C p at
       else if verb = ''changed'' then lower_changed Y C p at
       else if verb = ''crosses'' then lower_crosses Y C p at
       else if verb = ''reports'' then lower_reports Y C p at
       else if verb = ''timer'' then
         lo_bind (as_name p ''timer'' at) (\<lambda>key.
         lo_bind (note_referenced_key key) (\<lambda>_. lo_ok (TTimer (TimerKey key))))
       else if verb = ''schedule'' then lower_schedule C p at
       else if verb = ''command_failed'' then lower_command_failed C p at
       else lo_error ''E_UNKNOWN_TRIGGER'' (''unknown trigger '' @ quoted verb) at)" for verb p
    by (intro honest_if honest_lower_event [OF assms] honest_changed honest_crosses honest_reports
        honest_timer honest_schedule honest_command_failed honest_error)
  then show ?thesis
    unfolding lower_trigger_def
    by (intro honest_bind [OF honest_entry]) (auto split: prod.split simp del: trigger_ok.simps)
qed

lemma honest_switch:
  "(\<And>d. known C d \<Longrightarrow> has_cap C d KSwitch \<Longrightarrow> command_ok C (mk d)) \<Longrightarrow>
    honest (command_ok C) (lower_switch C verb mk p at)"
  unfolding lower_switch_def by (intro honest_steps honest_ok) auto

lemma honest_step:
  "(\<And>d v. known C d \<Longrightarrow> has_cap C d KBrightness \<Longrightarrow> command_ok C (mk d v)) \<Longrightarrow>
    honest (command_ok C) (lower_step_brightness C de verb mk p at)"
  unfolding lower_step_brightness_def by (intro honest_steps honest_ok) auto

lemma honest_set_brightness: "honest (command_ok C) (lower_set_brightness Y C p at)"
  unfolding lower_set_brightness_def by (intro honest_steps honest_ok) auto

lemma honest_set_color: "honest (command_ok C) (lower_set_color Y C p at)"
  unfolding lower_set_color_def
  by (intro honest_steps) (auto split: prod.split intro!: honest_steps honest_ok)

lemma honest_set_color_temperature: "honest (command_ok C) (lower_set_color_temperature Y C p at)"
  unfolding lower_set_color_temperature_def by (intro honest_steps honest_ok) auto

lemma honest_activate: "honest (command_ok C) (lower_activate_scene C p at)"
  unfolding lower_activate_scene_def
  by (intro honest_steps) (auto split: option.split intro!: honest_bind [OF honest_mod] honest_ok)

lemma honest_schedule_timer: "honest (command_ok C) (lower_schedule_timer Y p at)"
  unfolding lower_schedule_timer_def
  by (intro honest_steps honest_bind [OF honest_note(2)] honest_ok) auto

lemma honest_send_ir: "honest (command_ok C) (lower_send_ir_code Y C p at)"
  unfolding lower_send_ir_code_def by (intro honest_steps honest_ok) auto

lemma honest_cancel:
  "honest (command_ok C) (lo_bind (as_name p node at) (\<lambda>key.
     lo_bind (note_referenced_key key) (\<lambda>_. lo_ok (CancelTimer (TimerKey key)))))"
  by (intro honest_steps honest_bind [OF honest_note(1)] honest_ok) auto

lemma honest_lower_command: "honest (command_ok C) (lower_command Y C at v)"
proof -
  have "honest (command_ok C)
      (if verb = ''turn_on'' \<or> verb = ''turn_off'' then
         lower_switch C verb (\<lambda>d. SetSwitch d (verb = ''turn_on'')) p at
       else if verb = ''toggle'' then lower_switch C ''toggle'' ToggleSwitch p at
       else if verb = ''set_brightness'' then lower_set_brightness Y C p at
       else if verb = ''decrease_brightness'' then
         lower_step_brightness C (de_decrease_brightness Y) ''decrease_brightness'' DecreaseBrightness p at
       else if verb = ''increase_brightness'' then
         lower_step_brightness C (de_increase_brightness Y) ''increase_brightness'' IncreaseBrightness p at
       else if verb = ''set_color'' then lower_set_color Y C p at
       else if verb = ''set_color_temperature'' then lower_set_color_temperature Y C p at
       else if verb = ''activate_scene'' then lower_activate_scene C p at
       else if verb = ''schedule_timer'' then lower_schedule_timer Y p at
       else if verb = ''cancel_timer'' then
         lo_bind (as_name p ''cancel_timer'' at) (\<lambda>key.
         lo_bind (note_referenced_key key) (\<lambda>_. lo_ok (CancelTimer (TimerKey key))))
       else if verb = ''send_ir_code'' then lower_send_ir_code Y C p at
       else lo_error ''E_UNKNOWN_COMMAND'' (''unknown command '' @ quoted verb) at)" for verb p
    by (intro honest_if honest_switch honest_step honest_set_brightness honest_set_color
        honest_set_color_temperature honest_activate honest_schedule_timer honest_send_ir honest_cancel
        honest_error) simp_all
  then show ?thesis
    unfolding lower_command_def
    by (intro honest_bind [OF honest_entry]) (auto split: prod.split simp del: command_ok.simps)
qed

lemma honest_switch_is: "honest (condition_ok C) (lower_switch_is Y C p at)"
  unfolding lower_switch_is_def by (intro honest_steps honest_ok) auto

lemma honest_occupancy_is: "honest (condition_ok C) (lower_occupancy_is Y C p at)"
  unfolding lower_occupancy_is_def by (intro honest_steps honest_ok) auto

lemma honest_compare: "honest (condition_ok C) (lower_compare Y C p at)"
  unfolding lower_compare_def by (intro honest_steps honest_ok) auto

lemma honest_color_is: "honest (condition_ok C) (lower_color_is Y C p at)"
  unfolding lower_color_is_def
  by (intro honest_steps) (auto split: prod.split intro!: honest_ok)

lemma honest_lower_time: "honest (condition_ok C) (lower_time C node op p at)"
  unfolding lower_time_def by (intro honest_steps honest_ok) auto

lemma honest_sun_up:
  "honest (condition_ok C) (lo_bind (as_flag p node at) (\<lambda>b. lo_ok (BoolEquals (lc_clock_device C) KSunUp b)))"
  by (intro honest_steps honest_ok) auto

lemma honest_pair:
  assumes m: "honest P m" and m': "honest Q m'" and g: "\<And>c cs. P c \<Longrightarrow> Q cs \<Longrightarrow> R (g c cs)"
  shows "honest R (\<lambda>s. let (c, s) = m s; (cs, s) = m' s
    in (case (c, cs) of (Some c, Some cs) \<Rightarrow> Some (g c cs) | _ \<Rightarrow> None, s))"
  unfolding honest_def
proof
  fix s
  obtain c s' where c: "m s = (c, s')"
    by fastforce
  obtain cs s'' where cs: "m' s' = (cs, s'')"
    by fastforce
  obtain ds where ds: "l_diags s' = l_diags s @ ds"
    "(\<exists>d \<in> set ds. is_error d) \<or> (case c of Some a \<Rightarrow> P a | None \<Rightarrow> False)"
    using m c unfolding honest_def by (metis fst_conv snd_conv)
  obtain es where es: "l_diags s'' = l_diags s' @ es"
    "(\<exists>d \<in> set es. is_error d) \<or> (case cs of Some a \<Rightarrow> Q a | None \<Rightarrow> False)"
    using m' cs unfolding honest_def by (metis fst_conv snd_conv)
  let ?r = "let (c, s) = m s; (cs, s) = m' s
    in (case (c, cs) of (Some c, Some cs) \<Rightarrow> Some (g c cs) | _ \<Rightarrow> None, s)"
  show "\<exists>ds. l_diags (snd ?r) = l_diags s @ ds \<and>
      ((\<exists>d \<in> set ds. is_error d) \<or> (case fst ?r of Some a \<Rightarrow> R a | None \<Rightarrow> False))"
    using ds es g by (intro exI [of _ "ds @ es"]) (auto simp: c cs split: option.splits)
qed

lemma honest_lower_conditions:
  "honest (condition_ok C) (lower_condition Y C v at)"
  "honest (list_all (condition_ok C)) (lower_conditions Y C vs at)"
proof (induction Y C v at and Y C vs at rule: lower_condition_lower_conditions.induct)
  case (1 Y C k p at)
  have many: "honest (condition_ok C) (lo_bind (lower_conditions Y C vs at)
      (\<lambda>cs. lo_ok (if verb = ''all'' then And cs else Or cs)))"
    if "as_str k = Some verb" "verb = ''all'' \<or> verb = ''any''" "as_sequence p = Some vs" for verb vs
    using "1.IH"(1) [OF that] by (rule honest_bind) auto
  have one: "honest (condition_ok C) (lo_bind (lower_condition Y C p at) (\<lambda>c. lo_ok (Not c)))"
    if "as_str k = Some verb" "\<not> (verb = ''all'' \<or> verb = ''any'')" "verb = ''not''" for verb
    using "1.IH"(2) [OF that] by (rule honest_bind) auto
  have list: "honest (condition_ok C) (case as_sequence p of
        None \<Rightarrow> lo_error ''E_BAD_NODE'' (quoted verb @ '' expects a list of conditions'') at
      | Some vs \<Rightarrow> lo_bind (lower_conditions Y C vs at)
          (\<lambda>cs. lo_ok (if verb = ''all'' then And cs else Or cs)))"
    if k: "as_str k = Some verb" "verb = ''all'' \<or> verb = ''any''" for verb
  proof (cases "as_sequence p")
    case (Some vs)
    show ?thesis
      unfolding Some option.case by (rule many [OF k Some])
  qed (simp add: honest_error)
  show ?case
  proof (cases "as_str k")
    case (Some verb)
    then show ?thesis
      unfolding lower_condition.simps Some option.case
      by (intro honest_if honest_sun_up honest_switch_is honest_occupancy_is honest_compare
          honest_color_is honest_lower_time honest_error)
        (rule list [OF Some], assumption, rule one [OF Some], assumption+)
  qed (simp add: honest_error)
next
  case (4 Y C v vs at)
  have "honest (list_all (condition_ok C)) (lower_conditions Y C vs at)"
    using "4.IH"(2) by (metis surj_pair)
  with "4.IH"(1) show ?case
    unfolding lower_conditions.simps by (rule honest_pair) simp
qed auto

text \<open>Commands that fail are dropped from the list, but not silently.\<close>

lemma lower_commands_honest:
  "\<exists>ds. l_diags (snd (lower_commands Y C at vs s)) = l_diags s @ ds \<and>
    ((\<exists>d \<in> set ds. is_error d) \<or>
     length (fst (lower_commands Y C at vs s)) = length vs \<and>
     list_all (command_ok C) (fst (lower_commands Y C at vs s)))"
proof (induction vs arbitrary: s)
  case (Cons v vs)
  obtain c s' where c: "lower_command Y C at v s = (c, s')"
    by fastforce
  then obtain ds where ds: "l_diags s' = l_diags s @ ds"
    "(\<exists>d \<in> set ds. is_error d) \<or> (case c of Some a \<Rightarrow> command_ok C a | None \<Rightarrow> False)"
    using honest_lower_command [of C Y at v] unfolding honest_def by (metis fst_conv snd_conv)
  obtain cs s'' where cs: "lower_commands Y C at vs s' = (cs, s'')"
    by fastforce
  from Cons.IH [of s'] obtain es where es: "l_diags s'' = l_diags s' @ es"
    "(\<exists>d \<in> set es. is_error d) \<or> length cs = length vs \<and> list_all (command_ok C) cs"
    by (auto simp: cs)
  from ds es show ?case
    by (intro exI [of _ "ds @ es"]) (auto simp: c cs split: option.splits)
qed simp

section \<open>Properties\<close>

text \<open>
  Lowering a trigger is sound. It only adds diagnostics; when it adds no error it gives a trigger
  whose device is declared, declares the capability, and has the shape the trigger compares, so a
  trigger that can never match for such a reason is a compile error.
\<close>

theorem lower_trigger_sound:
  assumes "ctx_wf C"
  shows "\<exists>ds. l_diags (snd (lower_trigger Y C v at s)) = l_diags s @ ds \<and>
    ((\<exists>d \<in> set ds. is_error d) \<or>
     (\<exists>t. fst (lower_trigger Y C v at s) = Some t \<and> trigger_ok C t))"
proof -
  obtain ds where "l_diags (snd (lower_trigger Y C v at s)) = l_diags s @ ds"
    "(\<exists>d \<in> set ds. is_error d) \<or>
      (case fst (lower_trigger Y C v at s) of Some t \<Rightarrow> trigger_ok C t | None \<Rightarrow> False)"
    using honest_lower_trigger [OF assms, of Y v at] unfolding honest_def by blast
  then show ?thesis
    by (intro exI [of _ ds]) (auto split: option.splits)
qed

text \<open>A configuration of one motion sensor, with a decoder of the one payload it uses.\<close>

definition empty_lower :: lower_state where
  "empty_lower = \<lparr>l_diags = [], l_scheduled_keys = [], l_referenced_keys = [], l_used_scenes = [],
     l_referenced_schedules = []\<rparr>"

definition sensor_ctx :: lower_ctx where
  "sensor_ctx =
     \<lparr>lc_devices = [\<lparr>dd_id = DeviceId 0, dd_name = ''hall'', dd_adapter = 0, dd_address = None,
        dd_endpoint = None, dd_capabilities = [KOccupancy], dd_events = [],
        dd_metadata = \<lparr>dm_manufacturer = None, dm_model = None, dm_room = None\<rparr>\<rparr>],
      lc_device_index = [(''hall'', DeviceId 0)], lc_scene_index = [], lc_schedule_index = [],
      lc_clock_device = DeviceId 1\<rparr>"

definition unsupported :: "nat yaml \<Rightarrow> string + 'a" where
  "unsupported v = Inl ''unsupported''"

definition sensor_serde :: "nat serde" where
  "sensor_serde =
     \<lparr>de_u64 = (\<lambda>n. Some (word_of_nat n)), de_switch_is = unsupported, de_occupancy_is = unsupported,
       de_changed = (\<lambda>v. case v of
          VMapping [(VString _, VString d), (VString _, VString c), (VString _, VBool b)] \<Rightarrow>
            Inr \<lparr>ch_device = d, ch_capability = c, ch_to = b\<rparr>
        | _ \<Rightarrow> Inl ''invalid type''),
       de_crosses = unsupported, de_reports = unsupported, de_compare = unsupported, de_set_brightness = unsupported,
       de_decrease_brightness = unsupported, de_increase_brightness = unsupported, de_set_color = unsupported, de_color_is = unsupported,
       de_set_color_temperature = unsupported, de_schedule_timer = unsupported, de_send_ir_code = unsupported\<rparr>"

definition motion_node :: "nat yaml" where
  "motion_node = VMapping [(VString ''changed'',
     VMapping [(VString ''device'', VString ''hall''), (VString ''capability'', VString ''occupancy''),
       (VString ''to'', VBool True)])]"

theorem lower_trigger_sound_witness:
  "trigger_ok sensor_ctx (TChanged (DeviceId 0) KOccupancy True)"
proof -
  have "ctx_wf sensor_ctx"
    by code_simp
  moreover have "lower_trigger sensor_serde sensor_ctx motion_node ''rule'' empty_lower =
      (Some (TChanged (DeviceId 0) KOccupancy True), empty_lower)"
    by code_simp
  ultimately show ?thesis
    using lower_trigger_sound [of sensor_ctx sensor_serde motion_node "''rule''" empty_lower]
    by (simp add: empty_lower_def)
qed

text \<open>
  Lowering a condition is sound, to any nesting. Without a new error every comparison is on a
  declared device that declares a capability of the right shape, or on the clock; so a condition that
  is unknown for ever for such a reason is a compile error, and none is dropped silently.
\<close>

theorem lower_condition_sound:
  "\<exists>ds. l_diags (snd (lower_condition Y C v at s)) = l_diags s @ ds \<and>
    ((\<exists>d \<in> set ds. is_error d) \<or>
     (\<exists>c. fst (lower_condition Y C v at s) = Some c \<and> condition_ok C c))"
proof -
  obtain ds where "l_diags (snd (lower_condition Y C v at s)) = l_diags s @ ds"
    "(\<exists>d \<in> set ds. is_error d) \<or>
      (case fst (lower_condition Y C v at s) of Some c \<Rightarrow> condition_ok C c | None \<Rightarrow> False)"
    using honest_lower_conditions(1) [of C Y v at] unfolding honest_def by blast
  then show ?thesis
    by (intro exI [of _ ds]) (auto split: option.splits)
qed

text \<open>
  No command is dropped silently. Lowering a list of commands only adds diagnostics; without a
  new error there is one command for each node, each on a declared device with the capability it
  needs, a declared scene, or a timer.
\<close>

theorem lower_commands_complete:
  "\<exists>ds. l_diags (snd (lower_commands Y C at vs s)) = l_diags s @ ds \<and>
    ((\<exists>d \<in> set ds. is_error d) \<or>
     length (fst (lower_commands Y C at vs s)) = length vs \<and>
     list_all (command_ok C) (fst (lower_commands Y C at vs s)))"
  by (rule lower_commands_honest)

section \<open>Durations and times\<close>

text \<open>A character that no white space starts or ends with, as a byte.\<close>

definition plain :: "char \<Rightarrow> bool" where
  "plain c \<longleftrightarrow> 33 \<le> (of_char c :: nat) \<and> (of_char c :: nat) \<le> 126"

lemma white_space_ends:
  "\<forall>w \<in> set white_space. w \<noteq> [] \<and> \<not> plain (hd w) \<and> \<not> plain (last w)"
  unfolding white_space_def utf8_bytes_def plain_def by simp

lemma drop_any_id: "(\<And>w. w \<in> set ws \<Longrightarrow> \<not> starts_with w s) \<Longrightarrow> drop_any n ws s = s"
  by (cases n) (auto simp: find_None_iff split: option.split dest!: find_Some_iff [THEN iffD1] nth_mem)

lemma starts_with_hd: "starts_with w s \<Longrightarrow> w \<noteq> [] \<Longrightarrow> s \<noteq> [] \<and> hd s = hd w"
  by (auto simp: starts_with_iff)

lemma trim_plain:
  assumes "s \<noteq> []" and "plain (hd s)" and "plain (last s)"
  shows "trim s = s"
proof -
  have "\<not> starts_with w s" if "w \<in> set white_space" for w
    using that assms white_space_ends starts_with_hd by metis
  then have start: "trim_start s = s"
    unfolding trim_start_def by (rule drop_any_id)
  have "\<not> starts_with w (rev s)" if w: "w \<in> set (map rev white_space)" for w
  proof
    assume start: "starts_with w (rev s)"
    from w obtain v where v: "w = rev v" "v \<in> set white_space"
      by auto
    with white_space_ends have "v \<noteq> []" "\<not> plain (last v)"
      by blast+
    moreover from starts_with_hd [OF start] v(1) \<open>v \<noteq> []\<close> have "hd (rev s) = hd (rev v)"
      by simp
    ultimately show False
      using assms(1,3) by (simp add: hd_rev)
  qed
  then have "trim_end s = s"
    unfolding trim_end_def by (subst drop_any_id) auto
  with start show ?thesis
    by (simp add: trim_def)
qed

lemma plain_digit: "is_digit c \<Longrightarrow> plain c"
  by (simp add: is_digit_def plain_def)

lemma digit_not_letter: "is_digit c \<Longrightarrow> \<not> is_ascii_alphabetic c"
  by (auto simp: is_digit_def is_ascii_alphabetic_def Let_def)

lemma plain_letter: "is_ascii_alphabetic c \<Longrightarrow> plain c"
  by (auto simp: plain_def is_ascii_alphabetic_def Let_def)

lemma trim_digits: "list_all is_digit ds \<Longrightarrow> ds \<noteq> [] \<Longrightarrow> trim ds = ds"
  by (rule trim_plain) (auto simp: list_all_iff intro: plain_digit)

lemma unit_letters: "unit_millis u = Some m \<Longrightarrow> u \<noteq> [] \<and> is_ascii_alphabetic (hd u) \<and> is_ascii_alphabetic (last u)"
  by (auto simp: unit_millis_def is_ascii_alphabetic_def split: if_splits)

lemma duration_of_decimal:
  assumes "unit_millis u = Some m"
  shows "duration_of (decimal (unat n) @ u) = checked_mul n m"
proof -
  note u = unit_letters [OF assms]
  let ?ds = "decimal (unat n)"
  have ds: "\<And>c. c \<in> set ?ds \<Longrightarrow> is_digit c"
    using decimal_digits [of "unat n"] by (simp add: list_all_iff)
  have "plain (hd (?ds @ u))" and "plain (last (?ds @ u))"
    using ds [OF hd_in_set] u by (simp_all add: plain_digit plain_letter)
  then have trim: "trim (?ds @ u) = ?ds @ u"
    by (intro trim_plain) simp_all
  have num: "takeWhile (\<lambda>c. \<not> is_ascii_alphabetic c) (?ds @ u) = ?ds"
    "dropWhile (\<lambda>c. \<not> is_ascii_alphabetic c) (?ds @ u) = u"
    using ds digit_not_letter u by (cases u; auto simp: takeWhile_append2 dropWhile_append2)+
  have "trim ?ds = ?ds"
    by (rule trim_digits [OF decimal_digits]) simp
  moreover have "parse_u64 ?ds = Some n"
    using unat_less_pow [of n] by (simp add: parse_u64_def parse_uint_decimal)
  ultimately show ?thesis
    unfolding duration_of_def Let_def trim num using u assms by simp
qed

text \<open>
  Durations are exact or rejected. A number with a unit is that many milliseconds, and a duration
  that does not fit in 64 bits is an error, never a wrapped-around short delay.
\<close>

theorem duration_exact:
  fixes n :: u64
  assumes "unit_millis u = Some m"
  shows "if unat n * unat m < 2 ^ 64
    then \<exists>ms. parse_duration (decimal (unat n) @ u) at s = (Some ms, s) \<and> unat ms = unat n * unat m
    else fst (parse_duration (decimal (unat n) @ u) at s) = None"
proof (cases "checked_mul n m")
  case None
  then have "\<not> unat n * unat m < 2 ^ 64"
    using checked_mul_None [where a = n and b = m] by simp
  with None show ?thesis
    by (simp add: parse_duration_def duration_of_decimal [OF assms] lo_error_def)
next
  case (Some ms)
  moreover have "unat n * unat m < 2 ^ 64"
    using checked_mul_None [where a = n and b = m] Some by (simp add: not_le)
  ultimately show ?thesis
    by (simp add: parse_duration_def duration_of_decimal [OF assms] lo_ok_def checked_mul_Some)
qed

theorem duration_exact_witness:
  "\<exists>ms. parse_duration (decimal (unat (10 :: u64)) @ ''m'') ''rule'' empty_lower = (Some ms, empty_lower) \<and>
    unat ms = 600000"
  using duration_exact [of "''m''" 60000 10 "''rule''" empty_lower] by (simp add: unit_millis_def)

section \<open>Times of day\<close>

definition two_digits :: "nat \<Rightarrow> string" where
  "two_digits n = [digit_char (n div 10), digit_char (n mod 10)]"

lemma two_digits_digits: "n < 100 \<Longrightarrow> list_all is_digit (two_digits n) \<and> two_digits n \<noteq> []"
  by (simp add: two_digits_def)

lemma parse_two_digits: "n < 100 \<Longrightarrow> parse_u16 (two_digits n) = Some (word_of_nat n)"
proof -
  assume n: "n < 100"
  have "take 1 (two_digits n) \<noteq> ''+''"
  proof -
    have "n div 10 < 10"
      using n by simp
    then have "digit_char (n div 10) \<noteq> CHR ''+''"
      using is_digit_char plus_not_digit by metis
    then show ?thesis
      by (simp add: two_digits_def)
  qed
  moreover have "digits_to_nat (two_digits n) = n"
    using n by (simp add: two_digits_def digits_to_nat_def)
  ultimately show ?thesis
    using n two_digits_digits [OF n] by (simp add: parse_u16_def parse_uint_def Let_def)
qed

lemma hour_minute_of:
  assumes "h < 24" and "m < 60"
  shows "hour_minute (two_digits h @ CHR '':'' # two_digits m) = Some (word_of_nat h, word_of_nat m)"
proof -
  let ?s = "two_digits h @ CHR '':'' # two_digits m"
  have h: "list_all is_digit (two_digits h)" "two_digits h \<noteq> []"
    and m: "list_all is_digit (two_digits m)" "two_digits m \<noteq> []"
    using assms two_digits_digits by auto
  have "trim ?s = ?s"
    using h m by (intro trim_plain) (auto simp: two_digits_def intro: plain_digit)
  moreover have "CHR '':'' \<notin> set (two_digits h)"
    using h(1) by (auto simp: list_all_iff is_digit_def)
  then have "split_once CHR '':'' ?s = Some (two_digits h, two_digits m)"
    using split_once_append [of "CHR '':''" "two_digits h" "two_digits m"] by simp
  ultimately show ?thesis
    using assms trim_digits [OF h] trim_digits [OF m]
    by (simp add: hour_minute_def parse_two_digits word_less_nat_alt unat_of_nat)
qed

text \<open>
  Times of day round-trip, and are minutes of a day. \<open>HH:MM\<close> is read as the minute it names, and
  whatever string is read gives a minute below 1440.
\<close>

theorem time_roundtrip:
  "(\<exists>m. parse_time (two_digits (t mod 1440 div 60) @ '':'' @ two_digits (t mod 60)) at s = (Some m, s) \<and>
      unat m = t mod 1440) \<and>
   (case fst (parse_time x at s) of Some m \<Rightarrow> unat m < 1440 | None \<Rightarrow> True)"
proof
  let ?h = "t mod 1440 div 60" and ?m = "t mod 60"
  have h: "?h < 24" and m: "?m < 60"
    by simp_all
  have "t mod 1440 mod 60 = t mod 60"
    by (simp add: mod_mod_cancel)
  then have t: "?h * 60 + ?m = t mod 1440"
    using div_mult_mod_eq [of "t mod 1440" 60] by simp
  have "unat (word_of_nat ?h * 60 + word_of_nat ?m :: u16) = ?h * 60 + ?m"
    using h m by (simp add: unat_word_ariths unat_of_nat)
  then show "\<exists>r. parse_time (two_digits ?h @ '':'' @ two_digits ?m) at s = (Some r, s) \<and> unat r = t mod 1440"
    using t by (simp add: parse_time_def hour_minute_of [OF h m] lo_ok_def)
next
  show "case fst (parse_time x at s) of Some m \<Rightarrow> unat m < 1440 | None \<Rightarrow> True"
  proof (cases "hour_minute x")
    case (Some hm)
    then obtain h m where hm: "hm = (h, m)" "h < 24" "m < 60"
      by (auto simp: hour_minute_def split: option.splits prod.splits if_splits)
    then have "unat h < 24" "unat m < 60"
      by (simp_all add: word_less_nat_alt)
    then have "unat (h * 60 + m) < 1440"
      by (simp add: unat_word_ariths)
    with Some hm show ?thesis
      by (simp add: parse_time_def lo_ok_def)
  qed (simp add: parse_time_def lo_error_def)
qed

end
