(* ===== verification/Resolve.thy ===== *)
theory Resolve
  imports Lower_Props Adapters
begin

text \<open>
  Semantic analysis (\<open>compile/resolve.rs\<close>) and the registration seam of the adapters
  (\<open>adapters/plugin.rs\<close>): the raw configuration becomes a resolved object graph, or the list of
  everything that is wrong with it.
\<close>

section \<open>Plugins\<close>

datatype polarity = Southbound | Northbound

datatype expose_spec = ExposeAll | ExposeNamed "string list"

record northbound_ctx =
  nc_adapter_name :: string
  nc_runtime_storage_dir :: string

text \<open>
  A \<open>dyn AdapterPlugin\<close> is the table of its methods. The two validation hooks push diagnostics: they
  are functions to the list of what they push. \<open>build\<close> is \<open>None\<close> where the method panics, as its
  default does. \<open>'x\<close> and \<open>'b\<close> are the states of the adapters built, \<open>'w\<close> the waker.
\<close>

record ('n, 'x, 'b, 'w) plugin =
  type_tag :: string
  polarity :: polarity
  expose_spec :: "'n yaml \<Rightarrow> expose_spec option"
  validate_config :: "'n yaml \<Rightarrow> string \<Rightarrow> diagnostic list"
  validate_device :: "'n yaml \<Rightarrow> device_def \<Rightarrow> string \<Rightarrow> diagnostic list"
  build :: "'n yaml \<Rightarrow> device_def list \<Rightarrow> 'w option \<Rightarrow> 'x option"
  build_northbound :: "'n yaml \<Rightarrow> device_def list \<Rightarrow> 'w option \<Rightarrow> northbound_ctx \<Rightarrow> 'b option"

text \<open>The default methods of the trait.\<close>

definition default_plugin :: "string \<Rightarrow> ('n, 'x, 'b, 'w) plugin" where
  "default_plugin tag =
     \<lparr>type_tag = tag, polarity = Southbound, expose_spec = (\<lambda>_. None), validate_config = (\<lambda>_ _. []),
      validate_device = (\<lambda>_ _ _. []), build = (\<lambda>_ _ _. None), build_northbound = (\<lambda>_ _ _ _. None)\<rparr>"

definition plugin_for ::
  "('n, 'x, 'b, 'w) plugin list \<Rightarrow> string \<Rightarrow> ('n, 'x, 'b, 'w) plugin option" where
  "plugin_for reg tag = find (\<lambda>p. type_tag p = tag) reg"

definition is_northbound :: "('n, 'x, 'b, 'w) plugin option \<Rightarrow> bool" where
  "is_northbound p = (case p of Some p \<Rightarrow> polarity p = Northbound | None \<Rightarrow> False)"

section \<open>The in-process plugins\<close>

text \<open>\<open>config_of\<close>: the deserialized block, or one diagnostic with the library's message.\<close>

definition config_of :: "('n yaml \<Rightarrow> string + 'a) \<Rightarrow> 'n yaml \<Rightarrow> string \<Rightarrow> 'a option \<times> diagnostic list" where
  "config_of de config at =
     (case de config of
        Inr a \<Rightarrow> (Some a, [])
      | Inl e \<Rightarrow> (None, [diag_at at (diag_error ''E_ADAPTER_CONFIG'' e)]))"

definition mock_plugin :: "('n, unit, 'b, 'w) plugin" where
  "mock_plugin = (default_plugin ''mock'')\<lparr>build := (\<lambda>_ _ _. Some ())\<rparr>"

definition virtual_plugin :: "('n, unit, 'b, 'w) plugin" where
  "virtual_plugin = (default_plugin ''virtual'')\<lparr>build := (\<lambda>_ _ _. Some ())\<rparr>"

datatype expose_config = Unset | Keyword string | Names "string list"

definition mock_nb_validate ::
  "('n yaml \<Rightarrow> string + expose_config) \<Rightarrow> 'n yaml \<Rightarrow> string \<Rightarrow> diagnostic list" where
  "mock_nb_validate de config at =
     (case config_of de config at of
        (Some (Keyword k), diags) \<Rightarrow>
          if k = ''all'' then diags
          else diags @ [diag_at at (diag_error ''E_ADAPTER_CONFIG''
                 (''`expose` keyword must be '' @ quoted ''all'' @ '', got '' @ quoted k))]
      | (_, diags) \<Rightarrow> diags)"

definition mock_nb_expose ::
  "('n yaml \<Rightarrow> string + expose_config) \<Rightarrow> 'n yaml \<Rightarrow> expose_spec option" where
  "mock_nb_expose de config =
     (case de config of
        Inl _ \<Rightarrow> None
      | Inr (Names names) \<Rightarrow> Some (ExposeNamed names)
      | Inr _ \<Rightarrow> Some ExposeAll)"

definition mock_nb_plugin ::
  "('n yaml \<Rightarrow> string + expose_config) \<Rightarrow> ('n, 'x, mock_northbound, 'w) plugin" where
  "mock_nb_plugin de =
     (default_plugin ''mock_northbound'')
       \<lparr>polarity := Northbound, expose_spec := mock_nb_expose de,
        validate_config := mock_nb_validate de,
        build_northbound := (\<lambda>_ _ _ _. Some mock_nb_new)\<rparr>"

text \<open>The registry \<open>PLUGINS\<close>, around the three protocol plugins it lists first.\<close>

definition plugins ::
  "('n, unit, mock_northbound, 'w) plugin list \<Rightarrow> ('n yaml \<Rightarrow> string + expose_config) \<Rightarrow>
   ('n, unit, mock_northbound, 'w) plugin list" where
  "plugins protocols de = protocols @ [mock_plugin, mock_nb_plugin de, virtual_plugin]"

section \<open>The object graph\<close>

record 'f system_config =
  sc_name :: "string option"
  sc_timezone :: string
  sc_latitude :: 'f
  sc_longitude :: 'f
  sc_runtime_storage_path :: "string option"
  sc_healthcheck :: "raw_healthcheck option"
  sc_rest_api :: "raw_rest_api option"

definition runtime_storage_dir :: "'f system_config \<Rightarrow> string \<Rightarrow> string" where
  "runtime_storage_dir sys config_dir =
     (case sc_runtime_storage_path sys of Some p \<Rightarrow> p | None \<Rightarrow> config_dir)"

record ('n, 'x, 'b, 'w) adapter_def =
  ad_name :: string
  ad_plugin :: "('n, 'x, 'b, 'w) plugin option"
  ad_config :: "'n yaml"

record compiled_scene =
  cs_id :: scene_id
  cs_name :: string
  cs_commands :: "command list"

record compiled_schedule =
  ck_id :: schedule_id
  ck_name :: string
  ck_cron :: string

record ('n, 'f, 'x, 'b, 'w) compiled_config =
  cc_system :: "'f system_config"
  cc_adapters :: "('n, 'x, 'b, 'w) adapter_def list"
  cc_devices :: "device_def list"
  cc_scenes :: "compiled_scene list"
  cc_schedules :: "compiled_schedule list"
  cc_rules :: "rule list"
  cc_warnings :: "diagnostic list"
  cc_adapter_index :: "(string, nat) hashmap"
  cc_device_index :: "(string, device_id) hashmap"
  cc_scene_index :: "(string, scene_id) hashmap"
  cc_schedule_index :: "(string, schedule_id) hashmap"
  cc_clock_device :: device_id

text \<open>The accessors \<open>device_id\<close>, \<open>adapter_idx\<close>, \<open>scene_id\<close> and \<open>schedule_id\<close>.\<close>

definition cc_device_id :: "('n, 'f, 'x, 'b, 'w) compiled_config \<Rightarrow> string \<Rightarrow> device_id option" where
  "cc_device_id cfg name = hm_get (cc_device_index cfg) name"

definition cc_adapter_idx :: "('n, 'f, 'x, 'b, 'w) compiled_config \<Rightarrow> string \<Rightarrow> nat option" where
  "cc_adapter_idx cfg name = hm_get (cc_adapter_index cfg) name"

definition cc_scene_id :: "('n, 'f, 'x, 'b, 'w) compiled_config \<Rightarrow> string \<Rightarrow> scene_id option" where
  "cc_scene_id cfg name = hm_get (cc_scene_index cfg) name"

definition cc_schedule_id ::
  "('n, 'f, 'x, 'b, 'w) compiled_config \<Rightarrow> string \<Rightarrow> schedule_id option" where
  "cc_schedule_id cfg name = hm_get (cc_schedule_index cfg) name"

definition cc_device :: "('n, 'f, 'x, 'b, 'w) compiled_config \<Rightarrow> device_id \<Rightarrow> device_def option" where
  "cc_device cfg d = device_at (cc_devices cfg) d"

definition cc_action_id ::
  "('n, 'f, 'x, 'b, 'w) compiled_config \<Rightarrow> device_id \<Rightarrow> string \<Rightarrow> action_id option" where
  "cc_action_id cfg d event =
     Option.bind (cc_device cfg d)
       (\<lambda>def. map_option ev_id (find (\<lambda>e. ev_name e = event) (dd_events def)))"

text \<open>
  The libraries the pass calls: deserialization, \<open>chrono_tz::Tz::from_str\<close>, \<open>croner::Cron::from_str\<close>
  with its error as displayed, and the literal \<open>0.0\<close>.
\<close>

record ('n, 'f, 'z, 'c) lib =
  lib_serde :: "'n serde"
  lib_tz :: "string \<Rightarrow> 'z option"
  lib_cron :: "string \<Rightarrow> string + 'c"
  lib_zero :: 'f

section \<open>Adapters\<close>

definition in_adapter :: "string \<Rightarrow> string" where
  "in_adapter name = ''adapter '' @ quoted name"

definition in_device :: "string \<Rightarrow> string" where
  "in_device name = ''device '' @ quoted name"

definition in_schedule :: "string \<Rightarrow> string" where
  "in_schedule name = ''schedule '' @ quoted name"

definition in_scene :: "string \<Rightarrow> string" where
  "in_scene name = ''scene '' @ quoted name"

definition in_rule :: "string \<Rightarrow> string" where
  "in_rule name = ''rule '' @ quoted name"

definition adapter_diags ::
  "('n, 'x, 'b, 'w) plugin list \<Rightarrow> string \<Rightarrow> 'n raw_adapter \<Rightarrow> diagnostic list" where
  "adapter_diags reg name raw =
     (case plugin_for reg (ra_kind raw) of
        None \<Rightarrow> [diag_at (in_adapter name) (diag_error ''E_UNKNOWN_ADAPTER_TYPE''
                  (''unknown adapter type '' @ quoted (ra_kind raw)))]
      | Some p \<Rightarrow> validate_config p (ra_config raw) (in_adapter name))"

fun resolve_adapters ::
  "('n, 'x, 'b, 'w) plugin list \<Rightarrow> 'n raw_adapter btree \<Rightarrow>
   ('n, 'x, 'b, 'w) adapter_def list \<Rightarrow> (string, nat) hashmap \<Rightarrow> diagnostic list \<Rightarrow>
   ('n, 'x, 'b, 'w) adapter_def list \<times> (string, nat) hashmap \<times> diagnostic list" where
  "resolve_adapters reg [] adapters index diags = (adapters, index, diags)"
| "resolve_adapters reg ((name, raw) # raws) adapters index diags =
     resolve_adapters reg raws
       (adapters @ [\<lparr>ad_name = name, ad_plugin = plugin_for reg (ra_kind raw), ad_config = ra_config raw\<rparr>])
       (hm_insert name (length adapters) index)
       (diags @ adapter_diags reg name raw)"

section \<open>Devices\<close>

record device_state =
  v_devices :: "device_def list"
  v_index :: "(string, device_id) hashmap"
  v_used :: "nat list"
  v_next_action :: u32
  v_diags :: "diagnostic list"

fun resolve_capabilities :: "string \<Rightarrow> string list \<Rightarrow> capability_kind list \<times> diagnostic list" where
  "resolve_capabilities at [] = ([], [])"
| "resolve_capabilities at (cap # caps) =
     (let (kinds, diags) = resolve_capabilities at caps
      in case parse_capability cap of
           Some k \<Rightarrow> (k # kinds, diags)
         | None \<Rightarrow> (kinds, diag_at at (diag_error ''E_UNKNOWN_CAPABILITY''
             (''unknown capability '' @ quoted cap)) # diags))"

fun intern_events :: "u32 \<Rightarrow> string btree \<Rightarrow> device_event list \<times> u32" where
  "intern_events next [] = ([], next)"
| "intern_events next ((name, raw) # evs) =
     (let (es, next') = intern_events (next + 1) evs
      in (\<lparr>ev_id = ActionId next, ev_name = name, ev_raw = raw\<rparr> # es, next'))"

definition device_step ::
  "(string, nat) hashmap \<Rightarrow> string \<times> raw_device \<Rightarrow> device_state \<Rightarrow> device_state" where
  "device_step adapter_index = (\<lambda>(name, raw) s.
     (let at = in_device name;
          adapter = hm_get adapter_index (rd_adapter raw);
          s = (case adapter of
                 Some idx \<Rightarrow> s\<lparr>v_used := List.insert idx (v_used s)\<rparr>
               | None \<Rightarrow> s\<lparr>v_diags := v_diags s @
                   [diag_at at (diag_error ''E_UNKNOWN_ADAPTER''
                     (''references unknown adapter '' @ quoted (rd_adapter raw)))]\<rparr>);
          (capabilities, cap_diags) = resolve_capabilities at (rd_capabilities raw);
          inert =
            (if rd_capabilities raw = [] \<and> rd_events raw = []
             then [diag_at at (diag_warning ''E_INERT_DEVICE''
                    (''device declares neither capabilities nor events, '' @
                     ''so it can'' @ [char_of (39 :: nat)] @ ''t be commanded or trigger rules''))]
             else []);
          (events, next') = intern_events (v_next_action s) (rd_events raw);
          s = s\<lparr>v_diags := v_diags s @ cap_diags @ inert, v_next_action := next'\<rparr>
      in case adapter of
           None \<Rightarrow> s
         | Some idx \<Rightarrow>
             (let i = DeviceId (word_of_nat (length (v_devices s)));
                  meta = \<lparr>dm_manufacturer = rd_manufacturer raw, dm_model = rd_model raw,
                          dm_room = rd_room raw\<rparr>;
                  def = \<lparr>dd_id = i, dd_name = name, dd_adapter = idx, dd_address = rd_address raw,
                         dd_endpoint = rd_endpoint raw, dd_capabilities = capabilities,
                         dd_events = events, dd_metadata = meta\<rparr>
              in s\<lparr>v_index := hm_insert name i (v_index s), v_devices := v_devices s @ [def]\<rparr>)))"

definition resolve_devices ::
  "(string, nat) hashmap \<Rightarrow> raw_device btree \<Rightarrow> diagnostic list \<Rightarrow> device_state" where
  "resolve_devices adapter_index raws diags =
     fold (device_step adapter_index) raws
       \<lparr>v_devices = [], v_index = [], v_used = [], v_next_action = 0, v_diags = diags\<rparr>"

section \<open>Scenes and schedules\<close>

definition scene_index_of :: "'a btree \<Rightarrow> (string, scene_id) hashmap" where
  "scene_index_of raws =
     fold (\<lambda>(name, _) index. hm_insert name (SceneId (word_of_nat (length index))) index) raws []"

text \<open>\<open>"HH:MM"\<close> and a day-of-week field, as a cron expression: \<open>hour_minute\<close> reads the same forms.\<close>

definition desugar_time :: "string \<Rightarrow> string \<Rightarrow> string option" where
  "desugar_time hhmm dow =
     (case hour_minute hhmm of
        Some (h, m) \<Rightarrow> Some (decimal (unat m) @ '' '' @ decimal (unat h) @ '' * * '' @ dow)
      | None \<Rightarrow> None)"

fun sugar_forms ::
  "string \<Rightarrow> (string option \<times> string) list \<Rightarrow> string list \<Rightarrow> string list option \<times> diagnostic list" where
  "sugar_forms at [] forms = (Some forms, [])"
| "sugar_forms at ((None, dow) # rest) forms = sugar_forms at rest forms"
| "sugar_forms at ((Some hhmm, dow) # rest) forms =
     (case desugar_time hhmm dow of
        Some cron \<Rightarrow> sugar_forms at rest (forms @ [cron])
      | None \<Rightarrow> (None, [diag_at at (diag_error ''E_BAD_TIME'' (bad_time hhmm))]))"

definition resolve_schedule ::
  "(string \<Rightarrow> string + 'c) \<Rightarrow> string \<Rightarrow> raw_schedule \<Rightarrow> string option \<times> diagnostic list" where
  "resolve_schedule cron_parse name raw =
     (let at = in_schedule name;
          forms = (case rs_cron raw of Some e \<Rightarrow> [e] | None \<Rightarrow> [])
      in case sugar_forms at
             [(rs_daily raw, ''*''), (rs_weekday raw, ''1-5''), (rs_weekend raw, ''0,6'')] forms of
           (None, diags) \<Rightarrow> (None, diags)
         | (Some [cron], _) \<Rightarrow>
             (case cron_parse cron of
                Inr _ \<Rightarrow> (Some cron, [])
              | Inl e \<Rightarrow> (None, [diag_at at (diag_error ''E_BAD_CRON''
                           (''invalid cron '' @ quoted cron @ '': '' @ e))]))
         | (Some [], _) \<Rightarrow> (None, [diag_at at (diag_error ''E_BAD_SCHEDULE''
             ''schedule needs one of: cron, daily, weekday, weekend'')])
         | (Some _, _) \<Rightarrow> (None, [diag_at at (diag_error ''E_BAD_SCHEDULE''
             ''schedule must set exactly one of: cron, daily, weekday, weekend'')]))"

fun resolve_schedules ::
  "(string \<Rightarrow> string + 'c) \<Rightarrow> raw_schedule btree \<Rightarrow> (string, schedule_id) hashmap \<Rightarrow>
   compiled_schedule list \<Rightarrow> diagnostic list \<Rightarrow>
   (string, schedule_id) hashmap \<times> compiled_schedule list \<times> diagnostic list" where
  "resolve_schedules cron_parse [] index schedules diags = (index, schedules, diags)"
| "resolve_schedules cron_parse ((name, raw) # raws) index schedules diags =
     (let i = ScheduleId (word_of_nat (length index));
          (cron, ds) = resolve_schedule cron_parse name raw
      in resolve_schedules cron_parse raws (hm_insert name i index)
           (schedules @ (case cron of
              Some cron \<Rightarrow> [\<lparr>ck_id = i, ck_name = name, ck_cron = cron\<rparr>] | None \<Rightarrow> []))
           (diags @ ds))"

section \<open>Lowering scenes and rules\<close>

definition start_lowering :: "diagnostic list \<Rightarrow> lower_state" where
  "start_lowering diags =
     \<lparr>l_diags = diags, l_scheduled_keys = [], l_referenced_keys = [], l_used_scenes = [],
      l_referenced_schedules = []\<rparr>"

text \<open>\<open>scene_index[name]\<close> finds the name: the index was filled from the same map.\<close>

fun lower_scenes ::
  "'n serde \<Rightarrow> lower_ctx \<Rightarrow> 'n yaml list btree \<Rightarrow> lower_state \<Rightarrow> compiled_scene list \<times> lower_state" where
  "lower_scenes Y C [] s = ([], s)"
| "lower_scenes Y C ((name, raws) # rest) s =
     (let (commands, s) = lower_commands Y C (in_scene name) raws s;
          scene = \<lparr>cs_id = the (hm_get (lc_scene_index C) name), cs_name = name, cs_commands = commands\<rparr>;
          (scenes, s) = lower_scenes Y C rest s
      in (scene # scenes, s))"

definition lower_rule ::
  "'n serde \<Rightarrow> lower_ctx \<Rightarrow> nat \<Rightarrow> string \<Rightarrow> 'n raw_rule \<Rightarrow> rule lowering" where
  "lower_rule Y C i name raw s =
     (let at = in_rule name;
          (trig, s) = lower_trigger Y C (rr_when raw) at s;
          (cond, s) = (case rr_condition raw of
             Some c \<Rightarrow> lower_condition Y C c at s | None \<Rightarrow> (Some Always, s));
          (commands, s) = lower_commands Y C at (rr_then raw) s
      in case (trig, cond) of
           (Some trig, Some cond) \<Rightarrow>
             (let (dur, s) = (case rr_for_duration raw of
                    Some d \<Rightarrow> lower_for d trig at s | None \<Rightarrow> (None, s))
              in (Some (with_for_duration dur
                    (with_name name (new_rule (RuleId (word_of_nat i)) trig cond commands))), s))
         | _ \<Rightarrow> (None, s))"

fun lower_rules ::
  "'n serde \<Rightarrow> lower_ctx \<Rightarrow> nat \<Rightarrow> 'n raw_rule btree \<Rightarrow> lower_state \<Rightarrow> rule list \<times> lower_state" where
  "lower_rules Y C i [] s = ([], s)"
| "lower_rules Y C i ((name, raw) # raws) s =
     (let (r, s) = lower_rule Y C i name raw s;
          (rs, s) = lower_rules Y C (Suc i) raws s
      in ((case r of Some r \<Rightarrow> r # rs | None \<Rightarrow> rs), s))"

section \<open>Whole-program lints\<close>

definition lint_adapters :: "nat list \<Rightarrow> ('n, 'x, 'b, 'w) adapter_def list \<Rightarrow> diagnostic list" where
  "lint_adapters used adapters =
     concat (map (\<lambda>(idx, a).
       if \<not> is_northbound (ad_plugin a) \<and> idx \<notin> set used
       then [diag_at (in_adapter (ad_name a))
               (diag_warning ''E_UNUSED_ADAPTER'' ''adapter is not used by any device'')]
       else []) (List.enumerate 0 adapters))"

definition lint_expose ::
  "(string, device_id) hashmap \<Rightarrow> device_def list \<Rightarrow> ('n, 'x, 'b, 'w) adapter_def \<Rightarrow> diagnostic list" where
  "lint_expose device_index devices a =
     (let at = in_adapter (ad_name a)
      in case Option.bind (ad_plugin a) (\<lambda>p. expose_spec p (ad_config a)) of
           Some (ExposeNamed names) \<Rightarrow>
             (if names = []
              then [diag_at at (diag_warning ''E_EMPTY_EXPOSE''
                     ''adapter exposes no devices, so its consumer sees nothing'')] else []) @
             concat (map (\<lambda>n. if hm_get device_index n = None
               then [diag_at at (diag_error ''E_UNKNOWN_EXPOSED_DEVICE''
                      (''exposes unknown device '' @ quoted n))] else []) names)
         | Some ExposeAll \<Rightarrow>
             if devices = []
             then [diag_at at (diag_warning ''E_EMPTY_EXPOSE''
                    ''adapter exposes all devices, but none are declared'')] else []
         | None \<Rightarrow> [])"

definition lint_device :: "('n, 'x, 'b, 'w) adapter_def list \<Rightarrow> device_def \<Rightarrow> diagnostic list" where
  "lint_device adapters d =
     (if dd_adapter d < length adapters then
        (let a = adapters ! dd_adapter d
         in case ad_plugin a of
              Some p \<Rightarrow> validate_device p (ad_config a) d (in_device (dd_name d))
            | None \<Rightarrow> [])
      else [])"

definition lint_scene :: "scene_id list \<Rightarrow> compiled_scene \<Rightarrow> diagnostic list" where
  "lint_scene used s =
     (if cs_id s \<in> set used then []
      else [diag_at (in_scene (cs_name s)) (diag_warning ''E_UNUSED_SCENE'' ''scene is never activated'')])"

definition lint_schedule :: "schedule_id list \<Rightarrow> compiled_schedule \<Rightarrow> diagnostic list" where
  "lint_schedule referenced s =
     (if ck_id s \<in> set referenced then []
      else [diag_at (in_schedule (ck_name s))
              (diag_warning ''E_UNUSED_SCHEDULE'' ''schedule triggers no rule'')])"

definition lint_timer :: "string list \<Rightarrow> string \<Rightarrow> diagnostic list" where
  "lint_timer scheduled key =
     (if key \<in> set scheduled then []
      else [diag_warning ''E_DANGLING_TIMER''
              (''timer key '' @ quoted key @ '' is referenced but never scheduled'')])"

section \<open>The system stanza\<close>

definition resolve_timezone :: "'f raw_system \<Rightarrow> string" where
  "resolve_timezone raw = (case sy_timezone raw of Some tz \<Rightarrow> tz | None \<Rightarrow> ''UTC'')"

definition system_diags :: "(string \<Rightarrow> 'z option) \<Rightarrow> 'f raw_system \<Rightarrow> diagnostic list" where
  "system_diags tz_parse raw =
     (case tz_parse (resolve_timezone raw) of
        Some _ \<Rightarrow> []
      | None \<Rightarrow> [diag_error ''E_BAD_TIMEZONE''
          (''unknown timezone '' @ quoted (resolve_timezone raw) @
           '' (expected an IANA name like America/New_York)'')])"

definition system_config_of :: "'f \<Rightarrow> 'f raw_system \<Rightarrow> 'f system_config" where
  "system_config_of zero raw =
     \<lparr>sc_name = sy_name raw, sc_timezone = resolve_timezone raw,
      sc_latitude = case_option zero id (sy_latitude raw),
      sc_longitude = case_option zero id (sy_longitude raw),
      sc_runtime_storage_path = sy_runtime_storage_path raw,
      sc_healthcheck = sy_healthcheck raw, sc_rest_api = sy_rest_api raw\<rparr>"

section \<open>The pass\<close>

definition resolve ::
  "('n, 'f, 'z, 'c) lib \<Rightarrow> ('n, 'x, 'b, 'w) plugin list \<Rightarrow> ('n, 'f) raw_config \<Rightarrow>
   diagnostic list + ('n, 'f, 'x, 'b, 'w) compiled_config" where
  "resolve L reg raw =
     (let (adapters, adapter_index, diags) = resolve_adapters reg (rc_adapters raw) [] [] [];
          v = resolve_devices adapter_index (rc_devices raw) diags;
          clock_device = DeviceId (word_of_nat (length (v_devices v)));
          scene_index = scene_index_of (rc_scenes raw);
          (schedule_index, schedules, diags) =
            resolve_schedules (lib_cron L) (rc_schedules raw) [] [] (v_diags v);
          C = \<lparr>lc_devices = v_devices v, lc_device_index = v_index v, lc_scene_index = scene_index,
               lc_schedule_index = schedule_index, lc_clock_device = clock_device\<rparr>;
          (scenes, s) = lower_scenes (lib_serde L) C (rc_scenes raw) (start_lowering diags);
          (rules, s) = lower_rules (lib_serde L) C 0 (rc_rules raw) s;
          diags = l_diags s @ lint_adapters (v_used v) adapters
            @ concat (map (lint_expose (v_index v) (v_devices v)) adapters)
            @ concat (map (lint_device adapters) (v_devices v))
            @ concat (map (lint_scene (l_used_scenes s)) scenes)
            @ concat (map (lint_schedule (l_referenced_schedules s)) schedules)
            @ concat (map (lint_timer (l_scheduled_keys s)) (l_referenced_keys s))
            @ (if rc_devices raw = []
               then [diag_warning ''E_NO_DEVICES'' ''configuration defines no devices''] else [])
            @ system_diags (lib_tz L) (rc_system raw)
      in if list_ex is_error diags then Inl diags
         else Inr \<lparr>cc_system = system_config_of (lib_zero L) (rc_system raw), cc_adapters = adapters,
                   cc_devices = v_devices v, cc_scenes = scenes, cc_schedules = schedules,
                   cc_rules = rules, cc_warnings = diags, cc_adapter_index = adapter_index,
                   cc_device_index = v_index v, cc_scene_index = scene_index,
                   cc_schedule_index = schedule_index, cc_clock_device = clock_device\<rparr>)"

end
