(* ===== verification/Home.thy ===== *)
theory Home
  imports Resolve "HOL-Library.Code_Target_Nat"
begin

text \<open>
  A small house, compiled by evaluation: the concrete configuration the witnesses of the compiler's
  properties are about.
\<close>

section \<open>A small house\<close>

text \<open>
  One adapter, a motion sensor, a lamp with a wall button, a scene, a schedule and two rules; the
  libraries are stood in for by functions that accept what this configuration uses.
\<close>

definition home_lib :: "(nat, nat, unit, string) lib" where
  "home_lib =
     \<lparr>lib_serde = sensor_serde, lib_tz = (\<lambda>s. if s = ''UTC'' then Some () else None),
      lib_cron = (\<lambda>s. if s = [] then Inl ''empty'' else Inr s), lib_zero = 0\<rparr>"

definition home_plugins :: "(nat, unit, mock_northbound, unit) plugin list" where
  "home_plugins = plugins [] (\<lambda>v. case v of VMapping [] \<Rightarrow> Inr Unset | _ \<Rightarrow> Inl ''invalid type'')"

definition home_device :: "string list \<Rightarrow> string btree \<Rightarrow> raw_device" where
  "home_device caps evs =
     \<lparr>rd_adapter = ''z'', rd_address = None, rd_endpoint = None, rd_capabilities = caps, rd_events = evs,
      rd_manufacturer = None, rd_model = None, rd_room = None\<rparr>"

definition home_raw :: "(nat, nat) raw_config" where
  "home_raw =
     \<lparr>rc_system = \<lparr>sy_name = None, sy_timezone = None, sy_latitude = None, sy_longitude = None,
        sy_runtime_storage_path = None, sy_healthcheck = None, sy_rest_api = None\<rparr>,
      rc_adapters = [(''z'', \<lparr>ra_kind = ''virtual'', ra_config = VMapping []\<rparr>)],
      rc_devices = [(''hall'', home_device [''occupancy''] []),
                    (''lamp'', home_device [''switch''] [(''top'', ''toggle_l1'')])],
      rc_scenes = [(''night'', [VMapping [(VString ''turn_off'', VString ''lamp'')]])],
      rc_schedules = [(''late'', \<lparr>rs_cron = None, rs_daily = Some ''23:30'', rs_weekday = None, rs_weekend = None\<rparr>)],
      rc_rules =
        [(''bedtime'', \<lparr>rr_when = VMapping [(VString ''schedule'', VString ''late'')], rr_condition = None,
            rr_for_duration = None, rr_then = [VMapping [(VString ''activate_scene'', VString ''night'')]]\<rparr>),
         (''motion'', \<lparr>rr_when = motion_node, rr_condition = None, rr_for_duration = Some ''5s'',
            rr_then = [VMapping [(VString ''turn_on'', VString ''lamp'')]]\<rparr>)]\<rparr>"

definition home_cfg :: "(nat, nat, unit, mock_northbound, unit) compiled_config" where
  "home_cfg = projr (resolve home_lib home_plugins home_raw)"

definition home_devices :: "device_def list" where
  "home_devices =
     [\<lparr>dd_id = DeviceId 0, dd_name = ''hall'', dd_adapter = 0, dd_address = None, dd_endpoint = None,
       dd_capabilities = [KOccupancy], dd_events = [],
       dd_metadata = \<lparr>dm_manufacturer = None, dm_model = None, dm_room = None\<rparr>\<rparr>,
      \<lparr>dd_id = DeviceId 1, dd_name = ''lamp'', dd_adapter = 0, dd_address = None, dd_endpoint = None,
       dd_capabilities = [KSwitch],
       dd_events = [\<lparr>ev_id = ActionId 0, ev_name = ''top'', ev_raw = ''toggle_l1''\<rparr>],
       dd_metadata = \<lparr>dm_manufacturer = None, dm_model = None, dm_room = None\<rparr>\<rparr>]"

definition home_rules :: "rule list" where
  "home_rules =
     [\<lparr>r_id = RuleId 0, r_name = ''bedtime'', r_trigger = TTime (ScheduleId 0), r_condition = Always,
       r_commands = [ActivateScene (SceneId 0)], r_for = None\<rparr>,
      \<lparr>r_id = RuleId 1, r_name = ''motion'', r_trigger = TChanged (DeviceId 0) KOccupancy True,
       r_condition = Always, r_commands = [SetSwitch (DeviceId 1) True], r_for = Some 5000\<rparr>]"

lemma home_evaluated:
  "(case resolve home_lib home_plugins home_raw of
      Inl _ \<Rightarrow> None
    | Inr c \<Rightarrow> Some (cc_devices c, cc_scenes c, cc_rules c, cc_schedules c)) =
   Some (home_devices, [\<lparr>cs_id = SceneId 0, cs_name = ''night'', cs_commands = [SetSwitch (DeviceId 1) False]\<rparr>],
     home_rules, [\<lparr>ck_id = ScheduleId 0, ck_name = ''late'', ck_cron = ''30 23 * * *''\<rparr>])"
  by code_simp

lemma home_compiles: "resolve home_lib home_plugins home_raw = Inr home_cfg"
  using home_evaluated by (auto simp: home_cfg_def split: sum.splits)

lemma home_cfg_sel:
  "cc_devices home_cfg = home_devices" "cc_rules home_cfg = home_rules"
  "cc_scenes home_cfg = [\<lparr>cs_id = SceneId 0, cs_name = ''night'', cs_commands = [SetSwitch (DeviceId 1) False]\<rparr>]"
  "cc_schedules home_cfg = [\<lparr>ck_id = ScheduleId 0, ck_name = ''late'', ck_cron = ''30 23 * * *''\<rparr>]"
  using home_evaluated by (simp_all add: home_compiles)

lemma home_raw_ok: "raw_ok home_raw"
  by code_simp

end
