(* ===== verification/Clock.thy ===== *)
theory Clock
  imports Engine
begin

text \<open>
  The clock (\<open>adapters/clock.rs\<close>): a device that reports the time of day and whether the sun is up,
  and fires the wall-clock schedules. Calendars, time zones, cron expressions and the ephemeris are
  libraries: the record \<open>chrono\<close> holds the functions the adapter calls.
\<close>

section \<open>The libraries\<close>

text \<open>
  \<open>'t\<close> is an instant, \<open>'z\<close> a time zone, \<open>'c\<close> a cron expression, \<open>'d\<close> a calendar date and \<open>'o\<close> the
  coordinates of a place. A \<open>DateTime<Tz>\<close> is an instant seen in the adapter's own zone.
\<close>

record ('t, 'z, 'c, 'd, 'o) chrono =
  from_millis :: "i64 \<Rightarrow> 't option"
  to_millis :: "'t \<Rightarrow> i64"
  local_hour :: "'z \<Rightarrow> 't \<Rightarrow> u32"
  local_minute :: "'z \<Rightarrow> 't \<Rightarrow> u32"
  local_date :: "'z \<Rightarrow> 't \<Rightarrow> 'd"
  next_occurrence :: "'c \<Rightarrow> 'z \<Rightarrow> 't \<Rightarrow> 't option"
  sunrise :: "'o \<Rightarrow> 'd \<Rightarrow> 't option"
  sunset :: "'o \<Rightarrow> 'd \<Rightarrow> 't option"

text \<open>
  What the code relies on: the next occurrence of a schedule is strictly later, by a millisecond or
  more, and the milliseconds of an instant grow with it.
\<close>

definition cron_advances :: "('t::linorder, 'z, 'c, 'd, 'o) chrono \<Rightarrow> bool" where
  "cron_advances X \<longleftrightarrow>
     (\<forall>c z t t'. next_occurrence X c z t = Some t' \<longrightarrow> to_millis X t < to_millis X t') \<and>
     (\<forall>t t'. t \<le> t' \<longrightarrow> to_millis X t \<le> to_millis X t')"

section \<open>State\<close>

record ('t, 'c) schedule_state =
  ss_id :: schedule_id
  ss_cron :: 'c
  ss_next_fire :: "'t option"
  ss_armed :: bool

datatype 't sun_window = Between 't 't | Fallback

definition fallback_sunrise_min :: u32 where
  "fallback_sunrise_min = 6 * 60"

definition fallback_sunset_min :: u32 where
  "fallback_sunset_min = 18 * 60"

definition minute_ms :: int where
  "minute_ms = 60000"

record ('t, 'z, 'c, 'd, 'o) clock =
  ca_device :: device_id
  ca_boot_epoch_ms :: i64
  ca_tz :: 'z
  ca_coord :: "'o option"
  ca_last_emit_min :: "u16 option"
  ca_schedules :: "('t, 'c) schedule_state list"
  ca_sun_cache :: "('d \<times> 't sun_window) option"

definition new_clock :: "device_id \<Rightarrow> i64 \<Rightarrow> 'z \<Rightarrow> 'o option \<Rightarrow> ('t, 'z, 'c, 'd, 'o) clock" where
  "new_clock device boot tz coord =
     \<lparr>ca_device = device, ca_boot_epoch_ms = boot, ca_tz = tz, ca_coord = coord,
      ca_last_emit_min = None, ca_schedules = [], ca_sun_cache = None\<rparr>"

definition with_schedules ::
  "(schedule_id \<times> 'c) list \<Rightarrow> ('t, 'z, 'c, 'd, 'o) clock \<Rightarrow> ('t, 'z, 'c, 'd, 'o) clock" where
  "with_schedules ss k = k\<lparr>ca_schedules :=
     map (\<lambda>(i, c). \<lparr>ss_id = i, ss_cron = c, ss_next_fire = None, ss_armed = False\<rparr>) ss\<rparr>"

section \<open>The wall clock and the sun\<close>

text \<open>
  Signed 64-bit arithmetic wraps, as it does in a release build. \<open>None\<close> is the \<open>expect\<close> that panics.
\<close>

definition wrap_i64 :: "int \<Rightarrow> i64" where
  "wrap_i64 n = sint (word_of_int n :: u64)"

definition wall_ms :: "('t, 'z, 'c, 'd, 'o) clock \<Rightarrow> millis \<Rightarrow> i64" where
  "wall_ms k now = wrap_i64 (ca_boot_epoch_ms k + sint now)"

definition wall_utc ::
  "('t, 'z, 'c, 'd, 'o) chrono \<Rightarrow> ('t, 'z, 'c, 'd, 'o) clock \<Rightarrow> millis \<Rightarrow> 't option" where
  "wall_utc X k now = from_millis X (wall_ms k now)"

definition compute_window ::
  "('t, 'z, 'c, 'd, 'o) chrono \<Rightarrow> ('t, 'z, 'c, 'd, 'o) clock \<Rightarrow> 'd \<Rightarrow> 't sun_window" where
  "compute_window X k date =
     (case ca_coord k of
        None \<Rightarrow> Fallback
      | Some coord \<Rightarrow>
          (case (sunrise X coord date, sunset X coord date) of
             (Some rise, Some down) \<Rightarrow> Between rise down
           | _ \<Rightarrow> Fallback))"

definition minute_of_day :: "('t, 'z, 'c, 'd, 'o) chrono \<Rightarrow> 'z \<Rightarrow> 't \<Rightarrow> u32" where
  "minute_of_day X z t = local_hour X z t * 60 + local_minute X z t"

definition sun_up ::
  "('t::linorder, 'z, 'c, 'd, 'o) chrono \<Rightarrow> 't \<Rightarrow> ('t, 'z, 'c, 'd, 'o) clock \<Rightarrow>
   bool \<times> ('t, 'z, 'c, 'd, 'o) clock" where
  "sun_up X t k =
     (let date = local_date X (ca_tz k) t;
          fresh = (case ca_sun_cache k of Some (cached, _) \<Rightarrow> cached = date | None \<Rightarrow> False);
          window = (case ca_sun_cache k of
             Some (_, w) \<Rightarrow> if fresh then w else compute_window X k date
           | None \<Rightarrow> compute_window X k date);
          k = (if fresh then k else k\<lparr>ca_sun_cache := Some (date, window)\<rparr>)
      in case window of
           Between rise down \<Rightarrow> (rise \<le> t \<and> t < down, k)
         | Fallback \<Rightarrow>
             (let minute = minute_of_day X (ca_tz k) t
              in (fallback_sunrise_min \<le> minute \<and> minute < fallback_sunset_min, k)))"

section \<open>Schedules\<close>

text \<open>
  The inner loop of \<open>fire_due_schedules\<close> collects the occurrences up to now. It ends because cron
  expressions advance; a library that did not would make it run for ever, which is \<open>None\<close>.
\<close>

partial_function (option) due_loop ::
  "('t::linorder \<Rightarrow> 't option) \<Rightarrow> 't \<Rightarrow> 't option \<Rightarrow> ('t list \<times> 't option) option" where
  "due_loop step now next =
     (case next of
        None \<Rightarrow> Some ([], None)
      | Some t \<Rightarrow>
          if now < t then Some ([], Some t)
          else Option.bind (due_loop step now (step t)) (\<lambda>(ts, next'). Some (t # ts, next')))"

definition arm ::
  "('t, 'z, 'c, 'd, 'o) chrono \<Rightarrow> 'z \<Rightarrow> 't \<Rightarrow> ('t, 'c) schedule_state \<Rightarrow> ('t, 'c) schedule_state" where
  "arm X z now s =
     (if ss_armed s then s
      else s\<lparr>ss_next_fire := next_occurrence X (ss_cron s) z now, ss_armed := True\<rparr>)"

definition fire_schedule ::
  "('t::linorder, 'z, 'c, 'd, 'o) chrono \<Rightarrow> 'z \<Rightarrow> 't \<Rightarrow> ('t, 'c) schedule_state \<Rightarrow>
   (('t \<times> schedule_id) list \<times> ('t, 'c) schedule_state) option" where
  "fire_schedule X z now s =
     (let s = arm X z now s
      in Option.bind (due_loop (next_occurrence X (ss_cron s) z) now (ss_next_fire s))
           (\<lambda>(ts, next'). Some (map (\<lambda>t. (t, ss_id s)) ts, s\<lparr>ss_next_fire := next'\<rparr>)))"

fun fire_schedules ::
  "('t::linorder, 'z, 'c, 'd, 'o) chrono \<Rightarrow> 'z \<Rightarrow> 't \<Rightarrow> ('t, 'c) schedule_state list \<Rightarrow>
   (('t \<times> schedule_id) list \<times> ('t, 'c) schedule_state list) option" where
  "fire_schedules X z now [] = Some ([], [])"
| "fire_schedules X z now (s # ss) =
     Option.bind (fire_schedule X z now s) (\<lambda>(fired, s).
     Option.bind (fire_schedules X z now ss) (\<lambda>(fired', ss).
       Some (fired @ fired', s # ss)))"

definition fire_due_schedules ::
  "('t::linorder, 'z, 'c, 'd, 'o) chrono \<Rightarrow> 't \<Rightarrow> ('t, 'z, 'c, 'd, 'o) clock \<Rightarrow>
   (event list \<times> ('t, 'z, 'c, 'd, 'o) clock) option" where
  "fire_due_schedules X now k =
     Option.bind (fire_schedules X (ca_tz k) now (ca_schedules k)) (\<lambda>(fired, ss).
       Some (map (\<lambda>(_, i). TimeReached i) (sort fired), k\<lparr>ca_schedules := ss\<rparr>))"

section \<open>The adapter\<close>

definition clock_dispatch ::
  "('t, 'z, 'c, 'd, 'o) clock \<Rightarrow> command \<Rightarrow> millis \<Rightarrow> ('t, 'z, 'c, 'd, 'o) clock \<times> outcome" where
  "clock_dispatch k cmd now = (k, Permanent ''clock device accepts no commands'')"

definition publish ::
  "('t::linorder, 'z, 'c, 'd, 'o) chrono \<Rightarrow> 't \<Rightarrow> ('t, 'z, 'c, 'd, 'o) clock \<Rightarrow>
   event list \<times> ('t, 'z, 'c, 'd, 'o) clock" where
  "publish X t k =
     (let minute = ucast (minute_of_day X (ca_tz k) t)
      in if ca_last_emit_min k \<noteq> Some minute then
           (let (up, k) = sun_up X t (k\<lparr>ca_last_emit_min := Some minute\<rparr>)
            in ([StateReported (ca_device k) (TimeOfDay minute), StateReported (ca_device k) (SunUp up)], k))
         else ([], k))"

definition clock_tick ::
  "('t::linorder, 'z, 'c, 'd, 'o) chrono \<Rightarrow> ('t, 'z, 'c, 'd, 'o) clock \<Rightarrow> millis \<Rightarrow>
   (('t, 'z, 'c, 'd, 'o) clock \<times> event list) run option" where
  "clock_tick X k now =
     (case wall_utc X k now of
        None \<Rightarrow> Some Panicked
      | Some t \<Rightarrow>
          (let (events, k) = publish X t k
           in Option.bind (fire_due_schedules X t k) (\<lambda>(fired, k).
                Some (Done (k, events @ fired)))))"

definition clock_next_wake ::
  "('t, 'z, 'c, 'd, 'o) chrono \<Rightarrow> ('t, 'z, 'c, 'd, 'o) clock \<Rightarrow> millis \<Rightarrow> millis option" where
  "clock_next_wake X k now =
     (let wall = wall_ms k now;
          to_next_min = word_of_int (minute_ms - wall mod minute_ms);
          waits = map (\<lambda>next. word_of_int (max 0 (wrap_i64 (to_millis X next - wall))))
                    (List.map_filter ss_next_fire (ca_schedules k))
      in Some (fold (\<lambda>w acc. min acc w) waits to_next_min))"

end
