(* ===== verification/Build.thy ===== *)
theory Build
  imports Home Clock Engine_Props Sustained
begin

text \<open>
  From text to a running engine (\<open>compile/mod.rs\<close>): parsing and resolving the configuration, and
  wiring the compiled graph into an engine with its adapters, the clock, the scenes and the rules.
\<close>

section \<open>Compiling\<close>

definition compile_str ::
  "(string \<Rightarrow> string + 'n yaml) \<Rightarrow> ('n yaml \<Rightarrow> string + ('n, 'f) raw_config) \<Rightarrow> ('n, 'f, 'z, 'c) lib \<Rightarrow>
   ('n, 'x, 'b, 'w) plugin list \<Rightarrow> string \<Rightarrow> diagnostic list + ('n, 'f, 'x, 'b, 'w) compiled_config" where
  "compile_str read deserialize L reg src =
     (case parse_raw_config read deserialize src of
        Inl e \<Rightarrow> Inl [diag_error ''E_PARSE'' e]
      | Inr raw \<Rightarrow> resolve L reg raw)"

section \<open>The adapters of a built engine\<close>

text \<open>Behind \<open>Box<dyn Adapter>\<close> there is an adapter a plugin built or the clock.\<close>

datatype ('x, 'k) boxed = Plugged 'x | Clocked 'k

text \<open>
  The clock's tick as the engine calls it. A tick outside the calendar's range panics in the code; the
  engine's model takes it as a tick without events, and the properties about the clock are stated
  where the instant is in range.
\<close>

definition boxed_tick ::
  "('x, 'b) vtable \<Rightarrow> ('t::linorder, 'z, 'c, 'd, 'o) chrono \<Rightarrow> ('x, ('t, 'z, 'c, 'd, 'o) clock) boxed \<Rightarrow>
   millis \<Rightarrow> ('x, ('t, 'z, 'c, 'd, 'o) clock) boxed \<times> event list" where
  "boxed_tick V X a now =
     (case a of
        Plugged x \<Rightarrow> map_prod Plugged id (op_tick (dev V) x now)
      | Clocked k \<Rightarrow>
          (case clock_tick X k now of
             Some (Done (k, evs)) \<Rightarrow> (Clocked k, evs)
           | _ \<Rightarrow> (Clocked k, [])))"

definition boxed_dispatch ::
  "('x, 'b) vtable \<Rightarrow> ('x, ('t, 'z, 'c, 'd, 'o) clock) boxed \<Rightarrow> command \<Rightarrow> millis \<Rightarrow>
   ('x, ('t, 'z, 'c, 'd, 'o) clock) boxed \<times> outcome" where
  "boxed_dispatch V a cmd now =
     (case a of
        Plugged x \<Rightarrow> map_prod Plugged id (op_dispatch (dev V) x cmd now)
      | Clocked k \<Rightarrow> map_prod Clocked id (clock_dispatch k cmd now))"

definition boxed_next_wake ::
  "('x, 'b) vtable \<Rightarrow> ('t, 'z, 'c, 'd, 'o) chrono \<Rightarrow> ('x, ('t, 'z, 'c, 'd, 'o) clock) boxed \<Rightarrow>
   millis \<Rightarrow> millis option" where
  "boxed_next_wake V X a now =
     (case a of Plugged x \<Rightarrow> op_next_wake (dev V) x now | Clocked k \<Rightarrow> clock_next_wake X k now)"

definition boxed_vtable ::
  "('x, 'b) vtable \<Rightarrow> ('t::linorder, 'z, 'c, 'd, 'o) chrono \<Rightarrow>
   (('x, ('t, 'z, 'c, 'd, 'o) clock) boxed, 'b) vtable" where
  "boxed_vtable V X =
     \<lparr>dev = \<lparr>op_dispatch = boxed_dispatch V, op_tick = boxed_tick V X, op_next_wake = boxed_next_wake V X\<rparr>,
      nb = nb V\<rparr>"

text \<open>\<open>chrono_tz::Tz::UTC\<close> and \<open>Coordinates::new\<close>.\<close>

record ('f, 'z, 'o) geo =
  utc_zone :: 'z
  coordinates :: "'f \<Rightarrow> 'f \<Rightarrow> 'o option"

section \<open>Wiring\<close>

text \<open>\<open>usize::MAX\<close>, the slot of an adapter that gets no slot.\<close>

definition no_slot :: nat where
  "no_slot = 2 ^ 64 - 1"

definition bound_devices :: "nat \<Rightarrow> device_def list \<Rightarrow> device_def list" where
  "bound_devices i ds = filter (\<lambda>d. dd_adapter d = i) ds"

definition exposed_devices ::
  "('n, 'f, 'x, 'b, 'w) compiled_config \<Rightarrow> 'n yaml \<Rightarrow> ('n, 'x, 'b, 'w) plugin \<Rightarrow> device_def list" where
  "exposed_devices cfg config p =
     (case expose_spec p config of
        Some ExposeAll \<Rightarrow> cc_devices cfg
      | Some (ExposeNamed names) \<Rightarrow> filter (\<lambda>d. dd_name d \<in> set names) (cc_devices cfg)
      | None \<Rightarrow> [])"

definition compiled_schedules ::
  "(string \<Rightarrow> string + 'c) \<Rightarrow> ('n, 'f, 'x, 'b, 'w) compiled_config \<Rightarrow> (schedule_id \<times> 'c) list" where
  "compiled_schedules cron_parse cfg =
     List.map_filter (\<lambda>s. case cron_parse (ck_cron s) of Inr c \<Rightarrow> Some (ck_id s, c) | Inl _ \<Rightarrow> None)
       (cc_schedules cfg)"

text \<open>
  One adapter of the configuration: it is built with its devices and gets the next slot, or it is
  northbound and is built with the devices it exposes. The state is the engine and the slots so far.
\<close>

definition build_adapter ::
  "('n, 'f, 'x, 'b, 'w) compiled_config \<Rightarrow> 'w option \<Rightarrow> string \<Rightarrow> nat \<times> ('n, 'x, 'b, 'w) adapter_def \<Rightarrow>
   (('x, 'k) boxed, 'b) engine \<times> nat list \<Rightarrow> ((('x, 'k) boxed, 'b) engine \<times> nat list) run" where
  "build_adapter cfg waker runtime_dir = (\<lambda>(i, a) (e, slots).
     case ad_plugin a of
       None \<Rightarrow> Panicked
     | Some p \<Rightarrow>
         (case polarity p of
            Southbound \<Rightarrow>
              (case build p (ad_config a) (bound_devices i (cc_devices cfg)) waker of
                 None \<Rightarrow> Panicked
               | Some x \<Rightarrow> (let (e, slot) = add_adapter (Plugged x) e in Done (e, slots @ [slot])))
          | Northbound \<Rightarrow>
              (let ctx = \<lparr>nc_adapter_name = ad_name a, nc_runtime_storage_dir = runtime_dir\<rparr>;
                   e = (case build_northbound p (ad_config a) (exposed_devices cfg (ad_config a) p) waker ctx of
                          Some n \<Rightarrow> add_northbound n e
                        | None \<Rightarrow> e)
               in Done (e, slots @ [no_slot]))))"

text \<open>\<open>runtime_idx[device.adapter]\<close>; the debug assertion before it is not part of a release build.\<close>

definition bind_def ::
  "nat list \<Rightarrow> device_def \<Rightarrow> ('x, 'b) engine \<Rightarrow> ('x, 'b) engine run" where
  "bind_def slots d e =
     (if dd_adapter d < length slots then Done (bind_device (dd_id d) (slots ! dd_adapter d) e) else Panicked)"

definition clock_of ::
  "('n, 'f, 'z, 'c) lib \<Rightarrow> ('f, 'z, 'o) geo \<Rightarrow> i64 \<Rightarrow> ('n, 'f, 'x, 'b, 'w) compiled_config \<Rightarrow>
   ('t, 'z, 'c, 'd, 'o) clock" where
  "clock_of L G boot cfg =
     (let sys = cc_system cfg;
          tz = (case lib_tz L (sc_timezone sys) of Some z \<Rightarrow> z | None \<Rightarrow> utc_zone G)
      in with_schedules (compiled_schedules (lib_cron L) cfg)
           (new_clock (cc_clock_device cfg) boot tz (coordinates G (sc_latitude sys) (sc_longitude sys))))"

definition build_engine_full ::
  "('n, 'f, 'z, 'c) lib \<Rightarrow> ('f, 'z, 'o) geo \<Rightarrow> ('n, 'f, 'x, 'b, 'w) compiled_config \<Rightarrow> 'w option \<Rightarrow> i64 \<Rightarrow>
   string \<Rightarrow> (('x, ('t, 'z, 'c, 'd, 'o) clock) boxed, 'b) engine run" where
  "build_engine_full L G cfg waker boot config_dir =
     (let runtime_dir = runtime_storage_dir (cc_system cfg) config_dir
      in if \<not> list_all (\<lambda>d. dd_adapter d < length (cc_adapters cfg)) (cc_devices cfg) then Panicked
         else
           run_bind (run_fold (build_adapter cfg waker runtime_dir) (List.enumerate 0 (cc_adapters cfg))
             (new_engine, [])) (\<lambda>(e, slots).
           run_bind (run_fold (bind_def slots) (cc_devices cfg) e) (\<lambda>e.
             let (e, clock_idx) = add_adapter (Clocked (clock_of L G boot cfg)) e;
                 e = bind_device (cc_clock_device cfg) clock_idx e;
                 e = fold (\<lambda>s. add_scene (cs_id s) (cs_commands s)) (cc_scenes cfg) e
             in Done (fold add_rule (cc_rules cfg) e))))"

definition build_engine_at ::
  "('n, 'f, 'z, 'c) lib \<Rightarrow> ('f, 'z, 'o) geo \<Rightarrow> ('n, 'f, 'x, 'b, 'w) compiled_config \<Rightarrow> 'w option \<Rightarrow> i64 \<Rightarrow>
   (('x, ('t, 'z, 'c, 'd, 'o) clock) boxed, 'b) engine run" where
  "build_engine_at L G cfg waker boot = build_engine_full L G cfg waker boot ''.''"

end
