(* ===== verification/Resolve_Props.thy ===== *)
theory Resolve_Props
  imports Home
begin

text \<open>
  What a configuration that compiles guarantees: nothing the user wrote was dropped, ids are dense
  and agree with the name tables, and every reference in a rule or scene is to something declared.
\<close>

section \<open>Interned names\<close>

text \<open>The table that gives the name at position \<open>i\<close> the id \<open>f i\<close>.\<close>

definition interned :: "(nat \<Rightarrow> 'v) \<Rightarrow> string list \<Rightarrow> (string, 'v) hashmap" where
  "interned f names = zip names (map f [0..<length names])"

lemma length_interned [simp]: "length (interned f names) = length names"
  by (simp add: interned_def)

lemma keys_interned [simp]: "map fst (interned f names) = names"
  by (simp add: interned_def)

lemma keys_interned_set [simp]: "fst ` set (interned f names) = set names"
  by (metis keys_interned set_map)

lemma update_fresh: "k \<notin> fst ` set m \<Longrightarrow> hm_insert k v m = m @ [(k, v)]"
  by (induction m) auto

lemma interned_snoc:
  "n \<notin> set names \<Longrightarrow> hm_insert n (f (length names)) (interned f names) = interned f (names @ [n])"
  by (subst update_fresh) (simp, simp add: interned_def)

lemma interned_get:
  "distinct names \<Longrightarrow> hm_get (interned f names) n = Some v \<longleftrightarrow> (\<exists>i < length names. names ! i = n \<and> v = f i)"
  by (auto simp: hm_get_iff in_set_zip interned_def)

lemma interned_None: "hm_get (interned f names) n = None \<longleftrightarrow> n \<notin> set names"
  by (simp add: map_of_eq_None_iff)

text \<open>Positions below the range of the width are told apart.\<close>

lemma word_of_nat_inj32: "i < 2 ^ 32 \<Longrightarrow> j < 2 ^ 32 \<Longrightarrow> (word_of_nat i :: u32) = word_of_nat j \<longleftrightarrow> i = j"
  by (simp add: word_of_nat_eq_iff take_bit_nat_eq_self)

lemma upt_step: "[k..<k + length (x # xs)] = k # [Suc k..<Suc k + length xs]"
  by (subst upt_conv_Cons) (simp_all del: upt_Suc)

definition clean :: "diagnostic list \<Rightarrow> bool" where
  "clean ds \<longleftrightarrow> \<not> list_ex is_error ds"

lemma clean_simps [simp]:
  "clean []" "clean (d # ds) \<longleftrightarrow> \<not> is_error d \<and> clean ds" "clean (ds @ es) \<longleftrightarrow> clean ds \<and> clean es"
  "clean (concat dss) \<longleftrightarrow> list_all clean dss"
  by (auto simp: clean_def list_ex_iff list_all_iff)

lemma clean_iff: "clean ds \<longleftrightarrow> \<not> (\<exists>d \<in> set ds. is_error d)"
  by (auto simp: clean_def list_ex_iff)

section \<open>Adapters\<close>

definition adapter_of ::
  "('n, 'x, 'b, 'w) plugin list \<Rightarrow> string \<times> 'n raw_adapter \<Rightarrow> ('n, 'x, 'b, 'w) adapter_def" where
  "adapter_of reg = (\<lambda>(name, raw).
     \<lparr>ad_name = name, ad_plugin = plugin_for reg (ra_kind raw), ad_config = ra_config raw\<rparr>)"

lemma resolve_adapters_eq:
  assumes "distinct (map fst done @ map fst raws)"
  shows "resolve_adapters reg raws (map (adapter_of reg) done) (interned (\<lambda>i. i) (map fst done)) ds =
    (map (adapter_of reg) (done @ raws), interned (\<lambda>i. i) (map fst (done @ raws)),
     ds @ concat (map (\<lambda>(n, r). adapter_diags reg n r) raws))"
  using assms
proof (induction raws arbitrary: "done" ds)
  case (Cons e raws)
  obtain n r where e: "e = (n, r)"
    by fastforce
  have "n \<notin> set (map fst done)"
    using Cons.prems by (auto simp: e)
  then have index: "hm_insert n (length (map (adapter_of reg) done)) (interned (\<lambda>i. i) (map fst done)) =
      interned (\<lambda>i. i) (map fst (done @ [(n, r)]))"
    using interned_snoc [of n "map fst done" "\<lambda>i. i"] by simp
  have "distinct (map fst (done @ [(n, r)]) @ map fst raws)"
    using Cons.prems by (simp add: e)
  note IH = Cons.IH [OF this, of "ds @ adapter_diags reg n r"]
  have "map (adapter_of reg) (done @ [(n, r)]) = map (adapter_of reg) done @
      [\<lparr>ad_name = n, ad_plugin = plugin_for reg (ra_kind r), ad_config = ra_config r\<rparr>]"
    by (simp add: adapter_of_def)
  with IH show ?case
    unfolding e resolve_adapters.simps index by simp
qed simp

lemma plugin_for_found:
  "plugin_for reg tag \<noteq> None \<Longrightarrow> \<exists>p \<in> set reg. plugin_for reg tag = Some p \<and> type_tag p = tag"
  by (auto simp: plugin_for_def find_Some_iff)

lemma adapter_diags_clean: "clean (adapter_diags reg n r) \<Longrightarrow> plugin_for reg (ra_kind r) \<noteq> None"
  by (auto simp: adapter_diags_def split: option.splits)

section \<open>Scenes and schedules\<close>

lemma scene_index_of_eq:
  "distinct (map fst raws) \<Longrightarrow>
    scene_index_of raws = interned (\<lambda>i. SceneId (word_of_nat i)) (map fst raws)"
proof (induction raws rule: rev_induct)
  case (snoc e raws)
  then show ?case
    using interned_snoc [of "fst e" "map fst raws" "\<lambda>i. SceneId (word_of_nat i)"]
    by (simp add: scene_index_of_def case_prod_beta)
qed (simp add: scene_index_of_def interned_def)

lemma sugar_forms_clean: "clean (snd (sugar_forms at rest forms)) \<longleftrightarrow> fst (sugar_forms at rest forms) \<noteq> None"
  by (induction at rest forms rule: sugar_forms.induct) (auto split: option.split)

lemma resolve_schedule_clean:
  "clean (snd (resolve_schedule cron name raw)) \<longleftrightarrow> fst (resolve_schedule cron name raw) \<noteq> None"
  using sugar_forms_clean
  by (auto simp: resolve_schedule_def Let_def split: prod.split option.split list.split sum.split)
    (metis fst_conv option.discI snd_conv)+

lemma resolve_schedule_parses:
  "fst (resolve_schedule cron name raw) = Some c \<Longrightarrow> \<exists>p. cron c = Inr p"
  by (auto simp: resolve_schedule_def Let_def split: prod.splits option.splits list.splits sum.splits)

definition schedule_of ::
  "(string \<Rightarrow> string + 'c) \<Rightarrow> (string \<times> raw_schedule) \<times> nat \<Rightarrow> compiled_schedule" where
  "schedule_of cron = (\<lambda>((name, raw), i).
     \<lparr>ck_id = ScheduleId (word_of_nat i), ck_name = name,
      ck_cron = the (fst (resolve_schedule cron name raw))\<rparr>)"

lemma resolve_schedules_eq:
  assumes "distinct (names @ map fst raws)"
    and "resolve_schedules cron raws (interned (\<lambda>i. ScheduleId (word_of_nat i)) names) ks ds = (idx, ks', ds')"
  shows "idx = interned (\<lambda>i. ScheduleId (word_of_nat i)) (names @ map fst raws) \<and>
    (\<exists>es. ds' = ds @ es \<and> (clean es \<longrightarrow>
      ks' = ks @ map (schedule_of cron) (zip raws [length names..<length names + length raws]) \<and>
      list_all (\<lambda>(n, r). fst (resolve_schedule cron n r) \<noteq> None) raws))"
  using assms
proof (induction raws arbitrary: names ks ds)
  case (Cons e raws)
  obtain n r where e: "e = (n, r)"
    by fastforce
  let ?f = "\<lambda>i. ScheduleId (word_of_nat i)" and ?r = "resolve_schedule cron n r"
  let ?ks = "ks @ (case fst ?r of Some c \<Rightarrow>
      [\<lparr>ck_id = ?f (length names), ck_name = n, ck_cron = c\<rparr>] | None \<Rightarrow> [])"
  have index: "hm_insert n (?f (length names)) (interned ?f names) = interned ?f (names @ [n])"
    using Cons.prems(1) by (intro interned_snoc) (simp add: e)
  have run: "resolve_schedules cron raws (interned ?f (names @ [n])) ?ks (ds @ snd ?r) = (idx, ks', ds')"
    using Cons.prems(2) index by (simp add: e case_prod_beta Let_def)
  have d: "distinct ((names @ [n]) @ map fst raws)"
    using Cons.prems(1) by (simp add: e)
  note IH = Cons.IH [OF d run]
  obtain es where es: "ds' = (ds @ snd ?r) @ es"
    "clean es \<longrightarrow> ks' = ?ks @ map (schedule_of cron) (zip raws
        [length (names @ [n])..<length (names @ [n]) + length raws]) \<and>
      list_all (\<lambda>(n, r). fst (resolve_schedule cron n r) \<noteq> None) raws"
    using IH by blast
  have range: "[length names..<length names + length (e # raws)] =
      length names # [length (names @ [n])..<length (names @ [n]) + length raws]"
    using upt_step [of "length names" e raws] by simp
  have "clean (snd ?r @ es) \<longrightarrow>
      ks' = ks @ map (schedule_of cron) (zip (e # raws) [length names..<length names + length (e # raws)]) \<and>
      list_all (\<lambda>(n, r). fst (resolve_schedule cron n r) \<noteq> None) (e # raws)"
    using es(2) unfolding range clean_simps resolve_schedule_clean
    by (auto simp: e schedule_of_def)
  moreover have "ds' = ds @ (snd ?r @ es)"
    using es(1) by simp
  moreover have "idx = interned ?f (names @ map fst (e # raws))"
    using IH by (simp add: e)
  ultimately show ?case
    by blast
qed simp

section \<open>Devices\<close>

lemma resolve_capabilities_clean:
  "clean (snd (resolve_capabilities at caps)) \<Longrightarrow>
    map Some (fst (resolve_capabilities at caps)) = map parse_capability caps"
  by (induction caps) (auto simp: case_prod_beta Let_def split: option.splits)

lemma intern_events_eq:
  "intern_events (word_of_nat k) evs =
    (map (\<lambda>((n, r), i). \<lparr>ev_id = ActionId (word_of_nat i), ev_name = n, ev_raw = r\<rparr>)
       (zip evs [k..<k + length evs]), word_of_nat (k + length evs))"
proof (induction evs arbitrary: k)
  case (Cons e evs)
  obtain n r where e: "e = (n, r)"
    by fastforce
  have "word_of_nat k + 1 = (word_of_nat (Suc k) :: u32)"
    by simp
  then show ?case
    unfolding upt_step using Cons.IH [of "Suc k"] by (simp add: e del: of_nat_Suc upt_Suc)
qed simp

text \<open>What \<open>device_step\<close> makes of an entry that is accepted.\<close>

definition accepted :: "(string, nat) hashmap \<Rightarrow> string \<times> raw_device \<Rightarrow> device_def \<Rightarrow> bool" where
  "accepted ai e d \<longleftrightarrow> dd_name d = fst e \<and> hm_get ai (rd_adapter (snd e)) = Some (dd_adapter d) \<and>
     dd_address d = rd_address (snd e) \<and> dd_endpoint d = rd_endpoint (snd e) \<and>
     map Some (dd_capabilities d) = map parse_capability (rd_capabilities (snd e)) \<and>
     map (\<lambda>v. (ev_name v, ev_raw v)) (dd_events d) = rd_events (snd e)"

lemma device_step_None:
  assumes "hm_get ai (rd_adapter raw) = None" and "v_next_action s = word_of_nat k"
  shows "\<exists>es. v_diags (device_step ai (n, raw) s) = v_diags s @ es \<and> \<not> clean es"
    and "v_devices (device_step ai (n, raw) s) = v_devices s"
    and "v_index (device_step ai (n, raw) s) = v_index s"
    and "v_next_action (device_step ai (n, raw) s) = word_of_nat (k + length (rd_events raw))"
  using assms by (auto simp: device_step_def Let_def intern_events_eq split: prod.split)

lemma device_step_Some:
  assumes "hm_get ai (rd_adapter raw) = Some a" and "v_next_action s = word_of_nat k"
  obtains d es where "v_diags (device_step ai (n, raw) s) = v_diags s @ es"
    and "v_devices (device_step ai (n, raw) s) = v_devices s @ [d]"
    and "v_index (device_step ai (n, raw) s) = hm_insert n (dd_id d) (v_index s)"
    and "v_next_action (device_step ai (n, raw) s) = word_of_nat (k + length (rd_events raw))"
    and "dd_name d = n" and "dd_adapter d = a" and "dd_id d = DeviceId (word_of_nat (length (v_devices s)))"
    and "map ev_id (dd_events d) = map (\<lambda>i. ActionId (word_of_nat i)) [k..<k + length (rd_events raw)]"
    and "clean es \<Longrightarrow> accepted ai (n, raw) d"
proof -
  let ?caps = "resolve_capabilities (in_device n) (rd_capabilities raw)"
  let ?evs = "fst (intern_events (word_of_nat k) (rd_events raw))"
  let ?d = "\<lparr>dd_id = DeviceId (word_of_nat (length (v_devices s))), dd_name = n, dd_adapter = a,
    dd_address = rd_address raw, dd_endpoint = rd_endpoint raw, dd_capabilities = fst ?caps,
    dd_events = ?evs,
    dd_metadata = \<lparr>dm_manufacturer = rd_manufacturer raw, dm_model = rd_model raw, dm_room = rd_room raw\<rparr>\<rparr>"
  have names: "map (\<lambda>v. (ev_name v, ev_raw v)) ?evs = rd_events raw"
    by (simp add: intern_events_eq case_prod_beta comp_def)
  have ids: "map ev_id ?evs = map (\<lambda>i. ActionId (word_of_nat i)) [k..<k + length (rd_events raw)]"
    by (rule nth_equalityI) (simp_all add: intern_events_eq case_prod_beta)
  define inert where "inert = (if rd_capabilities raw = [] \<and> rd_events raw = []
     then [diag_at (in_device n) (diag_warning ''E_INERT_DEVICE''
            (''device declares neither capabilities nor events, '' @
             ''so it can'' @ [char_of (39 :: nat)] @ ''t be commanded or trigger rules''))] else [])"
  show ?thesis
  proof (rule that [of "snd ?caps @ inert" ?d])
    show "clean (snd ?caps @ inert) \<Longrightarrow> accepted ai (n, raw) ?d"
      using assms(1) names resolve_capabilities_clean by (simp add: accepted_def)
  qed (simp_all add: device_step_def Let_def assms inert_def case_prod_beta ids,
       simp add: intern_events_eq)
qed

definition event_count :: "raw_device btree \<Rightarrow> nat" where
  "event_count raws = sum_list (map (\<lambda>(_, r). length (rd_events r)) raws)"

definition devices_inv ::
  "(string, nat) hashmap \<Rightarrow> raw_device btree \<Rightarrow> diagnostic list \<Rightarrow> device_state \<Rightarrow> bool" where
  "devices_inv ai raws ds v \<longleftrightarrow>
     v_index v = interned (\<lambda>i. DeviceId (word_of_nat i)) (map dd_name (v_devices v)) \<and>
     map dd_id (v_devices v) = map (\<lambda>i. DeviceId (word_of_nat i)) [0..<length (v_devices v)] \<and>
     distinct (map dd_name (v_devices v)) \<and>
     set (map dd_name (v_devices v)) \<subseteq> set (map fst raws) \<and>
     v_next_action v = word_of_nat (event_count raws) \<and>
     (\<exists>es. v_diags v = ds @ es \<and> (clean es \<longrightarrow>
        list_all2 (accepted ai) raws (v_devices v) \<and>
        concat (map (\<lambda>d. map ev_id (dd_events d)) (v_devices v)) =
          map (\<lambda>i. ActionId (word_of_nat i)) [0..<event_count raws]))"

lemma resolve_devices_inv:
  "distinct (map fst raws) \<Longrightarrow> devices_inv ai raws ds (resolve_devices ai raws ds)"
proof (induction raws rule: rev_induct)
  case Nil
  then show ?case
    by (simp add: devices_inv_def resolve_devices_def interned_def event_count_def)
next
  case (snoc e raws)
  obtain n raw where e: "e = (n, raw)"
    by fastforce
  let ?v = "resolve_devices ai raws ds"
  have step: "resolve_devices ai (raws @ [e]) ds = device_step ai (n, raw) ?v"
    by (simp add: resolve_devices_def e)
  have n: "n \<notin> set (map fst raws)"
    using snoc.prems by (simp add: e)
  have IH: "devices_inv ai raws ds ?v"
    using snoc by simp
  then have next': "v_next_action ?v = word_of_nat (event_count raws)"
    by (simp add: devices_inv_def)
  have count: "event_count (raws @ [e]) = event_count raws + length (rd_events raw)"
    by (simp add: event_count_def e)
  show ?case
  proof (cases "hm_get ai (rd_adapter raw)")
    case None
    obtain es where "v_diags (device_step ai (n, raw) ?v) = v_diags ?v @ es" "\<not> clean es"
      using device_step_None(1) [OF None next'] by blast
    with IH show ?thesis
      unfolding step devices_inv_def count device_step_None(2-) [OF None next']
      by auto
  next
    case (Some a)
    obtain d es where d: "v_diags (device_step ai (n, raw) ?v) = v_diags ?v @ es"
      "v_devices (device_step ai (n, raw) ?v) = v_devices ?v @ [d]"
      "v_index (device_step ai (n, raw) ?v) = hm_insert n (dd_id d) (v_index ?v)"
      "v_next_action (device_step ai (n, raw) ?v) = word_of_nat (event_count raws + length (rd_events raw))"
      "dd_name d = n" "dd_id d = DeviceId (word_of_nat (length (v_devices ?v)))"
      "map ev_id (dd_events d) =
        map (\<lambda>i. ActionId (word_of_nat i)) [event_count raws..<event_count raws + length (rd_events raw)]"
      "clean es \<Longrightarrow> accepted ai (n, raw) d"
      using device_step_Some [OF Some next'] by metis
    obtain es' where es': "v_diags ?v = ds @ es'" "clean es' \<longrightarrow>
        list_all2 (accepted ai) raws (v_devices ?v) \<and>
        concat (map (\<lambda>d. map ev_id (dd_events d)) (v_devices ?v)) =
          map (\<lambda>i. ActionId (word_of_nat i)) [0..<event_count raws]"
      using IH unfolding devices_inv_def by blast
    have fresh: "n \<notin> set (map dd_name (v_devices ?v))"
      using IH n unfolding devices_inv_def by blast
    have index: "hm_insert n (dd_id d) (v_index ?v) =
        interned (\<lambda>i. DeviceId (word_of_nat i)) (map dd_name (v_devices ?v @ [d]))"
      using IH interned_snoc [OF fresh, of "\<lambda>i. DeviceId (word_of_nat i)"] d(5,6)
      by (simp add: devices_inv_def)
    have range: "[0..<event_count raws + length (rd_events raw)] =
        [0..<event_count raws] @ [event_count raws..<event_count raws + length (rd_events raw)]"
      by (rule upt_add_eq_append) simp
    have "clean (es' @ es) \<longrightarrow>
        list_all2 (accepted ai) (raws @ [e]) (v_devices ?v @ [d]) \<and>
        concat (map (\<lambda>d. map ev_id (dd_events d)) (v_devices ?v @ [d])) =
          map (\<lambda>i. ActionId (word_of_nat i)) [0..<event_count (raws @ [e])]"
      using es'(2) d(7,8) unfolding count range clean_simps by (auto simp: e intro: list_all2_appendI)
    then have "\<exists>es. v_diags (device_step ai (n, raw) ?v) = ds @ es \<and> (clean es \<longrightarrow>
        list_all2 (accepted ai) (raws @ [e]) (v_devices ?v @ [d]) \<and>
        concat (map (\<lambda>d. map ev_id (dd_events d)) (v_devices ?v @ [d])) =
          map (\<lambda>i. ActionId (word_of_nat i)) [0..<event_count (raws @ [e])])"
      using d(1) es'(1) by (intro exI [of _ "es' @ es"]) simp
    then show ?thesis
      using IH fresh d(4-6) unfolding step devices_inv_def d(2,3) index count
      by (auto simp: e)
  qed
qed

section \<open>Scenes and rules\<close>

text \<open>What a scene and a rule are that were lowered without an error.\<close>

definition scene_of :: "lower_ctx \<Rightarrow> string \<times> 'n yaml list \<Rightarrow> compiled_scene \<Rightarrow> bool" where
  "scene_of C e sc \<longleftrightarrow> cs_name sc = fst e \<and> cs_id sc = the (hm_get (lc_scene_index C) (fst e)) \<and>
     length (cs_commands sc) = length (snd e) \<and> list_all (command_ok C) (cs_commands sc)"

definition rule_of :: "lower_ctx \<Rightarrow> nat \<times> string \<times> 'n raw_rule \<Rightarrow> rule \<Rightarrow> bool" where
  "rule_of C e r \<longleftrightarrow> (case e of (i, name, raw) \<Rightarrow>
     r_id r = RuleId (word_of_nat i) \<and> r_name r = name \<and>
     trigger_ok C (r_trigger r) \<and> condition_ok C (r_condition r) \<and>
     length (r_commands r) = length (rr_then raw) \<and> list_all (command_ok C) (r_commands r) \<and>
     (r_for r = None \<longleftrightarrow> rr_for_duration raw = None) \<and>
     (r_for r \<noteq> None \<longrightarrow> watched (r_trigger r) \<noteq> None))"

lemma honest_lower_for: "honest (\<lambda>_. watched t \<noteq> None) (lower_for d t at)"
  by (auto simp: lower_for_def intro: honest_weaken [OF honest_duration])

lemma lower_scenes_honest:
  "\<exists>ds. l_diags (snd (lower_scenes Y C raws s)) = l_diags s @ ds \<and>
    (\<not> clean ds \<or> list_all2 (scene_of C) raws (fst (lower_scenes Y C raws s)))"
proof (induction raws arbitrary: s)
  case (Cons e raws)
  obtain n cmds where e: "e = (n, cmds)"
    by fastforce
  obtain cs s1 where cs: "lower_commands Y C (in_scene n) cmds s = (cs, s1)"
    by fastforce
  obtain scs s2 where scs: "lower_scenes Y C raws s1 = (scs, s2)"
    by fastforce
  obtain ds where "l_diags s1 = l_diags s @ ds"
    "\<not> clean ds \<or> length cs = length cmds \<and> list_all (command_ok C) cs"
    using lower_commands_honest [of Y C "in_scene n" cmds s] cs by (auto simp: clean_iff)
  moreover obtain es where "l_diags s2 = l_diags s1 @ es" "\<not> clean es \<or> list_all2 (scene_of C) raws scs"
    using Cons.IH [of s1] scs by auto
  moreover have "list_all (command_ok C) cs \<Longrightarrow> length cs = length cmds \<Longrightarrow>
      scene_of C e \<lparr>cs_id = the (hm_get (lc_scene_index C) n), cs_name = n, cs_commands = cs\<rparr>"
    by (simp add: e scene_of_def)
  ultimately show ?case
    by (intro exI [of _ "ds @ es"]) (auto simp: e cs scs)
qed simp

lemma honestE:
  assumes "honest P m" and "m s = (r, s')"
  obtains ds where "l_diags s' = l_diags s @ ds" and "\<not> clean ds \<or> (\<exists>a. r = Some a \<and> P a)"
  using assms unfolding honest_def clean_iff by (cases r) (metis fst_conv option.simps(4,5) snd_conv)+

lemma lower_rule_honest:
  assumes "ctx_wf C"
  shows "honest (rule_of C (i, n, raw)) (lower_rule Y C i n raw)"
  unfolding honest_def
proof
  fix s
  let ?at = "in_rule n"
  let ?cond = "case rr_condition raw of Some c \<Rightarrow> lower_condition Y C c ?at | None \<Rightarrow> lo_ok Always"
  obtain t s1 where t: "lower_trigger Y C (rr_when raw) ?at s = (t, s1)"
    by fastforce
  obtain c s2 where c: "?cond s1 = (c, s2)"
    by fastforce
  obtain cs s3 where cs: "lower_commands Y C ?at (rr_then raw) s2 = (cs, s3)"
    by fastforce
  have cond: "(case rr_condition raw of Some c \<Rightarrow> lower_condition Y C c ?at s1 | None \<Rightarrow> (Some Always, s1)) = (c, s2)"
    using c by (cases "rr_condition raw") (simp_all add: lo_ok_def)
  have "honest (condition_ok C) ?cond"
    by (auto split: option.split intro: honest_lower_conditions)
  then obtain d2 where d2: "l_diags s2 = l_diags s1 @ d2" "\<not> clean d2 \<or> (\<exists>a. c = Some a \<and> condition_ok C a)"
    using c by (rule honestE)
  obtain d1 where d1: "l_diags s1 = l_diags s @ d1" "\<not> clean d1 \<or> (\<exists>a. t = Some a \<and> trigger_ok C a)"
    using honest_lower_trigger [OF assms] t by (rule honestE)
  obtain d3 where d3: "l_diags s3 = l_diags s2 @ d3"
    "\<not> clean d3 \<or> length cs = length (rr_then raw) \<and> list_all (command_ok C) cs"
    using lower_commands_honest [of Y C ?at "rr_then raw" s2] cs by (auto simp: clean_iff)
  show "\<exists>ds. l_diags (snd (lower_rule Y C i n raw s)) = l_diags s @ ds \<and>
      ((\<exists>d \<in> set ds. is_error d) \<or>
       (case fst (lower_rule Y C i n raw s) of Some r \<Rightarrow> rule_of C (i, n, raw) r | None \<Rightarrow> False))"
  proof (cases "t = None \<or> c = None")
    case True
    then have "lower_rule Y C i n raw s = (None, s3)"
      by (auto simp: lower_rule_def Let_def t cond cs split: option.split)
    then show ?thesis
      using True d1 d2 d3 by (intro exI [of _ "d1 @ d2 @ d3"]) (auto simp: clean_iff)
  next
    case False
    then obtain trig cond' where some: "t = Some trig" "c = Some cond'"
      by auto
    let ?for = "case rr_for_duration raw of Some d \<Rightarrow> lower_for d trig ?at s3 | None \<Rightarrow> (None, s3)"
    obtain dur s4 where dur: "?for = (dur, s4)"
      by fastforce
    have "\<exists>d4. l_diags s4 = l_diags s3 @ d4 \<and> (\<not> clean d4 \<or>
        (dur = None \<longleftrightarrow> rr_for_duration raw = None) \<and> (dur \<noteq> None \<longrightarrow> watched trig \<noteq> None))"
    proof (cases "rr_for_duration raw")
      case None
      with dur show ?thesis
        by auto
    next
      case (Some d)
      with dur have "lower_for d trig ?at s3 = (dur, s4)"
        by simp
      with honest_lower_for obtain d4 where "l_diags s4 = l_diags s3 @ d4"
        "\<not> clean d4 \<or> (\<exists>a. dur = Some a \<and> watched trig \<noteq> None)"
        by (rule honestE)
      with Some show ?thesis
        by auto
    qed
    then obtain d4 where d4: "l_diags s4 = l_diags s3 @ d4" "\<not> clean d4 \<or>
        (dur = None \<longleftrightarrow> rr_for_duration raw = None) \<and> (dur \<noteq> None \<longrightarrow> watched trig \<noteq> None)"
      by (elim exE conjE)
    let ?r = "with_for_duration dur (with_name n (new_rule (RuleId (word_of_nat i)) trig cond' cs))"
    have run: "lower_rule Y C i n raw s = (Some ?r, s4)"
      using dur by (simp add: lower_rule_def Let_def t cond cs some)
    have "rule_of C (i, n, raw) ?r" if "clean (d1 @ d2 @ d3 @ d4)"
    proof -
      have "trigger_ok C trig" "condition_ok C cond'"
        using that d1(2) d2(2) some by auto
      moreover have "length cs = length (rr_then raw) \<and> list_all (command_ok C) cs"
        "(dur = None \<longleftrightarrow> rr_for_duration raw = None) \<and> (dur \<noteq> None \<longrightarrow> watched trig \<noteq> None)"
        using that d3(2) d4(2) unfolding clean_simps by blast+
      ultimately show ?thesis
        unfolding rule_of_def with_for_duration_def with_name_def new_rule_def by auto
    qed
    then have "(\<exists>d \<in> set (d1 @ d2 @ d3 @ d4). is_error d) \<or> rule_of C (i, n, raw) ?r"
      unfolding clean_iff by blast
    moreover have "l_diags s4 = l_diags s @ (d1 @ d2 @ d3 @ d4)"
      by (simp only: d1(1) d2(1) d3(1) d4(1) append.assoc)
    ultimately show ?thesis
      unfolding run fst_conv snd_conv option.case by (intro exI conjI)
  qed
qed

lemma lower_rules_honest:
  assumes "ctx_wf C"
  shows "\<exists>ds. l_diags (snd (lower_rules Y C i raws s)) = l_diags s @ ds \<and>
    (\<not> clean ds \<or> list_all2 (rule_of C) (List.enumerate i raws) (fst (lower_rules Y C i raws s)))"
proof (induction raws arbitrary: i s)
  case (Cons e raws)
  obtain n raw where e: "e = (n, raw)"
    by fastforce
  obtain r s1 where r: "lower_rule Y C i n raw s = (r, s1)"
    by fastforce
  obtain rs s2 where rs: "lower_rules Y C (Suc i) raws s1 = (rs, s2)"
    by fastforce
  obtain ds where "l_diags s1 = l_diags s @ ds" "\<not> clean ds \<or> (\<exists>a. r = Some a \<and> rule_of C (i, n, raw) a)"
    using lower_rule_honest [OF assms] r by (rule honestE)
  moreover obtain es where "l_diags s2 = l_diags s1 @ es"
    "\<not> clean es \<or> list_all2 (rule_of C) (List.enumerate (Suc i) raws) rs"
    using Cons.IH [of "Suc i" s1] rs by auto
  ultimately show ?case
    by (intro exI [of _ "ds @ es"]) (auto simp: e r rs)
qed simp

section \<open>A configuration that compiles\<close>

definition ctx_of :: "('n, 'f, 'x, 'b, 'w) compiled_config \<Rightarrow> lower_ctx" where
  "ctx_of cfg =
     \<lparr>lc_devices = cc_devices cfg, lc_device_index = cc_device_index cfg,
      lc_scene_index = cc_scene_index cfg, lc_schedule_index = cc_schedule_index cfg,
      lc_clock_device = cc_clock_device cfg\<rparr>"

lemma clean_or_error:
  "(if list_ex is_error ds then Inl ds else Inr r) = Inr cfg \<Longrightarrow> clean ds \<and> r = cfg"
  by (simp add: clean_def split: if_splits)

lemma resolve_Inr:
  assumes "resolve L reg raw = Inr cfg"
  obtains d0 v d1 s1 s2 where
    "resolve_adapters reg (rc_adapters raw) [] [] [] = (cc_adapters cfg, cc_adapter_index cfg, d0)"
    "resolve_devices (cc_adapter_index cfg) (rc_devices raw) d0 = v"
    "cc_devices cfg = v_devices v" "cc_device_index cfg = v_index v"
    "cc_clock_device cfg = DeviceId (word_of_nat (length (v_devices v)))"
    "cc_scene_index cfg = scene_index_of (rc_scenes raw)"
    "resolve_schedules (lib_cron L) (rc_schedules raw) [] [] (v_diags v) =
      (cc_schedule_index cfg, cc_schedules cfg, d1)"
    "lower_scenes (lib_serde L) (ctx_of cfg) (rc_scenes raw) (start_lowering d1) = (cc_scenes cfg, s1)"
    "lower_rules (lib_serde L) (ctx_of cfg) 0 (rc_rules raw) s1 = (cc_rules cfg, s2)"
    "clean (l_diags s2)"
    "\<And>a. a \<in> set (cc_adapters cfg) \<Longrightarrow> clean (lint_expose (v_index v) (v_devices v) a)"
    "\<And>d. d \<in> set (v_devices v) \<Longrightarrow> clean (lint_device (cc_adapters cfg) d)"
    "clean (system_diags (lib_tz L) (rc_system raw))"
    "clean (cc_warnings cfg)"
proof -
  obtain as ai d0 where as: "resolve_adapters reg (rc_adapters raw) [] [] [] = (as, ai, d0)"
    by (metis prod_cases3)
  obtain v where v: "resolve_devices ai (rc_devices raw) d0 = v"
    by blast
  obtain ki ks d1 where ks: "resolve_schedules (lib_cron L) (rc_schedules raw) [] [] (v_diags v) = (ki, ks, d1)"
    by (metis prod_cases3)
  let ?C = "\<lparr>lc_devices = v_devices v, lc_device_index = v_index v,
      lc_scene_index = scene_index_of (rc_scenes raw), lc_schedule_index = ki,
      lc_clock_device = DeviceId (word_of_nat (length (v_devices v)))\<rparr>"
  obtain scs s1 where scs: "lower_scenes (lib_serde L) ?C (rc_scenes raw) (start_lowering d1) = (scs, s1)"
    by fastforce
  obtain rs s2 where rs: "lower_rules (lib_serde L) ?C 0 (rc_rules raw) s1 = (rs, s2)"
    by fastforce
  note run = clean_or_error [OF assms [unfolded resolve_def as v Let_def ks prod.case scs rs]]
  note cfg = run [THEN conjunct2, symmetric]
  have C: "ctx_of cfg = ?C"
    unfolding cfg by (simp add: ctx_of_def)
  note diags = run [THEN conjunct1, unfolded clean_simps list.pred_map comp_def list_all_iff]
  show ?thesis
  proof (rule that [of d0 v d1 s1 s2], unfold C)
    show "clean (cc_warnings cfg)"
      unfolding cfg compiled_config.simps using run by (rule conjunct1)
  qed (use diags as v ks scs rs in \<open>simp_all add: cfg\<close>)
qed

lemma devices_inv_ctx_wf:
  assumes "devices_inv ai raws ds v"
  shows "ctx_wf \<lparr>lc_devices = v_devices v, lc_device_index = v_index v, lc_scene_index = si,
    lc_schedule_index = ki, lc_clock_device = c\<rparr>"
proof -
  have "device_at (v_devices v) d \<noteq> None" if "(n, d) \<in> set (v_index v)" for n d
  proof -
    from that assms obtain i where i: "i < length (v_devices v)" "d = DeviceId (word_of_nat i)"
      by (auto simp: devices_inv_def interned_def in_set_zip)
    have "unat (word_of_nat i :: u32) \<le> i"
      by (simp add: unat_of_nat)
    with i show ?thesis
      by (simp add: device_at_def)
  qed
  then show ?thesis
    by (auto simp: ctx_wf_def list_all_iff)
qed

lemma resolved:
  assumes "resolve L reg raw = Inr cfg" and "raw_ok raw"
  shows "cc_adapters cfg = map (adapter_of reg) (rc_adapters raw)"
    and "cc_adapter_index cfg = interned (\<lambda>i. i) (map fst (rc_adapters raw))"
    and "list_all (\<lambda>(n, r). plugin_for reg (ra_kind r) \<noteq> None) (rc_adapters raw)"
    and "list_all2 (accepted (cc_adapter_index cfg)) (rc_devices raw) (cc_devices cfg)"
    and "cc_device_index cfg = interned (\<lambda>i. DeviceId (word_of_nat i)) (map dd_name (cc_devices cfg))"
    and "map dd_id (cc_devices cfg) = map (\<lambda>i. DeviceId (word_of_nat i)) [0..<length (cc_devices cfg)]"
    and "concat (map (\<lambda>d. map ev_id (dd_events d)) (cc_devices cfg)) =
      map (\<lambda>i. ActionId (word_of_nat i)) [0..<event_count (rc_devices raw)]"
    and "cc_clock_device cfg = DeviceId (word_of_nat (length (cc_devices cfg)))"
    and "cc_scene_index cfg = interned (\<lambda>i. SceneId (word_of_nat i)) (map fst (rc_scenes raw))"
    and "cc_schedule_index cfg = interned (\<lambda>i. ScheduleId (word_of_nat i)) (map fst (rc_schedules raw))"
    and "cc_schedules cfg =
      map (schedule_of (lib_cron L)) (zip (rc_schedules raw) [0..<length (rc_schedules raw)])"
    and "list_all (\<lambda>(n, r). fst (resolve_schedule (lib_cron L) n r) \<noteq> None) (rc_schedules raw)"
    and "list_all2 (scene_of (ctx_of cfg)) (rc_scenes raw) (cc_scenes cfg)"
    and "list_all2 (rule_of (ctx_of cfg)) (List.enumerate 0 (rc_rules raw)) (cc_rules cfg)"
proof -
  obtain d0 v d1 s1 s2 where
    as: "resolve_adapters reg (rc_adapters raw) [] [] [] = (cc_adapters cfg, cc_adapter_index cfg, d0)"
    and v: "resolve_devices (cc_adapter_index cfg) (rc_devices raw) d0 = v"
      "cc_devices cfg = v_devices v" "cc_device_index cfg = v_index v"
      "cc_clock_device cfg = DeviceId (word_of_nat (length (v_devices v)))"
    and scenes: "cc_scene_index cfg = scene_index_of (rc_scenes raw)"
    and ks: "resolve_schedules (lib_cron L) (rc_schedules raw) [] [] (v_diags v) =
      (cc_schedule_index cfg, cc_schedules cfg, d1)"
    and scs: "lower_scenes (lib_serde L) (ctx_of cfg) (rc_scenes raw) (start_lowering d1) = (cc_scenes cfg, s1)"
    and rs: "lower_rules (lib_serde L) (ctx_of cfg) 0 (rc_rules raw) s1 = (cc_rules cfg, s2)"
    and clean: "clean (l_diags s2)"
    using assms(1) by (rule resolve_Inr)
  have distinct: "distinct (map fst (rc_adapters raw))" "distinct (map fst (rc_devices raw))"
    "distinct (map fst (rc_scenes raw))" "distinct (map fst (rc_schedules raw))"
    using assms(2) by (simp_all add: raw_ok_def btree_ok_def)
  have as': "cc_adapters cfg = map (adapter_of reg) (rc_adapters raw)"
    "cc_adapter_index cfg = interned (\<lambda>i. i) (map fst (rc_adapters raw))"
    "d0 = concat (map (\<lambda>(n, r). adapter_diags reg n r) (rc_adapters raw))"
    using as resolve_adapters_eq [of "[]" "rc_adapters raw" reg "[]"] distinct(1)
    by (simp_all add: interned_def)
  have inv: "devices_inv (cc_adapter_index cfg) (rc_devices raw) d0 v"
    using resolve_devices_inv [OF distinct(2)] v(1) by blast
  have wf: "ctx_wf (ctx_of cfg)"
    using devices_inv_ctx_wf [OF inv] by (simp add: ctx_of_def v)
  note ks' = resolve_schedules_eq [of "[]" "rc_schedules raw" "lib_cron L" "[]" "v_diags v"]
  have "cc_schedule_index cfg = interned (\<lambda>i. ScheduleId (word_of_nat i)) (map fst (rc_schedules raw)) \<and>
      (\<exists>es. d1 = v_diags v @ es \<and> (clean es \<longrightarrow>
        cc_schedules cfg = map (schedule_of (lib_cron L)) (zip (rc_schedules raw) [0..<length (rc_schedules raw)]) \<and>
        list_all (\<lambda>(n, r). fst (resolve_schedule (lib_cron L) n r) \<noteq> None) (rc_schedules raw)))"
    using ks' [of "cc_schedule_index cfg" "cc_schedules cfg" d1] ks distinct(4)
    by (simp add: interned_def)
  then obtain ke where ki: "cc_schedule_index cfg =
      interned (\<lambda>i. ScheduleId (word_of_nat i)) (map fst (rc_schedules raw))"
    and ke: "d1 = v_diags v @ ke" "clean ke \<longrightarrow>
        cc_schedules cfg = map (schedule_of (lib_cron L)) (zip (rc_schedules raw) [0..<length (rc_schedules raw)]) \<and>
        list_all (\<lambda>(n, r). fst (resolve_schedule (lib_cron L) n r) \<noteq> None) (rc_schedules raw)"
    by (elim conjE exE)
  obtain se where se: "l_diags s1 = d1 @ se"
    "\<not> clean se \<or> list_all2 (scene_of (ctx_of cfg)) (rc_scenes raw) (cc_scenes cfg)"
    using lower_scenes_honest [of "lib_serde L" "ctx_of cfg" "rc_scenes raw" "start_lowering d1"] scs
    by (auto simp: start_lowering_def)
  obtain re where re: "l_diags s2 = l_diags s1 @ re"
    "\<not> clean re \<or> list_all2 (rule_of (ctx_of cfg)) (List.enumerate 0 (rc_rules raw)) (cc_rules cfg)"
    using lower_rules_honest [OF wf, of "lib_serde L" 0 "rc_rules raw" s1] rs by auto
  obtain ve where ve: "v_diags v = d0 @ ve" "clean ve \<longrightarrow>
      list_all2 (accepted (cc_adapter_index cfg)) (rc_devices raw) (v_devices v) \<and>
      concat (map (\<lambda>d. map ev_id (dd_events d)) (v_devices v)) =
        map (\<lambda>i. ActionId (word_of_nat i)) [0..<event_count (rc_devices raw)]"
    using inv unfolding devices_inv_def by (elim conjE exE)
  have all: "clean d0" "clean ve" "clean ke" "clean se" "clean re"
    using clean re(1) se(1) ke(1) ve(1) by simp_all
  show "list_all (\<lambda>(n, r). plugin_for reg (ra_kind r) \<noteq> None) (rc_adapters raw)"
    using all(1) adapter_diags_clean unfolding as'(3) by (fastforce simp: list_all_iff)
  show "cc_scene_index cfg = interned (\<lambda>i. SceneId (word_of_nat i)) (map fst (rc_scenes raw))"
    unfolding scenes by (rule scene_index_of_eq [OF distinct(3)])
  show "cc_device_index cfg = interned (\<lambda>i. DeviceId (word_of_nat i)) (map dd_name (cc_devices cfg))"
    "map dd_id (cc_devices cfg) = map (\<lambda>i. DeviceId (word_of_nat i)) [0..<length (cc_devices cfg)]"
    using inv by (simp_all add: devices_inv_def v)
  show "cc_adapters cfg = map (adapter_of reg) (rc_adapters raw)"
    "cc_adapter_index cfg = interned (\<lambda>i. i) (map fst (rc_adapters raw))"
    by (fact as'(1), fact as'(2))
  show "list_all2 (accepted (cc_adapter_index cfg)) (rc_devices raw) (cc_devices cfg)"
    "concat (map (\<lambda>d. map ev_id (dd_events d)) (cc_devices cfg)) =
      map (\<lambda>i. ActionId (word_of_nat i)) [0..<event_count (rc_devices raw)]"
    "cc_clock_device cfg = DeviceId (word_of_nat (length (cc_devices cfg)))"
    using ve(2) all(2) v(2,4) by simp_all
  show "cc_schedule_index cfg = interned (\<lambda>i. ScheduleId (word_of_nat i)) (map fst (rc_schedules raw))"
    "cc_schedules cfg =
      map (schedule_of (lib_cron L)) (zip (rc_schedules raw) [0..<length (rc_schedules raw)])"
    "list_all (\<lambda>(n, r). fst (resolve_schedule (lib_cron L) n r) \<noteq> None) (rc_schedules raw)"
    using ki ke(2) all(3) by blast+
  show "list_all2 (scene_of (ctx_of cfg)) (rc_scenes raw) (cc_scenes cfg)"
    "list_all2 (rule_of (ctx_of cfg)) (List.enumerate 0 (rc_rules raw)) (cc_rules cfg)"
    using se(2) re(2) all(4,5) by blast+
qed

lemma list_all2_map_eq: "list_all2 P xs ys \<Longrightarrow> (\<And>x y. P x y \<Longrightarrow> f x = g y) \<Longrightarrow> map g ys = map f xs"
  by (induction rule: list_all2_induct) auto

lemma device_names:
  assumes "resolve L reg raw = Inr cfg" and "raw_ok raw"
  shows "map dd_name (cc_devices cfg) = map fst (rc_devices raw)"
  using resolved(4) [OF assms] by (rule list_all2_map_eq) (simp add: accepted_def)

lemma ctx_sel [simp]:
  "lc_devices (ctx_of cfg) = cc_devices cfg" "lc_device_index (ctx_of cfg) = cc_device_index cfg"
  "lc_scene_index (ctx_of cfg) = cc_scene_index cfg" "lc_schedule_index (ctx_of cfg) = cc_schedule_index cfg"
  "lc_clock_device (ctx_of cfg) = cc_clock_device cfg"
  by (simp_all add: ctx_of_def)

lemma resolve_warnings: "resolve L reg raw = Inr cfg \<Longrightarrow> clean (cc_warnings cfg)"
  by (erule resolve_Inr)

section \<open>Properties\<close>



text \<open>
  C6: every reference resolves. In a configuration that compiles every adapter has a registered plugin
  of the type it names, every device is bound to the adapter it names, and each trigger, condition and
  command of a rule or scene is about a declared device with the capability it needs, a declared
  scene or schedule, or the clock.
\<close>

theorem resolve_references:
  assumes "resolve L reg raw = Inr cfg" and "raw_ok raw"
  shows "list_all2 (\<lambda>(_, r) a. \<exists>p \<in> set reg. ad_plugin a = Some p \<and> type_tag p = ra_kind r)
      (rc_adapters raw) (cc_adapters cfg) \<and>
    list_all2 (\<lambda>(_, r) d. dd_adapter d < length (cc_adapters cfg) \<and>
        ad_name (cc_adapters cfg ! dd_adapter d) = rd_adapter r) (rc_devices raw) (cc_devices cfg) \<and>
    list_all (\<lambda>s. list_all (command_ok (ctx_of cfg)) (cs_commands s)) (cc_scenes cfg) \<and>
    list_all (\<lambda>r. trigger_ok (ctx_of cfg) (r_trigger r) \<and> condition_ok (ctx_of cfg) (r_condition r) \<and>
        list_all (command_ok (ctx_of cfg)) (r_commands r)) (cc_rules cfg)"
proof (intro conjI)
  note R = resolved [OF assms]
  show "list_all2 (\<lambda>(_, r) a. \<exists>p \<in> set reg. ad_plugin a = Some p \<and> type_tag p = ra_kind r)
      (rc_adapters raw) (cc_adapters cfg)"
    unfolding R(1) list_all2_map2 using R(3) plugin_for_found
    by (fastforce simp: list_all2_same list_all_iff adapter_of_def)
  have names: "length (cc_adapters cfg) = length (rc_adapters raw)"
    "i < length (rc_adapters raw) \<Longrightarrow> ad_name (cc_adapters cfg ! i) = map fst (rc_adapters raw) ! i" for i
    by (simp_all add: R(1) adapter_of_def case_prod_beta)
  have "distinct (map fst (rc_adapters raw))"
    using assms(2) by (simp add: raw_ok_def btree_ok_def)
  note index = interned_get [OF this, of "\<lambda>i. i", THEN iffD1]
  have "dd_adapter d < length (cc_adapters cfg) \<and>
      ad_name (cc_adapters cfg ! dd_adapter d) = rd_adapter (snd e)"
    if "accepted (cc_adapter_index cfg) e d" for e d
    using that index [of "rd_adapter (snd e)" "dd_adapter d"] names by (auto simp: accepted_def R(2))
  then show "list_all2 (\<lambda>(_, r) d. dd_adapter d < length (cc_adapters cfg) \<and>
        ad_name (cc_adapters cfg ! dd_adapter d) = rd_adapter r) (rc_devices raw) (cc_devices cfg)"
    using R(4) by (elim list_all2_mono) (simp add: case_prod_beta)
  show "list_all (\<lambda>s. list_all (command_ok (ctx_of cfg)) (cs_commands s)) (cc_scenes cfg)"
    using R(13) by (auto simp: list_all2_conv_all_nth scene_of_def list_all_length)
  show "list_all (\<lambda>r. trigger_ok (ctx_of cfg) (r_trigger r) \<and> condition_ok (ctx_of cfg) (r_condition r) \<and>
        list_all (command_ok (ctx_of cfg)) (r_commands r)) (cc_rules cfg)"
    using R(14) by (auto simp: list_all2_conv_all_nth rule_of_def list_all_length [of _ "cc_rules cfg"] case_prod_beta)
qed

theorem resolve_references_witness:
  "command_ok (ctx_of home_cfg) (SetSwitch (DeviceId 1) True)"
  using resolve_references [OF home_compiles home_raw_ok] by (simp add: home_cfg_sel home_rules_def)

lemma nth_id:
  assumes "map g xs = map f [0..<length xs]" and "i < length xs"
  shows "g (xs ! i) = f i"
  using arg_cong [OF assms(1), of "\<lambda>ys. ys ! i"] assms(2) by simp

lemma distinct_concat_part: "distinct (concat xss) \<Longrightarrow> xs \<in> set xss \<Longrightarrow> distinct xs"
  by (induction xss) auto

lemma find_by_key:
  "distinct (map f xs) \<Longrightarrow> x \<in> set xs \<Longrightarrow> find (\<lambda>y. f y = f x) xs = Some x"
  by (induction xs) auto

lemma device_at_position:
  assumes "map dd_id ds = map (\<lambda>i. DeviceId (word_of_nat i)) [0..<length ds]"
    and "length ds < 2 ^ 32" and "i < length ds"
  shows "device_at ds (dd_id (ds ! i)) = Some (ds ! i)"
proof -
  have "unat (word_of_nat i :: u32) = i"
    using assms(2,3) by (simp add: unat_of_nat)
  then show ?thesis
    using nth_id [OF assms(1,3)] assms(3) by (simp add: device_at_def)
qed

lemma event_names_distinct:
  assumes "resolve L reg raw = Inr cfg" and "raw_ok raw" and "d \<in> set (cc_devices cfg)"
  shows "distinct (map ev_name (dd_events d))"
proof -
  obtain e where e: "e \<in> set (rc_devices raw)" "accepted (cc_adapter_index cfg) e d"
    using resolved(4) [OF assms(1,2)] assms(3)
    by (metis in_set_conv_nth list_all2_conv_all_nth)
  then have "map fst (rd_events (snd e)) = map ev_name (dd_events d)"
    by (auto simp: accepted_def comp_def dest!: sym [of _ "rd_events (snd e)"])
  moreover have "distinct (map fst (rd_events (snd e)))"
    using assms(2) e(1) by (auto simp: raw_ok_def list_all_iff btree_ok_def)
  ultimately show ?thesis
    by simp
qed

text \<open>
  C8: ids are dense and stable. Devices are numbered in the order of their names and an id finds the
  device it was given to; the clock's id is no device's; a name is in the index exactly when it is a
  device's; and the declared events are numbered throughout, so an action id belongs to one event of
  one device and is found by its name.
\<close>

theorem resolve_ids_dense:
  assumes "resolve L reg raw = Inr cfg" and "raw_ok raw"
    and "length (rc_devices raw) < 2 ^ 32" and "event_count (rc_devices raw) < 2 ^ 32"
  shows "(cc_device_id cfg name = Some i \<longleftrightarrow>
      (\<exists>k < length (cc_devices cfg). dd_name (cc_devices cfg ! k) = name \<and> i = DeviceId (word_of_nat k))) \<and>
    (\<forall>d \<in> set (cc_devices cfg). cc_device cfg (dd_id d) = Some d) \<and>
    cc_device cfg (cc_clock_device cfg) = None \<and>
    distinct (concat (map (\<lambda>d. map ev_id (dd_events d)) (cc_devices cfg))) \<and>
    (\<forall>d \<in> set (cc_devices cfg). \<forall>e \<in> set (dd_events d).
       cc_action_id cfg (dd_id d) (ev_name e) = Some (ev_id e))"
proof -
  note R = resolved [OF assms(1,2)]
  have names: "map dd_name (cc_devices cfg) = map fst (rc_devices raw)"
    by (rule device_names [OF assms(1,2)])
  then have len: "length (cc_devices cfg) < 2 ^ 32"
    using assms(3) by (metis length_map)
  have "distinct (map dd_name (cc_devices cfg))"
    using assms(2) unfolding names by (simp add: raw_ok_def btree_ok_def)
  note interned_get [OF this, of "\<lambda>k. DeviceId (word_of_nat k)" name i]
  then have index: "cc_device_id cfg name = Some i \<longleftrightarrow>
      (\<exists>k < length (cc_devices cfg). dd_name (cc_devices cfg ! k) = name \<and> i = DeviceId (word_of_nat k))"
    unfolding cc_device_id_def R(5) length_map by (auto simp: nth_map)
  have found: "cc_device cfg (dd_id d) = Some d" if "d \<in> set (cc_devices cfg)" for d
    using that device_at_position [OF R(6) len] by (auto simp: cc_device_def in_set_conv_nth)
  have clock: "cc_device cfg (cc_clock_device cfg) = None"
    using len by (simp add: cc_device_def device_at_def R(8) unat_of_nat)
  have actions: "distinct (concat (map (\<lambda>d. map ev_id (dd_events d)) (cc_devices cfg)))"
    unfolding R(7) using assms(4) by (auto simp: distinct_map inj_on_def word_of_nat_inj32)
  have "cc_action_id cfg (dd_id d) (ev_name e) = Some (ev_id e)"
    if "d \<in> set (cc_devices cfg)" and "e \<in> set (dd_events d)" for d e
    using found [OF that(1)] find_by_key [OF event_names_distinct [OF assms(1,2) that(1)] that(2)]
    by (simp add: cc_action_id_def)
  with index found clock actions show ?thesis
    by blast
qed

theorem resolve_ids_dense_witness:
  "cc_action_id home_cfg (DeviceId 1) ''top'' = Some (ActionId 0)"
  using resolve_ids_dense [OF home_compiles home_raw_ok]
  by (simp add: home_cfg_sel home_devices_def home_raw_def event_count_def home_device_def)

text \<open>A rule that compiled can be sustained: the invariant of the \<open>for:\<close> timers starts out true.\<close>

lemma resolved_rule_ids:
  assumes "resolve L reg raw = Inr cfg" and "raw_ok raw" and "length (rc_rules raw) < 2 ^ 32"
  shows "distinct (map r_id (cc_rules cfg))"
    and "list_all (\<lambda>r. r_for r \<noteq> None \<longrightarrow> watched (r_trigger r) \<noteq> None) (cc_rules cfg)"
proof -
  note R = resolved(14) [OF assms(1,2)]
  have "map r_id (cc_rules cfg) = map (\<lambda>(i, _). RuleId (word_of_nat i)) (List.enumerate 0 (rc_rules raw))"
    using R by (rule list_all2_map_eq) (auto simp: rule_of_def)
  also have "\<dots> = map (\<lambda>i. RuleId (word_of_nat i)) [0..<length (rc_rules raw)]"
    by (rule nth_equalityI) (simp_all add: nth_enumerate_eq)
  finally show "distinct (map r_id (cc_rules cfg))"
    using assms(3) by (auto simp: distinct_map inj_on_def word_of_nat_inj32)
  show "list_all (\<lambda>r. r_for r \<noteq> None \<longrightarrow> watched (r_trigger r) \<noteq> None) (cc_rules cfg)"
    using R by (auto simp: list_all2_conv_all_nth rule_of_def list_all_length case_prod_beta)
qed

lemma resolved_scene_ids:
  assumes "resolve L reg raw = Inr cfg" and "raw_ok raw" and "length (rc_scenes raw) < 2 ^ 32"
  shows "distinct (map cs_id (cc_scenes cfg))"
proof -
  note R = resolved [OF assms(1,2)]
  have d: "distinct (map fst (rc_scenes raw))"
    using assms(2) by (simp add: raw_ok_def btree_ok_def)
  have ids: "map cs_id (cc_scenes cfg) = map (\<lambda>e. the (hm_get (cc_scene_index cfg) (fst e))) (rc_scenes raw)"
    using R(13) by (rule list_all2_map_eq) (simp add: scene_of_def)
  have "hm_get (cc_scene_index cfg) (fst (rc_scenes raw ! i)) = Some (SceneId (word_of_nat i))"
    if "i < length (rc_scenes raw)" for i
    using that unfolding R(9) interned_get [OF d] by auto
  then have "map cs_id (cc_scenes cfg) = map (\<lambda>i. SceneId (word_of_nat i)) [0..<length (rc_scenes raw)]"
    unfolding ids by (intro nth_equalityI) simp_all
  then show ?thesis
    using assms(3) by (auto simp: distinct_map inj_on_def word_of_nat_inj32)
qed

lemma resolved_plugins:
  assumes "resolve L reg raw = Inr cfg" and "raw_ok raw" and "a \<in> set (cc_adapters cfg)"
  shows "\<exists>p \<in> set reg. ad_plugin a = Some p"
  using resolved(1,3) [OF assms(1,2)] assms(3) plugin_for_found
  by (fastforce simp: adapter_of_def list_all_iff)

lemma resolved_bindings:
  assumes "resolve L reg raw = Inr cfg" and "raw_ok raw"
  shows "list_all (\<lambda>d. dd_adapter d < length (cc_adapters cfg)) (cc_devices cfg)"
proof -
  note R = resolved [OF assms]
  have "distinct (map fst (rc_adapters raw))"
    using assms(2) by (simp add: raw_ok_def btree_ok_def)
  note index = interned_get [OF this, of "\<lambda>i. i", THEN iffD1]
  have "dd_adapter d < length (cc_adapters cfg)" if "accepted (cc_adapter_index cfg) e d" for e d
    using that index [of "rd_adapter (snd e)" "dd_adapter d"] by (auto simp: accepted_def R(1,2))
  then show ?thesis
    using R(4) unfolding list_all_length list_all2_conv_all_nth by metis
qed

end
