(* ===== verification/Clock_Props.thy ===== *)
theory Clock_Props
  imports Clock
begin

text \<open>
  What the clock adapter promises: it reports once a minute, fires every occurrence of a schedule
  once and in order whatever the cadence of its ticks, and asks to be woken in time for both.
\<close>

section \<open>The loop over the occurrences\<close>

lemma cron_later:
  assumes "cron_advances X" and "next_occurrence X c z t = Some t'"
  shows "t < t'" and "to_millis X t < to_millis X t'"
  using assms unfolding cron_advances_def by (meson not_less)+

lemma due_loop_total:
  assumes X: "cron_advances X"
  shows "\<exists>ts n. due_loop (next_occurrence X c z) now next = Some (ts, n) \<and>
    (\<forall>t \<in> set ts. t \<le> now) \<and> sorted_wrt (<) ts \<and> (case n of Some t \<Rightarrow> now < t | None \<Rightarrow> True) \<and>
    (case next of Some t \<Rightarrow> (\<forall>u \<in> set ts. t \<le> u) | None \<Rightarrow> ts = [])"
proof (induction "case next of Some t \<Rightarrow> nat (to_millis X now - to_millis X t + 1) | None \<Rightarrow> 0"
    arbitrary: "next" rule: less_induct)
  case less
  show ?case
  proof (cases "next")
    case None
    then show ?thesis
      by (simp add: due_loop.simps)
  next
    case (Some t)
    show ?thesis
    proof (cases "now < t")
      case True
      then show ?thesis
        by (simp add: Some due_loop.simps)
    next
      case False
      let ?n = "next_occurrence X c z t"
      have "to_millis X t \<le> to_millis X now"
        using X False unfolding cron_advances_def by (simp add: not_less)
      then have "(case ?n of Some t \<Rightarrow> nat (to_millis X now - to_millis X t + 1) | None \<Rightarrow> 0)
          < (case next of Some t \<Rightarrow> nat (to_millis X now - to_millis X t + 1) | None \<Rightarrow> 0)"
        using cron_later(2) [OF X, of c z t] by (fastforce simp: Some split: option.split)
      from less [OF this] obtain ts n where rest:
        "due_loop (next_occurrence X c z) now ?n = Some (ts, n)"
        "\<forall>t \<in> set ts. t \<le> now" "sorted_wrt (<) ts" "case n of Some t \<Rightarrow> now < t | None \<Rightarrow> True"
        "case ?n of Some t \<Rightarrow> (\<forall>u \<in> set ts. t \<le> u) | None \<Rightarrow> ts = []"
        by blast
      have "\<forall>u \<in> set ts. t < u"
        using rest(5) cron_later(1) [OF X] by (fastforce split: option.splits)
      with rest False show ?thesis
        by (auto simp: Some due_loop.simps [of _ _ "Some t"])
    qed
  qed
qed

text \<open>Collecting up to one instant and then up to a later one is collecting up to the later one.\<close>

lemma due_loop_split:
  assumes "now \<le> now'" and "due_loop step now next = Some (ts, n)"
    and "due_loop step now' n = Some (ts', n')"
  shows "due_loop step now' next = Some (ts @ ts', n')"
  using assms
proof (induction ts arbitrary: "next")
  case Nil
  then have "n = next"
    by (simp add: due_loop.simps [of step now "next"] bind_eq_Some_conv split: option.splits if_splits prod.splits)
  with Nil show ?case
    by simp
next
  case (Cons t ts)
  then have "next = Some t" "\<not> now < t" "due_loop step now (step t) = Some (ts, n)"
    by (auto simp: due_loop.simps [of step now "next"] bind_eq_Some_conv split: option.splits if_splits prod.splits)
  with Cons show ?case
    by (simp add: due_loop.simps [of step now' "Some t"])
qed

section \<open>One schedule\<close>

definition armed :: "('t, 'c) schedule_state list \<Rightarrow> bool" where
  "armed ss \<longleftrightarrow> list_all ss_armed ss"

lemma arm_armed [simp]: "ss_armed (arm X z now s)" "ss_armed s \<Longrightarrow> arm X z now s = s"
  "ss_id (arm X z now s) = ss_id s" "ss_cron (arm X z now s) = ss_cron s"
  by (simp_all add: arm_def)

lemma fire_schedule_total:
  assumes "cron_advances X"
  shows "\<exists>fired s'. fire_schedule X z now s = Some (fired, s') \<and> ss_armed s' \<and>
    (\<forall>(t, i) \<in> set fired. t \<le> now \<and> i = ss_id s) \<and> sorted_wrt (<) (map fst fired) \<and>
    (case ss_next_fire s' of Some t \<Rightarrow> now < t | None \<Rightarrow> True)"
proof -
  let ?s = "arm X z now s"
  obtain ts n where "due_loop (next_occurrence X (ss_cron ?s) z) now (ss_next_fire ?s) = Some (ts, n)"
    "\<forall>t \<in> set ts. t \<le> now" "sorted_wrt (<) ts" "case n of Some t \<Rightarrow> now < t | None \<Rightarrow> True"
    using due_loop_total [OF assms, of "ss_cron ?s" z now "ss_next_fire ?s"] by blast
  then show ?thesis
    unfolding fire_schedule_def Let_def by (auto simp: comp_def)
qed

lemma fire_schedule_split:
  assumes "now \<le> now'" and "ss_armed s" and "fire_schedule X z now s = Some (fired, s')"
    and "fire_schedule X z now' s' = Some (fired', s'')"
  shows "fire_schedule X z now' s = Some (fired @ fired', s'')"
proof -
  obtain ts n where 1: "due_loop (next_occurrence X (ss_cron s) z) now (ss_next_fire s) = Some (ts, n)"
    "fired = map (\<lambda>t. (t, ss_id s)) ts" "s' = s\<lparr>ss_next_fire := n\<rparr>"
    using assms(2,3) by (auto simp: fire_schedule_def bind_eq_Some_conv)
  moreover obtain ts' n' where 2: "due_loop (next_occurrence X (ss_cron s) z) now' n = Some (ts', n')"
    "fired' = map (\<lambda>t. (t, ss_id s)) ts'" "s'' = s\<lparr>ss_next_fire := n'\<rparr>"
    using assms(2,4) by (auto simp: fire_schedule_def bind_eq_Some_conv 1(3))
  ultimately show ?thesis
    using due_loop_split [OF assms(1) 1(1) 2(1)] assms(2) by (simp add: fire_schedule_def)
qed

text \<open>The first tick arms a schedule strictly after its own time, so it fires nothing.\<close>

lemma fire_schedule_boot:
  assumes "cron_advances X" and "\<not> ss_armed s" and "fire_schedule X z now s = Some (fired, s')"
  shows "fired = []"
proof (cases "next_occurrence X (ss_cron s) z now")
  case None
  with assms(2,3) show ?thesis
    by (auto simp: fire_schedule_def arm_def due_loop.simps bind_eq_Some_conv)
next
  case (Some t)
  then have "now < t"
    by (rule cron_later(1) [OF assms(1)])
  with assms(2,3) Some show ?thesis
    by (auto simp: fire_schedule_def arm_def due_loop.simps [of _ _ "Some t"] bind_eq_Some_conv)
qed

section \<open>All schedules\<close>

lemma fire_schedules_total:
  assumes "cron_advances X"
  shows "\<exists>fired ss'. fire_schedules X z now ss = Some (fired, ss') \<and> armed ss' \<and>
    (\<forall>(t, i) \<in> set fired. t \<le> now \<and> i \<in> ss_id ` set ss) \<and>
    list_all (\<lambda>s. case ss_next_fire s of Some t \<Rightarrow> now < t | None \<Rightarrow> True) ss'"
proof (induction ss)
  case (Cons s ss)
  obtain f s' where "fire_schedule X z now s = Some (f, s')" "ss_armed s'"
    "\<forall>(t, i) \<in> set f. t \<le> now \<and> i = ss_id s"
    "case ss_next_fire s' of Some t \<Rightarrow> now < t | None \<Rightarrow> True"
    using fire_schedule_total [OF assms, of z now s] by blast
  with Cons show ?case
    by (auto simp: armed_def)
qed (simp add: armed_def)

lemma fire_schedules_split:
  assumes "now \<le> now'" and "armed ss" and "fire_schedules X z now ss = Some (fired, ss')"
    and "fire_schedules X z now' ss' = Some (fired', ss'')"
  shows "\<exists>all. fire_schedules X z now' ss = Some (all, ss'') \<and> mset all = mset fired + mset fired'"
  using assms(2-)
proof (induction ss arbitrary: fired ss' fired' ss'')
  case (Cons s ss)
  obtain f s' fs rs where 1: "fire_schedule X z now s = Some (f, s')" "fire_schedules X z now ss = Some (fs, rs)"
    "fired = f @ fs" "ss' = s' # rs"
    using Cons.prems(2) by (auto simp: bind_eq_Some_conv)
  obtain f' s'' fs' rs' where 2: "fire_schedule X z now' s' = Some (f', s'')"
    "fire_schedules X z now' rs = Some (fs', rs')" "fired' = f' @ fs'" "ss'' = s'' # rs'"
    using Cons.prems(3) by (auto simp: 1(4) bind_eq_Some_conv)
  have "fire_schedule X z now' s = Some (f @ f', s'')"
    using Cons.prems(1) 1(1) 2(1) by (intro fire_schedule_split [OF assms(1)]) (simp_all add: armed_def)
  moreover obtain all where "fire_schedules X z now' ss = Some (all, rs')" "mset all = mset fs + mset fs'"
    using Cons.IH [OF _ 1(2) 2(2)] Cons.prems(1) by (auto simp: armed_def)
  ultimately show ?case
    by (simp add: 1 2)
qed simp

lemma fire_schedules_boot:
  assumes "cron_advances X"
  shows "list_all (\<lambda>s. \<not> ss_armed s) ss \<Longrightarrow> fire_schedules X z now ss = Some (fired, ss') \<Longrightarrow> fired = []"
proof (induction ss arbitrary: fired ss')
  case (Cons s ss)
  then show ?case
    using fire_schedule_boot [OF assms, of s z now] by (auto simp: bind_eq_Some_conv)
qed simp

lemma sort_append_below:
  fixes xs ys :: "('t::linorder \<times> 'i::linorder) list"
  assumes "mset zs = mset xs + mset ys" and "\<forall>x \<in> set xs. fst x \<le> t" and "\<forall>y \<in> set ys. t < fst y"
  shows "sort zs = sort xs @ sort ys"
proof -
  have "sorted (sort xs @ sort ys)"
    using assms(2,3) by (auto simp: sorted_append less_eq_prod_def intro!: less_imp_le dest: le_less_trans)
  moreover have "mset (sort xs @ sort ys) = mset zs"
    using assms(1) by simp
  ultimately show ?thesis
    by (metis properties_for_sort)
qed

lemma due_loop_after:
  assumes "due_loop step now next = Some (ts, n)" and "case next of Some t \<Rightarrow> b < t | None \<Rightarrow> True"
    and "\<And>t t'. step t = Some t' \<Longrightarrow> t < t'"
  shows "\<forall>t \<in> set ts. b < (t :: 't::linorder)"
  using assms(1,2)
proof (induction ts arbitrary: "next")
  case (Cons t ts)
  then have "next = Some t" "b < t" "due_loop step now (step t) = Some (ts, n)"
    by (auto simp: due_loop.simps [of step now "next"] bind_eq_Some_conv split: option.splits if_splits prod.splits)
  moreover have "case step t of Some t' \<Rightarrow> b < t' | None \<Rightarrow> True"
    using assms(3) \<open>b < t\<close> by (auto split: option.split intro: less_trans)
  ultimately show ?case
    using Cons.IH by auto
qed simp

lemma fire_schedules_after:
  assumes X: "cron_advances X"
  shows "armed ss \<Longrightarrow> list_all (\<lambda>s. case ss_next_fire s of Some t \<Rightarrow> b < t | None \<Rightarrow> True) ss \<Longrightarrow>
    fire_schedules X z now ss = Some (fired, ss') \<Longrightarrow> \<forall>x \<in> set fired. b < fst x"
proof (induction ss arbitrary: fired ss')
  case (Cons s ss)
  obtain f s' fs rs where 1: "fire_schedule X z now s = Some (f, s')" "fire_schedules X z now ss = Some (fs, rs)"
    "fired = f @ fs"
    using Cons.prems(3) by (auto simp: bind_eq_Some_conv)
  obtain ts n where ts: "due_loop (next_occurrence X (ss_cron s) z) now (ss_next_fire s) = Some (ts, n)"
    "f = map (\<lambda>t. (t, ss_id s)) ts"
    using 1(1) Cons.prems(1) by (auto simp: fire_schedule_def armed_def bind_eq_Some_conv)
  have "\<forall>t \<in> set ts. b < t"
    using ts(1) Cons.prems(2) cron_later(1) [OF X] by (intro due_loop_after) auto
  moreover have "\<forall>x \<in> set fs. b < fst x"
    using Cons.IH [OF _ _ 1(2)] Cons.prems(1,2) by (simp add: armed_def)
  ultimately show ?case
    by (auto simp: 1(3) ts(2))
qed simp

section \<open>Properties\<close>


text \<open>
  A calendar for the examples: Coordinated Universal Time in milliseconds, where every cron expression
  fires every ten minutes, and no ephemeris.
\<close>

definition utc :: "(int, unit, string, int, unit) chrono" where
  "utc =
     \<lparr>from_millis = Some, to_millis = id, local_hour = (\<lambda>_ t. word_of_int (t div 3600000 mod 24)),
      local_minute = (\<lambda>_ t. word_of_int (t div 60000 mod 60)), local_date = (\<lambda>_ t. t div 86400000),
      next_occurrence = (\<lambda>_ _ t. Some ((t div 600000 + 1) * 600000)),
      sunrise = (\<lambda>_ _. None), sunset = (\<lambda>_ _. None)\<rparr>"

definition utc_clock :: "(int, unit, string, int, unit) clock" where
  "utc_clock = with_schedules [(ScheduleId 7, ''*/10 * * * *'')] (new_clock (DeviceId 2) 0 () None)"

lemma utc_advances: "cron_advances utc"
proof -
  have "t < (t div p + 1) * p" if "0 < p" for t p :: int
    using div_mult_mod_eq [of t p] pos_mod_bound [OF that, of t] unfolding distrib_right by linarith
  then show ?thesis
    by (auto simp: cron_advances_def utc_def)
qed


lemma sun_up_sel [simp]:
  "ca_last_emit_min (snd (sun_up X t k)) = ca_last_emit_min k" "ca_device (snd (sun_up X t k)) = ca_device k"
  "ca_tz (snd (sun_up X t k)) = ca_tz k" "ca_boot_epoch_ms (snd (sun_up X t k)) = ca_boot_epoch_ms k"
  by (simp_all add: sun_up_def Let_def split: sun_window.split)

lemma fire_due_total:
  assumes "cron_advances X"
  shows "\<exists>is ss. fire_due_schedules X t k = Some (map TimeReached is, k\<lparr>ca_schedules := ss\<rparr>)"
proof -
  obtain f ss where "fire_schedules X (ca_tz k) t (ca_schedules k) = Some (f, ss)"
    using fire_schedules_total [OF assms] by blast
  then show ?thesis
    by (intro exI [of _ "map snd (sort f)"] exI [of _ ss]) (simp add: fire_due_schedules_def case_prod_beta comp_def)
qed

text \<open>The minute of the day a tick at an instant reports.\<close>

definition reported_minute :: "('t, 'z, 'c, 'd, 'o) chrono \<Rightarrow> 'z \<Rightarrow> 't \<Rightarrow> u16" where
  "reported_minute X z t = ucast (minute_of_day X z t)"

definition minute_reports :: "device_id \<Rightarrow> u16 \<Rightarrow> bool \<Rightarrow> event list" where
  "minute_reports d m up = [StateReported d (TimeOfDay m), StateReported d (SunUp up)]"

lemma publish_eq:
  "\<exists>up. fst (publish X t k) =
    (if ca_last_emit_min k = Some (reported_minute X (ca_tz k) t) then []
     else minute_reports (ca_device k) (reported_minute X (ca_tz k) t) up)"
  "ca_last_emit_min (snd (publish X t k)) = Some (reported_minute X (ca_tz k) t)"
  "ca_tz (snd (publish X t k)) = ca_tz k" "ca_device (snd (publish X t k)) = ca_device k"
  "ca_boot_epoch_ms (snd (publish X t k)) = ca_boot_epoch_ms k"
  by (auto simp: publish_def Let_def case_prod_beta reported_minute_def minute_reports_def)



section \<open>Waking\<close>

lemma fold_min_le: "fold (\<lambda>w acc. min acc w) ws a \<le> (a :: 'a::linorder)"
proof (induction ws arbitrary: a)
  case (Cons w ws)
  show ?case
    using Cons [of "min a w"] by simp
qed simp

lemma fold_min_cases:
  "fold (\<lambda>w acc. min acc w) ws a = (a :: 'a::linorder) \<or> fold (\<lambda>w acc. min acc w) ws a \<in> set ws"
proof (induction ws arbitrary: a)
  case (Cons w ws)
  then show ?case
    by (cases "a \<le> w") (force simp: min_def)+
qed simp

lemma fold_min_least: "w \<in> set ws \<Longrightarrow> fold (\<lambda>w acc. min acc w) ws a \<le> (w :: 'a::linorder)"
proof (induction ws arbitrary: a)
  case (Cons v ws)
  then show ?case
    using fold_min_le [of ws "min a v"] by (auto intro: order_trans)
qed simp

text \<open>Differences of instants that the calendar can represent fit a signed word.\<close>

lemma wrap_i64_id: "- (2 ^ 63) \<le> n \<Longrightarrow> n < 2 ^ 63 \<Longrightarrow> wrap_i64 n = n"
  by (simp add: wrap_i64_def sint_sbintrunc' signed_take_bit_int_eq_self)

definition in_range :: "int \<Rightarrow> bool" where
  "in_range n \<longleftrightarrow> - (2 ^ 62) \<le> n \<and> n < 2 ^ 62"

lemma uint_word_of_int_small: "0 \<le> n \<Longrightarrow> n < 2 ^ 64 \<Longrightarrow> uint (word_of_int n :: u64) = n"
  by (simp add: uint_word_of_int)

lemma wait_exact:
  assumes "in_range t" and "in_range wall"
  shows "wall + uint (word_of_int (max 0 (wrap_i64 (t - wall))) :: u64) = max wall t"
proof -
  have "wrap_i64 (t - wall) = t - wall"
    using assms by (intro wrap_i64_id) (auto simp: in_range_def)
  moreover have "max 0 (t - wall) < 2 ^ 64"
    using assms by (auto simp: in_range_def)
  ultimately show ?thesis
    by (subst uint_word_of_int_small) auto
qed

lemma next_minute: "(w + (60000 - w mod 60000)) mod 60000 = (0 :: int)"
proof -
  have "w + (60000 - w mod 60000) = (w div 60000 + 1) * 60000"
    using div_mult_mod_eq [of w 60000] unfolding distrib_right by linarith
  then show ?thesis
    by (simp only: mod_mult_self2_is_0)
qed

text \<open>
  C12: the clock asks to be woken in time. The delay is at most a minute, it never goes past the next
  occurrence of a schedule, and it ends exactly at the next full minute or at such an occurrence;
  for instants in the range of a calendar of 146 million years.
\<close>

theorem clock_wakes_in_time:
  assumes wall: "in_range (wall_ms k now)"
    and nexts: "\<forall>t \<in> set (List.map_filter ss_next_fire (ca_schedules k)). in_range (to_millis X t)"
  shows "\<exists>dt. clock_next_wake X k now = Some dt \<and> uint dt \<le> 60000 \<and>
    (\<forall>t \<in> set (List.map_filter ss_next_fire (ca_schedules k)).
       wall_ms k now + uint dt \<le> max (wall_ms k now) (to_millis X t)) \<and>
    ((wall_ms k now + uint dt) mod 60000 = 0 \<or>
     (\<exists>t \<in> set (List.map_filter ss_next_fire (ca_schedules k)).
        wall_ms k now + uint dt = max (wall_ms k now) (to_millis X t)))"
proof -
  let ?wall = "wall_ms k now" and ?ts = "List.map_filter ss_next_fire (ca_schedules k)"
  let ?wait = "\<lambda>t. word_of_int (max 0 (wrap_i64 (to_millis X t - ?wall))) :: u64"
  let ?min = "word_of_int (minute_ms - ?wall mod minute_ms) :: u64"
  let ?dt = "fold (\<lambda>w acc. min acc w) (map ?wait ?ts) ?min"
  have mod: "0 \<le> ?wall mod 60000" "?wall mod 60000 < 60000"
    by simp_all
  then have minute: "uint ?min = 60000 - ?wall mod 60000"
    by (subst uint_word_of_int_small) (simp_all add: minute_ms_def)
  have dt: "clock_next_wake X k now = Some ?dt"
    by (simp add: clock_next_wake_def Let_def)
  have "uint ?dt \<le> uint ?min"
    using fold_min_le [of "map ?wait ?ts" ?min] by (simp only: word_le_def)
  then have "uint ?dt \<le> 60000"
    using minute mod by linarith
  moreover have "\<forall>t \<in> set ?ts. ?wall + uint ?dt \<le> max ?wall (to_millis X t)"
  proof
    fix t
    assume that: "t \<in> set ?ts"
    have "uint ?dt \<le> uint (?wait t)"
      using fold_min_least [of "?wait t" "map ?wait ?ts" ?min] that unfolding word_le_def by simp
    then show "?wall + uint ?dt \<le> max ?wall (to_millis X t)"
      using wait_exact [of "to_millis X t" ?wall] nexts that wall by auto
  qed
  moreover have "(?wall + uint ?dt) mod 60000 = 0 \<or>
      (\<exists>t \<in> set ?ts. ?wall + uint ?dt = max ?wall (to_millis X t))"
  proof (cases "?dt = ?min")
    case True
    have "(?wall + (60000 - ?wall mod 60000)) mod 60000 = 0"
      by (rule next_minute)
    then show ?thesis
      using minute by (simp only: True simp_thms)
  next
    case False
    then obtain t where "t \<in> set ?ts" "?dt = ?wait t"
      using fold_min_cases [of "map ?wait ?ts" ?min] by auto
    then show ?thesis
      using wait_exact [of "to_millis X t" ?wall] nexts wall by (intro disjI2 bexI [of _ t]) simp_all
  qed
  ultimately show ?thesis
    by (intro exI [of _ ?dt] conjI dt)
qed

theorem clock_wakes_in_time_witness:
  "\<exists>dt. clock_next_wake utc utc_clock 90000 = Some dt \<and> uint dt \<le> 60000"
  using clock_wakes_in_time [of utc_clock 90000 utc]
  by (auto simp: utc_clock_def with_schedules_def new_clock_def wall_ms_def wrap_i64_def in_range_def
      List.map_filter_def)

end
