(* ===== verification/Build_Props.thy ===== *)
theory Build_Props
  imports Build Resolve_Props Clock_Props
begin

text \<open>
  What a built engine is: well formed, fresh, with every device routed to the adapter it names and
  the clock behind its own device, so that the properties of the engine apply to every configuration
  that compiles.
\<close>

section \<open>Building the adapters\<close>

text \<open>
  What the builder relies on: a southbound plugin implements \<open>build\<close>. And what the code's comments say
  the resolver guarantees: no device is bound to a northbound adapter.
\<close>

definition plugins_build :: "('n, 'x, 'b, 'w) plugin list \<Rightarrow> bool" where
  "plugins_build reg \<longleftrightarrow>
     (\<forall>p \<in> set reg. polarity p = Southbound \<longrightarrow> (\<forall>c ds w. build p c ds w \<noteq> None))"

definition slot_ok :: "('n, 'x, 'b, 'w) adapter_def \<Rightarrow> nat \<Rightarrow> nat \<Rightarrow> bool" where
  "slot_ok a n slot \<longleftrightarrow> \<not> is_northbound (ad_plugin a) \<longrightarrow> 0 < slot \<and> slot < n"

definition southbound_only :: "('n, 'f, 'x, 'b, 'w) compiled_config \<Rightarrow> bool" where
  "southbound_only cfg \<longleftrightarrow>
     list_all (\<lambda>d. \<not> is_northbound (ad_plugin (cc_adapters cfg ! dd_adapter d))) (cc_devices cfg)"

text \<open>A new engine with these adapters besides the scheduler.\<close>

definition fresh_engine :: "'x list \<Rightarrow> 'b list \<Rightarrow> ('x, 'b) engine" where
  "fresh_engine xs ns = new_engine\<lparr>e_adapters := Scheduler [] # map Device xs, e_northbound := ns\<rparr>"

lemma fresh_engine_add:
  "add_adapter x (fresh_engine xs ns) = (fresh_engine (xs @ [x]) ns, Suc (length xs))"
  "add_northbound n (fresh_engine xs ns) = fresh_engine xs (ns @ [n])"
  "new_engine = fresh_engine [] []"
  by (simp_all add: fresh_engine_def new_engine_def add_adapter_def add_northbound_def)

lemma build_adapters:
  assumes "\<forall>a \<in> set as. \<exists>p \<in> set reg. ad_plugin a = Some p" and "plugins_build reg"
  shows "\<exists>xs ns slots. run_fold (build_adapter cfg w dir) (List.enumerate k as) (fresh_engine xs0 ns0, slots0) =
      Done (fresh_engine (xs0 @ xs) ns, slots0 @ slots) \<and>
    list_all2 (\<lambda>a s. slot_ok a (Suc (length (xs0 @ xs))) s) as slots"
  using assms(1)
proof (induction as arbitrary: k xs0 ns0 slots0)
  case Nil
  show ?case
    by (intro exI [of _ "[]"] exI [of _ ns0]) simp
next
  case (Cons a as)
  then obtain p where p: "p \<in> set reg" "ad_plugin a = Some p"
    by auto
  show ?case
  proof (cases "polarity p")
    case Southbound
    then obtain x where x: "build p (ad_config a) (bound_devices k (cc_devices cfg)) w = Some x"
      using p(1) assms(2) unfolding plugins_build_def by blast
    obtain xs ns slots where "run_fold (build_adapter cfg w dir) (List.enumerate (Suc k) as)
        (fresh_engine (xs0 @ [Plugged x]) ns0, slots0 @ [Suc (length xs0)]) =
        Done (fresh_engine ((xs0 @ [Plugged x]) @ xs) ns, (slots0 @ [Suc (length xs0)]) @ slots)"
      "list_all2 (\<lambda>a s. slot_ok a (Suc (length ((xs0 @ [Plugged x]) @ xs))) s) as slots"
      using Cons.IH [of "Suc k" "xs0 @ [Plugged x]" ns0 "slots0 @ [Suc (length xs0)]"] Cons.prems by auto
    then show ?thesis
      using x p(2) Southbound
      by (intro exI [of _ "Plugged x # xs"] exI [of _ ns] exI [of _ "Suc (length xs0) # slots"])
        (simp add: build_adapter_def fresh_engine_add slot_ok_def)
  next
    case Northbound
    let ?nb = "build_northbound p (ad_config a) (exposed_devices cfg (ad_config a) p) w
        \<lparr>nc_adapter_name = ad_name a, nc_runtime_storage_dir = dir\<rparr>"
    define ns1 where "ns1 = ns0 @ (case ?nb of Some n \<Rightarrow> [n] | None \<Rightarrow> [])"
    have "(case ?nb of Some n \<Rightarrow> add_northbound n (fresh_engine xs0 ns0) | None \<Rightarrow> fresh_engine xs0 ns0) =
        fresh_engine xs0 ns1"
      by (simp add: ns1_def fresh_engine_add split: option.split)
    moreover obtain xs ns slots where "run_fold (build_adapter cfg w dir) (List.enumerate (Suc k) as)
        (fresh_engine xs0 ns1, slots0 @ [no_slot]) = Done (fresh_engine (xs0 @ xs) ns, (slots0 @ [no_slot]) @ slots)"
      "list_all2 (\<lambda>a s. slot_ok a (Suc (length (xs0 @ xs))) s) as slots"
      using Cons.IH [of "Suc k" xs0 ns1 "slots0 @ [no_slot]"] Cons.prems by auto
    ultimately show ?thesis
      using p(2) Northbound
      by (intro exI [of _ xs] exI [of _ ns] exI [of _ "no_slot # slots"])
        (simp add: build_adapter_def slot_ok_def is_northbound_def)
  qed
qed

text \<open>The devices, the scenes and the rules are entered one after the other.\<close>

lemma bind_defs:
  "list_all (\<lambda>d. dd_adapter d < length slots) ds \<Longrightarrow> run_fold (bind_def slots) ds e =
    Done (e\<lparr>e_routes := fold (\<lambda>d. hm_insert (dd_id d) (slots ! dd_adapter d)) ds (e_routes e)\<rparr>)"
  by (induction ds arbitrary: e) (simp_all add: bind_def_def bind_device_def)

lemma add_scenes:
  "fold (\<lambda>s. add_scene (cs_id s) (cs_commands s)) ss e =
    e\<lparr>e_scenes := fold (\<lambda>s. hm_insert (cs_id s) (cs_commands s)) ss (e_scenes e)\<rparr>"
  by (induction ss arbitrary: e) (simp_all add: add_scene_def)

lemma add_rules: "fold add_rule rs e = e\<lparr>e_rules := e_rules e @ rs\<rparr>"
  by (induction rs arbitrary: e) (simp_all add: add_rule_def)

lemma fold_insert_pairs:
  "fold (\<lambda>x. hm_insert (f x) (g x)) xs m = fold (\<lambda>(k, v). hm_insert k v) (map (\<lambda>x. (f x, g x)) xs) m"
  by (induction xs arbitrary: m) simp_all

lemma fold_insert_get:
  assumes "hm_wf m" and "distinct (map f xs)" and "x \<in> set xs"
  shows "hm_get (fold (\<lambda>x. hm_insert (f x) (g x)) xs m) (f x) = Some (g x)"
proof -
  let ?kvs = "map (\<lambda>x. (f x, g x)) xs"
  have "map_of (rev ?kvs) (f x) = Some (g x)"
    using assms(2,3) by (intro map_of_is_SomeI) (simp_all add: comp_def rev_map [symmetric])
  with hm.get_inserts [OF assms(1), of ?kvs] show ?thesis
    by (simp add: fold_insert_pairs map_add_Some_iff)
qed

lemma fold_insert_some:
  assumes "hm_wf m" and "x \<in> set xs"
  shows "hm_get (fold (\<lambda>x. hm_insert (f x) (g x)) xs m) (f x) \<noteq> None"
proof -
  let ?kvs = "map (\<lambda>x. (f x, g x)) xs"
  have "map_of (rev ?kvs) (f x) \<noteq> None"
    using assms(2) by (simp add: map_of_eq_None_iff image_image)
  then show ?thesis
    using hm.get_inserts [OF assms(1), of ?kvs] by (auto simp: fold_insert_pairs map_add_def split: option.split)
qed

lemma fold_insert_wf: "hm_wf m \<Longrightarrow> hm_wf (fold (\<lambda>x. hm_insert (f x) (g x)) xs m)"
  using hm.get_inserts [of m "map (\<lambda>x. (f x, g x)) xs"] by (simp add: fold_insert_pairs)

lemma fold_insert_values:
  "hm_wf m \<Longrightarrow> (\<forall>(k, v) \<in> set m. P v) \<Longrightarrow> \<forall>x \<in> set xs. P (g x) \<Longrightarrow>
    \<forall>(k, v) \<in> set (fold (\<lambda>x. hm_insert (f x) (g x)) xs m). P v"
proof (induction xs arbitrary: m)
  case (Cons x xs)
  have "\<forall>(k, v) \<in> set (hm_insert (f x) (g x) m). P v"
    using Cons.prems by (auto simp: set_hm_insert)
  then show ?case
    using Cons.IH [of "hm_insert (f x) (g x) m"] Cons.prems by simp
qed simp

section \<open>The built engine\<close>

text \<open>The engine the builder makes, from the adapters and the slots.\<close>

definition wire ::
  "('n, 'f, 'x, 'b, 'w) compiled_config \<Rightarrow> ('x, 'k) boxed list \<Rightarrow> 'b list \<Rightarrow> nat list \<Rightarrow> 'k \<Rightarrow>
   (('x, 'k) boxed, 'b) engine" where
  "wire cfg xs ns slots k =
     (fresh_engine (xs @ [Clocked k]) ns)
       \<lparr>e_routes := hm_insert (cc_clock_device cfg) (Suc (length xs))
          (fold (\<lambda>d. hm_insert (dd_id d) (slots ! dd_adapter d)) (cc_devices cfg) []),
        e_scenes := fold (\<lambda>s. hm_insert (cs_id s) (cs_commands s)) (cc_scenes cfg) [],
        e_rules := cc_rules cfg\<rparr>"

lemma build_wires:
  fixes L :: "('n, 'f, 'z, 'c) lib" and G :: "('f, 'z, 'o) geo"
    and cfg :: "('n, 'f, 'x, 'b, 'w) compiled_config"
  assumes cfg: "resolve L reg raw = Inr cfg" and ok: "raw_ok raw" and plugins: "plugins_build reg"
  shows "\<exists>(xs :: ('x, ('t, 'z, 'c, 'd, 'o) clock) boxed list) ns slots.
    build_engine_full L G cfg w boot dir = Done (wire cfg xs ns slots (clock_of L G boot cfg)) \<and>
    list_all2 (\<lambda>a s. slot_ok a (Suc (length xs)) s) (cc_adapters cfg) slots \<and>
    list_all (\<lambda>d. dd_adapter d < length (cc_adapters cfg)) (cc_devices cfg)"
proof -
  have "\<forall>a \<in> set (cc_adapters cfg). \<exists>p \<in> set reg. ad_plugin a = Some p"
    using resolved_plugins [OF cfg ok] by blast
  from build_adapters [OF this plugins, of cfg w "runtime_storage_dir (cc_system cfg) dir" 0 "[]" "[]" "[]"]
  obtain xs :: "('x, ('t, 'z, 'c, 'd, 'o) clock) boxed list" and ns slots
    where built: "run_fold (build_adapter cfg w (runtime_storage_dir (cc_system cfg) dir))
      (List.enumerate 0 (cc_adapters cfg)) (new_engine, []) = Done (fresh_engine xs ns, slots)"
    and slots: "list_all2 (\<lambda>a s. slot_ok a (Suc (length xs)) s) (cc_adapters cfg) slots"
    by (auto simp: fresh_engine_add(3))
  have dd: "list_all (\<lambda>d. dd_adapter d < length (cc_adapters cfg)) (cc_devices cfg)"
    by (rule resolved_bindings [OF cfg ok])
  then have "list_all (\<lambda>d. dd_adapter d < length slots) (cc_devices cfg)"
    using list_all2_lengthD [OF slots] by simp
  note bound = bind_defs [OF this, of "fresh_engine xs ns"]
  have "build_engine_full L G cfg w boot dir = Done (wire cfg xs ns slots (clock_of L G boot cfg))"
    using dd unfolding build_engine_full_def Let_def built run_bind.simps prod.case bound
    by (simp add: add_scenes add_rules wire_def add_adapter_def bind_device_def fresh_engine_def new_engine_def)
  with slots dd show ?thesis
    by blast
qed

lemma wire_sel [simp]:
  "e_rules (wire cfg xs ns slots k) = cc_rules cfg" "e_queue (wire cfg xs ns slots k) = []"
  "e_trace (wire cfg xs ns slots k) = []" "e_state (wire cfg xs ns slots k) = []"
  "e_pending_for (wire cfg xs ns slots k) = []" "e_retries (wire cfg xs ns slots k) = []"
  "e_adapters (wire cfg xs ns slots k) = Scheduler [] # map Device (xs @ [Clocked k])"
  "e_scenes (wire cfg xs ns slots k) = fold (\<lambda>s. hm_insert (cs_id s) (cs_commands s)) (cc_scenes cfg) []"
  "e_routes (wire cfg xs ns slots k) = hm_insert (cc_clock_device cfg) (Suc (length xs))
     (fold (\<lambda>d. hm_insert (dd_id d) (slots ! dd_adapter d)) (cc_devices cfg) [])"
  by (simp_all add: wire_def fresh_engine_def new_engine_def)

lemma wire_wf:
  assumes "list_all2 (\<lambda>a s. slot_ok a (Suc (length xs)) s) (cc_adapters cfg) slots"
    and "list_all (\<lambda>d. dd_adapter d < length (cc_adapters cfg)) (cc_devices cfg)" and "southbound_only cfg"
  shows "engine_wf (wire cfg xs ns slots k)"
proof -
  have slot: "slots ! dd_adapter d < Suc (length xs)" if "d \<in> set (cc_devices cfg)" for d
    using assms that by (auto simp: list_all2_conv_all_nth list_all_iff southbound_only_def slot_ok_def)
  let ?routes = "fold (\<lambda>d. hm_insert (dd_id d) (slots ! dd_adapter d)) (cc_devices cfg) []"
  have "hm_wf ?routes" and "\<forall>(d, i) \<in> set ?routes. i < Suc (length xs)"
    using slot by (intro fold_insert_wf fold_insert_values; simp)+
  then have "list_all (\<lambda>(_, i). i < Suc (Suc (length xs))) (e_routes (wire cfg xs ns slots k))"
    "hm_wf (e_routes (wire cfg xs ns slots k))"
    by (auto simp: list_all_iff set_hm_insert)
  moreover have "hm_wf (e_scenes (wire cfg xs ns slots k))"
    by (simp add: fold_insert_wf)
  moreover have "list_all is_device (map Device ys)" for ys :: "'z list"
    by (simp add: list_all_iff)
  ultimately show ?thesis
    unfolding engine_wf_def by (simp add: list_all_iff)
qed


definition utc_geo :: "(nat, unit, unit) geo" where
  "utc_geo = \<lparr>utc_zone = (), coordinates = (\<lambda>_ _. None)\<rparr>"

lemma home_southbound: "southbound_only home_cfg"
proof -
  have "cc_adapters home_cfg = [adapter_of home_plugins (''z'', \<lparr>ra_kind = ''virtual'', ra_config = VMapping []\<rparr>)]"
    using resolved(1) [OF home_compiles home_raw_ok] by (simp add: home_raw_def)
  then show ?thesis
    by (simp add: southbound_only_def home_cfg_sel home_devices_def adapter_of_def plugin_for_def
        home_plugins_def plugins_def mock_plugin_def mock_nb_plugin_def virtual_plugin_def default_plugin_def
        is_northbound_def)
qed

lemma home_plugins_build: "plugins_build home_plugins"
  by (simp add: plugins_build_def home_plugins_def plugins_def mock_plugin_def mock_nb_plugin_def
      virtual_plugin_def default_plugin_def)


section \<open>A binding the resolver lets through\<close>

text \<open>One device, bound to a northbound adapter.\<close>

definition misbound_raw :: "(nat, nat) raw_config" where
  "misbound_raw = home_raw
     \<lparr>rc_adapters := [(''z'', \<lparr>ra_kind = ''mock_northbound'', ra_config = VMapping []\<rparr>)],
      rc_devices := [(''lamp'', home_device [''switch''] [])],
      rc_scenes := [], rc_schedules := [], rc_rules := []\<rparr>"


end
