(* ===== verification/Json.thy ===== *)
theory Json
  imports Model
begin

text \<open>
  JSON as the adapters see it: \<open>serde_json::Value\<close> with the accessors the code calls, and the text
  form as a parameter. A float is a value of a type \<open>'f\<close> whose operations are a parameter too.
\<close>

section \<open>Values\<close>

text \<open>
  A number is a non-negative integer of 64 bits, a negative one, or a float; an object is ordered by
  its keys, as the library's map is.
\<close>

datatype 'f number = PosInt u64 | NegInt i64 | Float 'f

datatype 'f json =
    JNull
  | JBool bool
  | JNumber "'f number"
  | JString string
  | JArray "'f json list"
  | JObject "(string \<times> 'f json) list"

type_synonym 'f jmap = "(string \<times> 'f json) list"

type_synonym bytes = "char list"

fun obj_insert :: "string \<Rightarrow> 'v \<Rightarrow> (string \<times> 'v) list \<Rightarrow> (string \<times> 'v) list" where
  "obj_insert k v [] = [(k, v)]"
| "obj_insert k v ((k', v') # m) =
     (if k < k' then (k, v) # (k', v') # m
      else if k = k' then (k, v) # m
      else (k', v') # obj_insert k v m)"

text \<open>\<open>json!({ k: v, ... })\<close> and \<open>json!(n)\<close>.\<close>

definition object :: "(string \<times> 'f json) list \<Rightarrow> 'f json" where
  "object kvs = JObject (fold (\<lambda>(k, v). obj_insert k v) kvs [])"

definition json_uint :: "'a::len word \<Rightarrow> 'f json" where
  "json_uint n = JNumber (PosInt (ucast n))"

definition json_int :: "i64 \<Rightarrow> 'f json" where
  "json_int n = JNumber (if 0 \<le> n then PosInt (of_int n) else NegInt n)"

definition json_opt :: "('a \<Rightarrow> 'f json) \<Rightarrow> 'a option \<Rightarrow> 'f json" where
  "json_opt f x = (case x of Some v \<Rightarrow> f v | None \<Rightarrow> JNull)"

text \<open>\<open>Value::get(key)\<close>, and the views of a value as a scalar, an array or an object.\<close>

definition jget :: "string \<Rightarrow> 'f json \<Rightarrow> 'f json option" where
  "jget k v = (case v of JObject m \<Rightarrow> map_of m k | _ \<Rightarrow> None)"

definition jbool :: "'f json \<Rightarrow> bool option" where
  "jbool v = (case v of JBool b \<Rightarrow> Some b | _ \<Rightarrow> None)"

definition jstr :: "'f json \<Rightarrow> string option" where
  "jstr v = (case v of JString s \<Rightarrow> Some s | _ \<Rightarrow> None)"

definition ju64 :: "'f json \<Rightarrow> u64 option" where
  "ju64 v = (case v of JNumber (PosInt n) \<Rightarrow> Some n | _ \<Rightarrow> None)"

definition i64_max :: i64 where
  "i64_max = 9223372036854775807"

definition ji64 :: "'f json \<Rightarrow> i64 option" where
  "ji64 v =
     (case v of
        JNumber (PosInt n) \<Rightarrow> if uint n \<le> i64_max then Some (uint n) else None
      | JNumber (NegInt i) \<Rightarrow> Some i
      | _ \<Rightarrow> None)"

definition jarray :: "'f json \<Rightarrow> 'f json list option" where
  "jarray v = (case v of JArray vs \<Rightarrow> Some vs | _ \<Rightarrow> None)"

definition jobject :: "'f json \<Rightarrow> 'f jmap option" where
  "jobject v = (case v of JObject m \<Rightarrow> Some m | _ \<Rightarrow> None)"

text \<open>The chain \<open>v.get(key).and_then(view)\<close>.\<close>

definition field :: "string \<Rightarrow> ('f json \<Rightarrow> 'a option) \<Rightarrow> 'f json \<Rightarrow> 'a option" where
  "field k view v = Option.bind (jget k v) view"

section \<open>What a value of the library satisfies\<close>

fun json_ok :: "'f json \<Rightarrow> bool" where
  "json_ok (JNumber (NegInt i)) \<longleftrightarrow> - 9223372036854775808 \<le> i \<and> i < 0"
| "json_ok (JArray vs) \<longleftrightarrow> list_all json_ok vs"
| "json_ok (JObject m) \<longleftrightarrow>
     sorted_wrt (<) (map fst m) \<and> list_all (\<lambda>(_, v). json_ok v) m"
| "json_ok _ \<longleftrightarrow> True"

lemma obj_insert_get [simp]: "map_of (obj_insert k v m) = (map_of m)(k \<mapsto> v)"
  by (induction m) (auto simp: fun_eq_iff)

lemma obj_insert_keys [simp]: "set (map fst (obj_insert k v m)) = insert k (set (map fst m))"
  by (induction k v m rule: obj_insert.induct) (simp_all add: insert_commute)

lemma obj_insert_sorted:
  "sorted_wrt (<) (map fst m) \<Longrightarrow> sorted_wrt (<) (map fst (obj_insert k v m))"
proof (induction m)
  case (Cons e m)
  obtain k' v' where e: "e = (k', v')"
    by fastforce
  have keys: "x \<in> set (map fst (obj_insert k v m)) \<Longrightarrow> x = k \<or> x \<in> set (map fst m)" for x
    by (metis insertE obj_insert_keys)
  show ?case
    using Cons keys unfolding e by (force simp del: obj_insert_keys simp: not_less)
qed simp

lemma sorted_keys_eq:
  fixes m m' :: "('k::linorder \<times> 'v) list"
  assumes "sorted_wrt (<) (map fst m)" and "sorted_wrt (<) (map fst m')" and "map_of m = map_of m'"
  shows "m = m'"
proof -
  have keys: "map fst m = map fst m'"
    using assms by (metis dom_map_of_conv_image_fst list.set_map strict_sorted_equal)
  have dist: "distinct (map fst m)" "distinct (map fst m')"
    using assms strict_sorted_iff by blast+
  have "set m = set m'"
    using assms(3) dist map_of_inject_set by blast
  then show ?thesis
    using keys dist by (metis assms(3) map_fst_zip_take map_of_zip_inject zip_map_fst_snd length_map)
qed

end
