(* ===== verification/Rust_Text.thy ===== *)
theory Rust_Text
  imports Json
begin

text \<open>
  The string functions of the standard library the protocol adapters and the REST API call, beyond
  those of \<open>Rust_Strings\<close>, and floating-point arithmetic as a table of its operations.
\<close>

section \<open>Splitting and joining\<close>

text \<open>\<open>split(p)\<close> for a predicate on ASCII characters: one more piece than there are separators.\<close>

fun split_on :: "(char \<Rightarrow> bool) \<Rightarrow> string \<Rightarrow> string list" where
  "split_on p [] = [[]]"
| "split_on p (c # cs) =
     (if p c then [] # split_on p cs
      else (case split_on p cs of [] \<Rightarrow> [[c]] | w # ws \<Rightarrow> (c # w) # ws))"

fun join_with :: "string \<Rightarrow> string list \<Rightarrow> string" where
  "join_with sep [] = []"
| "join_with sep [w] = w"
| "join_with sep (w # ws) = w @ sep @ join_with sep ws"

definition rsplit_once :: "char \<Rightarrow> string \<Rightarrow> (string \<times> string) option" where
  "rsplit_once c s = map_option (\<lambda>(b, a). (rev a, rev b)) (split_once c (rev s))"

definition trim_end_of :: "char \<Rightarrow> string \<Rightarrow> string" where
  "trim_end_of c s = rev (dropWhile (\<lambda>x. x = c) (rev s))"

text \<open>
  Splitting at white space, which in UTF-8 may take several bytes: what is before the first one and
  what follows it, and the words between runs of it.
\<close>

fun split_once_white :: "string \<Rightarrow> (string \<times> string) option" where
  "split_once_white [] = None"
| "split_once_white (c # cs) =
     (case find (\<lambda>w. starts_with w (c # cs)) white_space of
        Some w \<Rightarrow> Some ([], drop (length w) (c # cs))
      | None \<Rightarrow> map_option (\<lambda>(a, b). (c # a, b)) (split_once_white cs))"

fun words_fuel :: "nat \<Rightarrow> string \<Rightarrow> string list" where
  "words_fuel 0 s = []"
| "words_fuel (Suc n) s =
     (let s = trim_start s in
      if s = [] then []
      else (case split_once_white s of None \<Rightarrow> [s] | Some (w, r) \<Rightarrow> w # words_fuel n r))"

definition split_whitespace :: "string \<Rightarrow> string list" where
  "split_whitespace s = words_fuel (Suc (length s)) s"

definition to_ascii_lower :: "char \<Rightarrow> char" where
  "to_ascii_lower c = (let n = (of_char c :: nat) in if 65 \<le> n \<and> n \<le> 90 then char_of (n + 32) else c)"

definition eq_ignore_ascii_case :: "string \<Rightarrow> string \<Rightarrow> bool" where
  "eq_ignore_ascii_case a b \<longleftrightarrow> map to_ascii_lower a = map to_ascii_lower b"

lemma split_on_nonempty [simp]: "split_on p s \<noteq> []"
  by (induction s) (auto split: list.splits)

lemma split_on_none: "\<not> list_ex p s \<Longrightarrow> split_on p s = [s]"
  by (induction s) auto

lemma split_on_append: "\<not> list_ex p a \<Longrightarrow> p c \<Longrightarrow> split_on p (a @ c # b) = a # split_on p b"
  by (induction a) auto

lemma rsplit_once_append: "c \<notin> set b \<Longrightarrow> rsplit_once c (a @ c # b) = Some (a, b)"
  using split_once_append [of c "rev b" "rev a"] by (simp add: rsplit_once_def)

text \<open>A word boundary is found where the white space begins, and the pieces are what is around it.\<close>

lemma split_once_white_Some:
  "split_once_white s = Some (a, b) \<Longrightarrow> \<exists>w. w \<in> set white_space \<and> s = a @ w @ b"
proof (induction s arbitrary: a)
  case (Cons c cs)
  show ?case
  proof (cases "find (\<lambda>w. starts_with w (c # cs)) white_space")
    case None
    with Cons show ?thesis
      by auto
  next
    case (Some w)
    with Cons.prems have "w \<in> set white_space" "starts_with w (c # cs)" "a = []"
      "b = drop (length w) (c # cs)"
      by (auto simp: find_Some_iff)
    then show ?thesis
      by (auto simp: starts_with_iff)
  qed
qed simp

section \<open>Floating-point numbers\<close>

text \<open>
  \<open>f32\<close> or \<open>f64\<close> is a type \<open>'f\<close> with the operations the code performs on it, in the order it performs
  them; the rounding of each is the table's. \<open>fl_cast lo hi\<close> is the cast \<open>as\<close> to an integer type with
  these bounds, which truncates and saturates; \<open>fl_round\<close> rounds half away from zero.
\<close>

record 'f floats =
  fl_of :: "int \<Rightarrow> 'f"
  fl_add :: "'f \<Rightarrow> 'f \<Rightarrow> 'f"
  fl_sub :: "'f \<Rightarrow> 'f \<Rightarrow> 'f"
  fl_mul :: "'f \<Rightarrow> 'f \<Rightarrow> 'f"
  fl_div :: "'f \<Rightarrow> 'f \<Rightarrow> 'f"
  fl_rem :: "'f \<Rightarrow> 'f \<Rightarrow> 'f"
  fl_abs :: "'f \<Rightarrow> 'f"
  fl_round :: "'f \<Rightarrow> 'f"
  fl_less :: "'f \<Rightarrow> 'f \<Rightarrow> bool"
  fl_eq :: "'f \<Rightarrow> 'f \<Rightarrow> bool"
  fl_max :: "'f \<Rightarrow> 'f \<Rightarrow> 'f"
  fl_min :: "'f \<Rightarrow> 'f \<Rightarrow> 'f"
  fl_cast :: "int \<Rightarrow> int \<Rightarrow> 'f \<Rightarrow> int"

definition fl_clamp :: "'f floats \<Rightarrow> 'f \<Rightarrow> 'f \<Rightarrow> 'f \<Rightarrow> 'f" where
  "fl_clamp F lo hi x =
     (let x = (if fl_less F x lo then lo else x) in if fl_less F hi x then hi else x)"

text \<open>The number a JSON number stands for as a float (\<open>Value::as_f64\<close>).\<close>

definition jf64 :: "'f floats \<Rightarrow> 'f json \<Rightarrow> 'f option" where
  "jf64 F v =
     (case v of
        JNumber (PosInt n) \<Rightarrow> Some (fl_of F (uint n))
      | JNumber (NegInt i) \<Rightarrow> Some (fl_of F i)
      | JNumber (Float x) \<Rightarrow> Some x
      | _ \<Rightarrow> None)"

text \<open>
  Exact arithmetic on quarters: an instance of the table in which the concrete examples are
  evaluated. A value \<open>n\<close> stands for \<open>n / 4\<close>.
\<close>

definition quarter_floats :: "int floats" where
  "quarter_floats =
     \<lparr>fl_of = (\<lambda>n. 4 * n), fl_add = (+), fl_sub = (-), fl_mul = (\<lambda>a b. a * b div 4),
      fl_div = (\<lambda>a b. if b = 0 then 0 else 4 * a div b), fl_rem = (\<lambda>a b. if b = 0 then 0 else a mod b),
      fl_abs = abs, fl_round = (\<lambda>a. if 0 \<le> a then 4 * ((a + 2) div 4) else - (4 * ((2 - a) div 4))),
      fl_less = (<), fl_eq = (=), fl_max = max, fl_min = min,
      fl_cast = (\<lambda>lo hi a. clamp lo hi (if 0 \<le> a then a div 4 else - (- a div 4)))\<rparr>"

section \<open>The text of JSON\<close>

text \<open>\<open>serde_json\<close>'s writer and reader of documents, as bytes or as a string.\<close>

record 'f json_text =
  sj_write :: "'f json \<Rightarrow> bytes option"
  sj_read :: "bytes \<Rightarrow> string + 'f json"
  sj_display :: "'f json \<Rightarrow> string"

end
