(* ===== verification/Actions.thy ===== *)
theory Actions
  imports Rust_Text Resolve
begin

text \<open>
  What the protocol adapters share: the table from a device's raw event strings to its declared
  events, and the state a command asks for.
\<close>

section \<open>Declared actions\<close>

text \<open>For each device, the raw string of the protocol and the interned event it is declared as.\<close>

type_synonym action_map = "(device_id, (string, action_id) hashmap) hashmap"

definition declare_action :: "device_id \<times> string \<times> action_id \<Rightarrow> action_map \<Rightarrow> action_map" where
  "declare_action = (\<lambda>(d, raw, a) m.
     hm_insert d (hm_insert raw a (case hm_get m d of Some r \<Rightarrow> r | None \<Rightarrow> [])) m)"

definition index_events :: "(device_id \<times> string \<times> action_id) list \<Rightarrow> action_map" where
  "index_events evs = fold declare_action evs []"

definition declared_action :: "action_map \<Rightarrow> device_id \<Rightarrow> string \<Rightarrow> action_id option" where
  "declared_action actions d raw = Option.bind (hm_get actions d) (\<lambda>m. hm_get m raw)"

definition device_events_of :: "device_def list \<Rightarrow> (device_id \<times> string \<times> action_id) list" where
  "device_events_of ds = concat (map (\<lambda>d. map (\<lambda>e. (dd_id d, ev_raw e, ev_id e)) (dd_events d)) ds)"

lemma declared_declare [simp]:
  "declared_action (declare_action (d, raw, a) m) d' raw' =
     (if d' = d \<and> raw' = raw then Some a else declared_action m d' raw')"
  by (auto simp: declared_action_def declare_action_def split: option.split)

lemma declared_nil [simp]: "declared_action [] d raw = None"
  by (simp add: declared_action_def)

lemma declared_index_events:
  "declared_action (index_events evs) d raw = Some a \<Longrightarrow> (d, raw, a) \<in> set evs"
proof -
  have "declared_action (fold declare_action evs m) d raw = Some a \<Longrightarrow>
      (d, raw, a) \<in> set evs \<or> declared_action m d raw = Some a" for m
  proof (induction evs arbitrary: m)
    case (Cons ev evs)
    obtain d' raw' a' where "ev = (d', raw', a')"
      by (cases ev)
    with Cons.IH [of "declare_action ev m"] Cons.prems show ?case
      by (auto split: if_splits)
  qed simp
  from this [of "[]"] show "declared_action (index_events evs) d raw = Some a \<Longrightarrow> (d, raw, a) \<in> set evs"
    by (simp add: index_events_def)
qed

section \<open>The state a command asks for\<close>

text \<open>The states a command asks for are those a virtual device reports for it.\<close>

definition asks_for :: "command \<Rightarrow> capability_state \<Rightarrow> bool" where
  "asks_for cmd s \<longleftrightarrow> (\<exists>d. virtual_dispatch cmd 0 = Ok [StateReported d s])"

definition in_percent :: "capability_state \<Rightarrow> bool" where
  "in_percent s \<longleftrightarrow> (case s of Brightness v \<Rightarrow> v \<le> 100 | _ \<Rightarrow> True)"

section \<open>Reading what was built\<close>

lemma field_object: "field k view (JObject m) = Option.bind (map_of m k) view"
  by (simp add: field_def jget_def)

lemma jget_object: "jget k (JObject m) = map_of m k"
  by (simp add: jget_def)

lemma jget_json: "jget k (object kvs) = map_of (rev kvs) k"
proof -
  have "map_of (fold (\<lambda>(k, v). obj_insert k v) kvs m) = map_of m ++ map_of (rev kvs)" for m
    by (induction kvs arbitrary: m) (auto simp: map_add_def fun_eq_iff split: option.splits)
  then show ?thesis
    by (simp add: object_def jget_def)
qed

lemma ju64_uint [simp]: "ju64 (json_uint n) = Some (ucast n)"
  by (simp add: ju64_def json_uint_def)

lemma unat_ucast_up: "LENGTH('a) \<le> LENGTH('b) \<Longrightarrow> unat (ucast w :: 'b::len word) = unat w"
  for w :: "'a::len word"
  by (simp add: unat_ucast_mod)
    (meson le_less_trans less_le_trans mod_less power_increasing unat_less_pow one_le_numeral)

lemma ucast_back: "LENGTH('a) \<le> LENGTH('b) \<Longrightarrow> ucast (ucast w :: 'b::len word) = w"
  for w :: "'a::len word"
  by (simp add: word_unat_eq_iff unat_ucast_mod [of "ucast w :: 'b word"] unat_ucast_up unat_less_pow)

lemma ucast_u8_le: "(ucast (v :: u8) :: u64) \<le> 255"
  using unat_less_pow [of v] by (simp add: word_le_nat_alt unat_ucast_up)

lemma ucast_u16_min: "ucast (min (ucast (m :: u16) :: u64) 65535) = m"
proof -
  have "(ucast m :: u64) \<le> 65535"
    using unat_less_pow [of m] by (simp add: word_le_nat_alt unat_ucast_up)
  then have "min (ucast m :: u64) 65535 = ucast m"
    by simp
  then show ?thesis
    by (simp add: ucast_back)
qed

lemma level_of_pct: "v \<le> 100 \<Longrightarrow> level_to_pct (pct_to_level v) = v"
  using pct_level_roundtrip [of v] by (simp add: word_le_nat_alt word_unat_eq_iff)

end
