(* ===== verification/Zigbee.thy ===== *)
theory Zigbee
  imports Actions
begin

text \<open>
  The zigbee2mqtt adapter (\<open>adapters/zigbee2mqtt.rs\<close>): commands become JSON published on
  \<open>base/name/set\<close>, and what is published on \<open>base/name\<close> becomes reports and actions of the devices
  bound to that name. The MQTT client is a parameter.
\<close>

section \<open>Messages and the transport\<close>

record mqtt_message =
  mm_topic :: string
  mm_payload :: bytes

record 't mqtt_transport =
  mq_publish :: "'t \<Rightarrow> string \<Rightarrow> bytes \<Rightarrow> 't \<times> (string + unit)"
  mq_poll :: "'t \<Rightarrow> 't \<times> mqtt_message list"

type_synonym load_channel = "u16 option"

record device_target =
  dt_friendly :: string
  dt_channel :: load_channel

definition normalize_channel :: "u16 option \<Rightarrow> load_channel" where
  "normalize_channel e = (case e of None \<Rightarrow> None | Some n \<Rightarrow> if n = 0 then None else Some n)"

definition switch_field :: "load_channel \<Rightarrow> string" where
  "switch_field ch = (case ch of None \<Rightarrow> ''state'' | Some n \<Rightarrow> ''state_l'' @ decimal (unat n))"

definition read_attr :: "capability_kind \<Rightarrow> load_channel \<Rightarrow> string option" where
  "read_attr cap ch =
     (case cap of
        KSwitch \<Rightarrow> Some (switch_field ch)
      | KBrightness \<Rightarrow> if ch = None then Some ''brightness'' else None
      | KColor \<Rightarrow> if ch = None then Some ''color'' else None
      | KColorTemperature \<Rightarrow> if ch = None then Some ''color_temp'' else None
      | KPower \<Rightarrow> if ch = None then Some ''power'' else None
      | _ \<Rightarrow> None)"

section \<open>Commands out\<close>

definition set_transition :: "'f floats \<Rightarrow> millis option \<Rightarrow> 'f jmap \<Rightarrow> 'f jmap" where
  "set_transition F tr body =
     (case tr of
        Some ms \<Rightarrow>
          obj_insert ''transition'' (JNumber (Float (fl_div F (fl_of F (uint ms)) (fl_of F 1000)))) body
      | None \<Rightarrow> body)"

definition rgb_json :: "u8 \<Rightarrow> u8 \<Rightarrow> u8 \<Rightarrow> 'f json" where
  "rgb_json r g b = object [(''r'', json_uint r), (''g'', json_uint g), (''b'', json_uint b)]"

text \<open>The body of a \<open>set\<close>; \<open>None\<close> for a command the device or its load cannot express.\<close>

fun set_body :: "'f floats \<Rightarrow> load_channel \<Rightarrow> command \<Rightarrow> 'f jmap option" where
  "set_body F ch (SetSwitch _ on) = Some [(switch_field ch, JString (if on then ''ON'' else ''OFF''))]"
| "set_body F ch (SetBrightness _ v tr) =
     (if ch \<noteq> None then None
      else Some (set_transition F tr [(''brightness'', json_uint (pct_to_level v))]))"
| "set_body F ch (ToggleSwitch _) = Some [(switch_field ch, JString ''TOGGLE'')]"
| "set_body F ch (SetColor _ r g b tr) =
     (if ch \<noteq> None then None else Some (set_transition F tr [(''color'', rgb_json r g b)]))"
| "set_body F ch (SetColorTemperature _ m tr) =
     (if ch \<noteq> None then None else Some (set_transition F tr [(''color_temp'', json_uint m)]))"
| "set_body F ch (SendIrCode _ code) = Some [(''ir_code_to_send'', JString code)]"
| "set_body F ch _ = None"

definition command_to_publish ::
  "'f floats \<Rightarrow> 'f json_text \<Rightarrow> string \<Rightarrow> string \<Rightarrow> load_channel \<Rightarrow> command \<Rightarrow> (string \<times> bytes) option" where
  "command_to_publish F J base friendly ch cmd =
     (case set_body F ch cmd of
        None \<Rightarrow> None
      | Some body \<Rightarrow>
          (let topic = base @ ''/'' @ friendly @ ''/set''
           in map_option (\<lambda>p. (topic, p)) (sj_write J (JObject body))))"

section \<open>Reports in\<close>

definition parse_z2m_color :: "'f json \<Rightarrow> (u8 \<times> u8 \<times> u8) option" where
  "parse_z2m_color c =
     (let by_hex =
            Option.bind (case field ''hex'' jstr c of Some h \<Rightarrow> Some h | None \<Rightarrow> jstr c) hex_to_rgb
      in case (field ''r'' ju64 c, field ''g'' ju64 c, field ''b'' ju64 c) of
           (Some r, Some g, Some b) \<Rightarrow>
             if r \<le> 255 \<and> g \<le> 255 \<and> b \<le> 255 then Some (ucast r, ucast g, ucast b) else by_hex
         | _ \<Rightarrow> by_hex)"

text \<open>One optional reading of the payload, reported when it is there.\<close>

definition reading :: "device_id \<Rightarrow> ('a \<Rightarrow> capability_state) \<Rightarrow> 'a option \<Rightarrow> event list" where
  "reading d st x = (case x of Some v \<Rightarrow> [StateReported d (st v)] | None \<Rightarrow> [])"

definition centi_celsius :: "'f floats \<Rightarrow> 'f \<Rightarrow> i16" where
  "centi_celsius F c =
     of_int (fl_cast F (- 32768) 32767
       (fl_clamp F (fl_of F (- 32768)) (fl_of F 32767) (fl_round F (fl_mul F c (fl_of F 100)))))"

definition humidity_pct :: "'f floats \<Rightarrow> 'f \<Rightarrow> u8" where
  "humidity_pct F h = of_int (fl_cast F 0 255 (fl_clamp F (fl_of F 0) (fl_of F 100) (fl_round F h)))"

definition watts :: "'f floats \<Rightarrow> 'f \<Rightarrow> u32" where
  "watts F p =
     of_int (fl_cast F 0 4294967295 (fl_min F (fl_max F (fl_round F p) (fl_of F 0)) (fl_of F 4294967295)))"

definition root_readings :: "'f floats \<Rightarrow> device_id \<Rightarrow> 'f json \<Rightarrow> event list" where
  "root_readings F d j =
     reading d (\<lambda>b. Brightness (level_to_pct b)) (field ''brightness'' ju64 j) @
     reading d (\<lambda>(r, g, b). Color r g b) (field ''color'' parse_z2m_color j) @
     reading d (\<lambda>ct. ColorTemperature (ucast (min ct 65535))) (field ''color_temp'' ju64 j) @
     reading d Occupancy (field ''occupancy'' jbool j) @
     reading d (\<lambda>bat. Battery (ucast (min bat 100))) (field ''battery'' ju64 j) @
     reading d (\<lambda>c. Temperature (centi_celsius F c)) (field ''temperature'' (jf64 F) j) @
     reading d (\<lambda>h. Humidity (humidity_pct F h)) (field ''humidity'' (jf64 F) j) @
     reading d (\<lambda>lux. Illuminance (ucast (min lux 4294967295)))
       (Option.bind (case jget ''illuminance_lux'' j of Some v \<Rightarrow> Some v | None \<Rightarrow> jget ''illuminance'' j) ju64) @
     reading d (\<lambda>p. Power (watts F p)) (field ''power'' (jf64 F) j) @
     reading d (\<lambda>closed. Contact (\<not> closed)) (field ''contact'' jbool j) @
     reading d WaterLeak (field ''water_leak'' jbool j) @
     reading d Smoke (field ''smoke'' jbool j)"

definition json_to_device_events ::
  "'f floats \<Rightarrow> device_id \<Rightarrow> load_channel \<Rightarrow> action_map \<Rightarrow> 'f json \<Rightarrow> event list" where
  "json_to_device_events F d ch actions j =
     reading d (\<lambda>s. Switch (eq_ignore_ascii_case s ''ON'')) (field (switch_field ch) jstr j) @
     (if ch = None then root_readings F d j else []) @
     (case Option.bind (field ''action'' jstr j) (declared_action actions d) of
        Some a \<Rightarrow> [Action d a] | None \<Rightarrow> [])"

definition message_to_events ::
  "'f floats \<Rightarrow> 'f json_text \<Rightarrow> string \<Rightarrow> (string, device_id list) hashmap \<Rightarrow>
   (device_id, load_channel) hashmap \<Rightarrow> action_map \<Rightarrow> mqtt_message \<Rightarrow> event list" where
  "message_to_events F J base by_name channels actions msg =
     (case strip_prefix (base @ ''/'') (mm_topic msg) of
        None \<Rightarrow> []
      | Some friendly \<Rightarrow>
          if CHR ''/'' \<in> set friendly then []
          else (case hm_get by_name friendly of
             None \<Rightarrow> []
           | Some ds \<Rightarrow>
               (case sj_read J (mm_payload msg) of
                  Inl _ \<Rightarrow> []
                | Inr j \<Rightarrow>
                    concat (map (\<lambda>d. json_to_device_events F d
                      (case hm_get channels d of Some ch \<Rightarrow> ch | None \<Rightarrow> None) actions j) ds))))"

section \<open>The adapter\<close>

record 't z2m =
  z_base_topic :: string
  z_by_id :: "(device_id, device_target) hashmap"
  z_by_name :: "(string, device_id list) hashmap"
  z_actions :: action_map
  z_transport :: 't
  z_prime_requests :: "(string \<times> bytes) list"
  z_primed :: bool

definition index_names :: "(device_id \<times> string \<times> u16 option) list \<Rightarrow> (string, device_id list) hashmap" where
  "index_names devices =
     fold (\<lambda>(d, name, _) m. hm_insert name ((case hm_get m name of Some ds \<Rightarrow> ds | None \<Rightarrow> []) @ [d]) m)
       devices []"

definition index_targets ::
  "(device_id \<times> string \<times> u16 option) list \<Rightarrow> (device_id, device_target) hashmap" where
  "index_targets devices =
     fold (\<lambda>(d, name, e). hm_insert d \<lparr>dt_friendly = name, dt_channel = normalize_channel e\<rparr>) devices []"

text \<open>One merged \<open>get\<close> for each topic: its body asks for every attribute of the devices on it.\<close>

definition prime_step ::
  "string \<Rightarrow> (device_id, device_target) hashmap \<Rightarrow> device_id \<times> capability_kind list \<Rightarrow>
   (string, 'f jmap) hashmap \<Rightarrow> (string, 'f jmap) hashmap" where
  "prime_step base by_id = (\<lambda>(d, ks) m.
     case hm_get by_id d of
       None \<Rightarrow> m
     | Some t \<Rightarrow>
         (let attrs = List.map_filter (\<lambda>k. read_attr k (dt_channel t)) ks;
              topic = base @ ''/'' @ dt_friendly t @ ''/get'';
              body = (case hm_get m topic of Some b \<Rightarrow> b | None \<Rightarrow> [])
          in if attrs = [] then m
             else hm_insert topic (fold (\<lambda>a. obj_insert a (JString '''')) attrs body) m))"

definition prime_bodies ::
  "string \<Rightarrow> (device_id, device_target) hashmap \<Rightarrow> (device_id \<times> capability_kind list) list \<Rightarrow>
   (string, 'f jmap) hashmap" where
  "prime_bodies base by_id caps = fold (prime_step base by_id) caps []"

definition new_z2m ::
  "'f json_text \<Rightarrow> string \<Rightarrow> (device_id \<times> string \<times> u16 option) list \<Rightarrow>
   (device_id \<times> string \<times> action_id) list \<Rightarrow> (device_id \<times> capability_kind list) list \<Rightarrow> 't \<Rightarrow> 't z2m" where
  "new_z2m J base devices evs caps t =
     (let by_id = index_targets devices
      in \<lparr>z_base_topic = base, z_by_id = by_id, z_by_name = index_names devices,
          z_actions = index_events evs, z_transport = t,
          z_prime_requests =
            List.map_filter (\<lambda>(topic, body). map_option (\<lambda>p. (topic, p)) (sj_write J (JObject body)))
              (prime_bodies base by_id caps),
          z_primed = False\<rparr>)"

definition device_channels :: "'t z2m \<Rightarrow> (device_id, load_channel) hashmap" where
  "device_channels a = map (\<lambda>(d, t). (d, dt_channel t)) (z_by_id a)"

definition z2m_dispatch ::
  "'f floats \<Rightarrow> 'f json_text \<Rightarrow> 't mqtt_transport \<Rightarrow> 't z2m \<Rightarrow> command \<Rightarrow> millis \<Rightarrow> 't z2m \<times> outcome" where
  "z2m_dispatch F J M a cmd now =
     (case target_device cmd of
        None \<Rightarrow> (a, Permanent ''command has no target device'')
      | Some d \<Rightarrow>
          (case hm_get (z_by_id a) d of
             None \<Rightarrow> (a, Permanent ''device is not managed by this adapter'')
           | Some t \<Rightarrow>
               (case command_to_publish F J (z_base_topic a) (dt_friendly t) (dt_channel t) cmd of
                  None \<Rightarrow> (a, Permanent ''command unsupported by zigbee2mqtt'')
                | Some (topic, p) \<Rightarrow>
                    (case mq_publish M (z_transport a) topic p of
                       (tr, Inr _) \<Rightarrow> (a\<lparr>z_transport := tr\<rparr>, outcome_ok)
                     | (tr, Inl e) \<Rightarrow> (a\<lparr>z_transport := tr\<rparr>, Transient e)))))"

definition prime :: "'t mqtt_transport \<Rightarrow> 't z2m \<Rightarrow> 't z2m" where
  "prime M a =
     (if z_primed a then a
      else a\<lparr>z_primed := True,
             z_transport := fold (\<lambda>(topic, p) tr. fst (mq_publish M tr topic p)) (z_prime_requests a) (z_transport a)\<rparr>)"

definition z2m_tick ::
  "'f floats \<Rightarrow> 'f json_text \<Rightarrow> 't mqtt_transport \<Rightarrow> 't z2m \<Rightarrow> millis \<Rightarrow> 't z2m \<times> event list" where
  "z2m_tick F J M a now =
     (let a = prime M a;
          (tr, msgs) = mq_poll M (z_transport a)
      in (a\<lparr>z_transport := tr\<rparr>,
          concat (map (message_to_events F J (z_base_topic a) (z_by_name a) (device_channels a) (z_actions a)) msgs)))"

definition z2m_ops :: "'f floats \<Rightarrow> 'f json_text \<Rightarrow> 't mqtt_transport \<Rightarrow> 't z2m adapter_ops" where
  "z2m_ops F J M =
     \<lparr>op_dispatch = z2m_dispatch F J M, op_tick = z2m_tick F J M, op_next_wake = default_next_wake\<rparr>"

section \<open>The connection thread\<close>

text \<open>
  What the background thread does with one event of the client library: an incoming message is
  queued and the host is woken; an error is logged when it differs from the last one and then at
  every twelfth repetition, and the thread sleeps before it goes on. \<open>repeat\<close> is a \<open>u32\<close>.
\<close>

datatype mqtt_event = Incoming mqtt_message | Otherwise | Failure string

datatype conn_effect =
  Send mqtt_message | Wake | LogError string | LogStill u32 | SleepReconnect

record conn_state =
  last_err :: "string option"
  repeat_count :: u32

definition conn_init :: conn_state where
  "conn_init = \<lparr>last_err = None, repeat_count = 0\<rparr>"

definition conn_step :: "bool \<Rightarrow> conn_state \<Rightarrow> mqtt_event \<Rightarrow> conn_state \<times> conn_effect list" where
  "conn_step has_waker st ev =
     (case ev of
        Incoming m \<Rightarrow> (conn_init, Send m # (if has_waker then [Wake] else []))
      | Otherwise \<Rightarrow> (conn_init, [])
      | Failure e \<Rightarrow>
          (if last_err st \<noteq> Some e
           then (\<lparr>last_err = Some e, repeat_count = 0\<rparr>, [LogError e, SleepReconnect])
           else (let r = repeat_count st + 1
                 in (st\<lparr>repeat_count := r\<rparr>, (if 12 dvd unat r then [LogStill r] else []) @ [SleepReconnect]))))"

fun conn_run :: "bool \<Rightarrow> conn_state \<Rightarrow> mqtt_event list \<Rightarrow> conn_effect list" where
  "conn_run w st [] = []"
| "conn_run w st (ev # evs) = (case conn_step w st ev of (st, effs) \<Rightarrow> effs @ conn_run w st evs)"

section \<open>Registration\<close>

record z2m_config =
  zc_url :: string
  zc_base_topic :: string

definition default_base_topic :: string where
  "default_base_topic = ''zigbee2mqtt''"

definition parse_mqtt_url :: "string \<Rightarrow> (string \<times> nat) option" where
  "parse_mqtt_url url =
     (let rest = trim_end_of CHR ''/''
            (case strip_prefix ''mqtt://'' url of
               Some r \<Rightarrow> r
             | None \<Rightarrow> (case strip_prefix ''tcp://'' url of Some r \<Rightarrow> r | None \<Rightarrow> url))
      in case (case rsplit_once CHR '':'' rest of
                 Some (host, port) \<Rightarrow> map_option (\<lambda>p. (host, p)) (parse_uint 65536 port)
               | None \<Rightarrow> Some (rest, 1883)) of
           None \<Rightarrow> None
         | Some (host, port) \<Rightarrow> if host = [] then None else Some (host, port))"

definition z2m_validate_config ::
  "('n yaml \<Rightarrow> string + z2m_config) \<Rightarrow> 'n yaml \<Rightarrow> string \<Rightarrow> diagnostic list" where
  "z2m_validate_config de config at =
     (case config_of de config at of
        (None, diags) \<Rightarrow> diags
      | (Some cfg, diags) \<Rightarrow>
          if parse_mqtt_url (zc_url cfg) = None
          then diags @ [diag_at at (diag_error ''E_BAD_URL'' (''invalid broker url '' @ quoted (zc_url cfg)))]
          else diags)"

definition z2m_validate_device :: "'n yaml \<Rightarrow> device_def \<Rightarrow> string \<Rightarrow> diagnostic list" where
  "z2m_validate_device config d at =
     (if dd_address d = None
      then [diag_at at (diag_error ''E_MISSING_ADDRESS''
              ''zigbee2mqtt devices need an `address` (the z2m friendly_name)'')]
      else [])"

definition z2m_targets :: "device_def list \<Rightarrow> (device_id \<times> string \<times> u16 option) list" where
  "z2m_targets ds =
     map (\<lambda>d. (dd_id d, (case dd_address d of Some a \<Rightarrow> a | None \<Rightarrow> dd_name d), dd_endpoint d)) ds"

text \<open>\<open>connect\<close> is \<open>RumqttcTransport::connect\<close>: a host, a port and the topics to subscribe to.\<close>

definition z2m_build ::
  "'f json_text \<Rightarrow> ('n yaml \<Rightarrow> string + z2m_config) \<Rightarrow>
   (string \<Rightarrow> nat \<Rightarrow> string list \<Rightarrow> 'w option \<Rightarrow> 't) \<Rightarrow> 'n yaml \<Rightarrow> device_def list \<Rightarrow> 'w option \<Rightarrow>
   't z2m option" where
  "z2m_build J de connect config ds waker =
     (let cfg = (case de config of
                   Inr c \<Rightarrow> c
                 | Inl _ \<Rightarrow> \<lparr>zc_url = '''', zc_base_topic = default_base_topic\<rparr>);
          (host, port) = (case parse_mqtt_url (zc_url cfg) of Some hp \<Rightarrow> hp | None \<Rightarrow> ([], 0));
          reg = z2m_targets ds;
          topics = remdups (map (\<lambda>(_, friendly, _). zc_base_topic cfg @ ''/'' @ friendly) reg)
      in Some (new_z2m J (zc_base_topic cfg) reg (device_events_of ds)
           (map (\<lambda>d. (dd_id d, dd_capabilities d)) ds) (connect host port topics waker)))"

definition z2m_plugin ::
  "'f json_text \<Rightarrow> ('n yaml \<Rightarrow> string + z2m_config) \<Rightarrow>
   (string \<Rightarrow> nat \<Rightarrow> string list \<Rightarrow> 'w option \<Rightarrow> 't) \<Rightarrow> ('n, 't z2m, 'b, 'w) plugin" where
  "z2m_plugin J de connect =
     (default_plugin ''zigbee2mqtt'')
       \<lparr>validate_config := z2m_validate_config de, validate_device := z2m_validate_device,
        build := z2m_build J de connect\<rparr>"

end
