(* ===== verification/Zigbee_Props.thy ===== *)
theory Zigbee_Props
  imports Zigbee Timers
begin

text \<open>
  What the zigbee2mqtt adapter promises: a published command is read back as the state it asks for,
  by the devices on the same load and by no other; reports and actions are only those of the devices
  bound to the topic; and the priming requests ask for every readable capability.
\<close>

section \<open>Keys and readings\<close>

lemma switch_field_inject [simp]: "switch_field a = switch_field b \<longleftrightarrow> a = b"
  by (cases a; cases b) (auto simp: switch_field_def word_unat_eq_iff)

lemma switch_field_other:
  "switch_field ch \<noteq> ''brightness''" "switch_field ch \<noteq> ''color''" "switch_field ch \<noteq> ''color_temp''"
  "switch_field ch \<noteq> ''occupancy''" "switch_field ch \<noteq> ''battery''" "switch_field ch \<noteq> ''temperature''"
  "switch_field ch \<noteq> ''humidity''" "switch_field ch \<noteq> ''illuminance_lux''" "switch_field ch \<noteq> ''illuminance''"
  "switch_field ch \<noteq> ''power''" "switch_field ch \<noteq> ''contact''" "switch_field ch \<noteq> ''water_leak''"
  "switch_field ch \<noteq> ''smoke''" "switch_field ch \<noteq> ''action''" "switch_field ch \<noteq> ''transition''"
  by (cases ch; simp add: switch_field_def)+

lemmas switch_field_distinct = switch_field_other switch_field_other [symmetric]

lemma set_transition_get:
  "k \<noteq> ''transition'' \<Longrightarrow> map_of (set_transition F tr m) k = map_of m k"
  by (simp add: set_transition_def split: option.split)

lemma reading_None [simp]: "reading d st None = []"
  by (simp add: reading_def)

lemma reading_Some [simp]: "reading d st (Some v) = [StateReported d (st v)]"
  by (simp add: reading_def)

lemma parse_rgb_json [simp]: "parse_z2m_color (rgb_json r g b) = Some (r, g, b)"
  by (simp add: parse_z2m_color_def field_def rgb_json_def jget_json ucast_u8_le ucast_back)

section \<open>A published command is read back as the state it asks for\<close>

lemma set_body_read:
  assumes "set_body F ch cmd = Some body" and "asks_for cmd s" and "in_percent s"
  shows "json_to_device_events F d ch' acts (JObject body) = (if ch' = ch then [StateReported d s] else [])"
proof (cases cmd)
  case (SetSwitch d0 on)
  then have "s = Switch on" "body = [(switch_field ch, JString (if on then ''ON'' else ''OFF''))]"
    using assms by (auto simp: asks_for_def)
  moreover have "eq_ignore_ascii_case (if on then ''ON'' else ''OFF'') ''ON'' = on"
    by (simp add: eq_ignore_ascii_case_def to_ascii_lower_def Let_def)
  ultimately show ?thesis
    by (simp add: json_to_device_events_def root_readings_def field_object jget_object
        switch_field_distinct jstr_def)
next
  case (SetBrightness d0 v tr)
  then have "s = Brightness v" "ch = None" "v \<le> 100"
    "body = set_transition F tr [(''brightness'', json_uint (pct_to_level v))]"
    using assms by (auto simp: asks_for_def in_percent_def split: if_splits)
  then show ?thesis
    by (simp add: json_to_device_events_def root_readings_def field_object jget_object
        set_transition_get switch_field_distinct level_of_pct)
next
  case (SetColor d0 r g b tr)
  then have "s = Color r g b" "ch = None" "body = set_transition F tr [(''color'', rgb_json r g b)]"
    using assms by (auto simp: asks_for_def split: if_splits)
  then show ?thesis
    by (simp add: json_to_device_events_def root_readings_def field_object jget_object
        set_transition_get switch_field_distinct)
next
  case (SetColorTemperature d0 m tr)
  then have "s = ColorTemperature m" "ch = None"
    "body = set_transition F tr [(''color_temp'', json_uint m)]"
    using assms by (auto simp: asks_for_def split: if_splits)
  then show ?thesis
    by (simp add: json_to_device_events_def root_readings_def field_object jget_object
        set_transition_get switch_field_distinct ucast_u16_min)
qed (use assms in \<open>auto simp: asks_for_def outcome_ok_def\<close>)

definition channel_of :: "(device_id, load_channel) hashmap \<Rightarrow> device_id \<Rightarrow> load_channel" where
  "channel_of chans d = (case hm_get chans d of Some ch \<Rightarrow> ch | None \<Rightarrow> None)"

lemma message_events_eq:
  assumes "CHR ''/'' \<notin> set friendly" and "hm_get by_name friendly = Some ds" and "sj_read J p = Inr j"
  shows "message_to_events F J base by_name chans acts \<lparr>mm_topic = base @ ''/'' @ friendly, mm_payload = p\<rparr> =
    concat (map (\<lambda>d. json_to_device_events F d (channel_of chans d) acts j) ds)"
proof -
  have "strip_prefix (base @ ''/'') (base @ ''/'' @ friendly) = Some friendly"
    by (simp add: strip_prefix_def starts_with_def)
  with assms show ?thesis
    by (simp add: message_to_events_def channel_of_def)
qed



text \<open>A library that can write one document, for the concrete examples.\<close>

definition one_document :: "'f json \<Rightarrow> 'f json_text" where
  "one_document v =
     \<lparr>sj_write = (\<lambda>w. if w = v then Some ''x'' else None), sj_read = (\<lambda>b. Inr v), sj_display = (\<lambda>w. [])\<rparr>"

lemma one_document_reads:
  "sj_write (one_document v) w = Some q \<Longrightarrow> sj_read (one_document v) q = Inr w"
  by (auto simp: one_document_def split: if_splits)


section \<open>Only the devices of a topic report\<close>

lemma set_root_readings:
  "ev \<in> set (root_readings F d j) \<Longrightarrow> \<exists>s. ev = StateReported d s"
  by (auto simp: root_readings_def reading_def split: option.splits)

lemma device_events_sound:
  assumes "ev \<in> set (json_to_device_events F d ch acts j)"
  shows "(\<exists>s. ev = StateReported d s \<and> (ch \<noteq> None \<longrightarrow> kind s = KSwitch)) \<or>
    (\<exists>raw a. ev = Action d a \<and> field ''action'' jstr j = Some raw \<and> declared_action acts d raw = Some a)"
  using assms
  by (auto simp: json_to_device_events_def reading_def bind_eq_Some_conv split: option.splits if_splits
      dest: set_root_readings)

lemma message_events_sound:
  assumes "ev \<in> set (message_to_events F J base by_name chans acts msg)"
  obtains friendly ds d j where "mm_topic msg = base @ ''/'' @ friendly" "CHR ''/'' \<notin> set friendly"
    "hm_get by_name friendly = Some ds" "d \<in> set ds" "sj_read J (mm_payload msg) = Inr j"
    "ev \<in> set (json_to_device_events F d (channel_of chans d) acts j)"
proof (cases "strip_prefix (base @ ''/'') (mm_topic msg)")
  case (Some friendly)
  then have topic: "mm_topic msg = base @ ''/'' @ friendly"
    by (auto simp: strip_prefix_def starts_with_iff split: if_splits)
  have slash: "CHR ''/'' \<notin> set friendly"
    using assms Some by (auto simp: message_to_events_def split: if_splits)
  show ?thesis
  proof (cases "hm_get by_name friendly")
    case (Some ds)
    with \<open>strip_prefix _ _ = _\<close> slash assms show ?thesis
      using that [OF topic slash Some]
      by (cases "sj_read J (mm_payload msg)") (auto simp: message_to_events_def channel_of_def)
  qed (use \<open>strip_prefix _ _ = _\<close> slash assms in \<open>simp add: message_to_events_def\<close>)
qed (use assms in \<open>simp add: message_to_events_def\<close>)

text \<open>
  A friendly name with a slash is accepted in configuration, but what its device publishes is dropped:
  the check that skips sub-topics skips it too.
\<close>

lemma slash_name_never_reports:
  assumes "CHR ''/'' \<in> set friendly"
  shows "z2m_validate_device config (d\<lparr>dd_address := Some friendly\<rparr>) at = []"
    and "message_to_events F J base by_name chans acts \<lparr>mm_topic = base @ ''/'' @ friendly, mm_payload = p\<rparr> = []"
proof -
  have "strip_prefix (base @ ''/'') (base @ ''/'' @ friendly) = Some friendly"
    by (simp add: strip_prefix_def starts_with_def)
  with assms show "message_to_events F J base by_name chans acts
      \<lparr>mm_topic = base @ ''/'' @ friendly, mm_payload = p\<rparr> = []"
    by (simp add: message_to_events_def)
qed (simp add: z2m_validate_device_def)


section \<open>The adapter as it is built\<close>

text \<open>What \<open>new\<close> builds from the bound devices and their declared events, whatever happens after.\<close>

definition z2m_built ::
  "string \<Rightarrow> (device_id \<times> string \<times> u16 option) list \<Rightarrow> (device_id \<times> string \<times> action_id) list \<Rightarrow>
   't z2m \<Rightarrow> bool" where
  "z2m_built base devices evs a \<longleftrightarrow>
     z_base_topic a = base \<and> z_by_id a = index_targets devices \<and> z_by_name a = index_names devices \<and>
     z_actions a = index_events evs"

lemma new_z2m_built: "z2m_built base devices evs (new_z2m J base devices evs caps t)"
  by (simp add: z2m_built_def new_z2m_def Let_def)

lemma prime_built: "z2m_built base devices evs (prime M a) = z2m_built base devices evs a"
  by (simp add: z2m_built_def prime_def)

lemma transport_built:
  "z2m_built base devices evs (a\<lparr>z_transport := tr\<rparr>) = z2m_built base devices evs a"
  by (simp add: z2m_built_def)

lemma tick_built: "z2m_built base devices evs (fst (z2m_tick F J M a now)) = z2m_built base devices evs a"
  by (simp add: z2m_tick_def Let_def transport_built prime_built split: prod.split)

lemma dispatch_built:
  "z2m_built base devices evs (fst (z2m_dispatch F J M a cmd now)) = z2m_built base devices evs a"
  by (simp add: z2m_dispatch_def z2m_built_def split: option.split prod.split sum.split)

interpretation z2m_quiet: quiet_dispatch "z2m_dispatch F J M"
  by unfold_locales (auto simp: z2m_dispatch_def outcome_ok_def split: option.splits prod.splits sum.splits)

lemma index_names_get:
  "hm_get (index_names devices) n =
     (let ds = map fst (filter (\<lambda>(_, name, _). name = n) devices) in if ds = [] then None else Some ds)"
proof -
  let ?step = "\<lambda>(d, name, _) m. hm_insert name ((case hm_get m name of Some ds \<Rightarrow> ds | None \<Rightarrow> []) @ [d]) m"
  have "hm_get (fold ?step devices m) n =
      (let ds = map fst (filter (\<lambda>(_, name, _). name = n) devices)
       in if ds = [] then hm_get m n else Some ((case hm_get m n of Some ds \<Rightarrow> ds | None \<Rightarrow> []) @ ds))" for m
    by (induction devices arbitrary: m) (auto simp: Let_def split: option.split)
  from this [of "[]"] show ?thesis
    by (simp add: index_names_def Let_def)
qed

lemma index_names_Some:
  "hm_get (index_names devices) n = Some ds \<Longrightarrow> d \<in> set ds \<longleftrightarrow> (\<exists>e. (d, n, e) \<in> set devices)"
  by (force simp: index_names_get Let_def split: if_splits)

lemma index_targets_get:
  "hm_get (index_targets devices) =
     map_of (rev (map (\<lambda>(d, name, e). (d, \<lparr>dt_friendly = name, dt_channel = normalize_channel e\<rparr>)) devices))"
proof -
  let ?item = "\<lambda>(d, name, e). (d, \<lparr>dt_friendly = name, dt_channel = normalize_channel e\<rparr>)"
  have "fold (\<lambda>(d, name, e). hm_insert d \<lparr>dt_friendly = name, dt_channel = normalize_channel e\<rparr>) ds m =
      fold (\<lambda>(k, v). hm_insert k v) (map ?item ds) m" for ds and m :: "(device_id, device_target) hashmap"
    by (induction ds arbitrary: m) auto
  then show ?thesis
    using hm.get_inserts [of "[]" "map ?item devices"] by (simp add: index_targets_def)
qed

lemma index_targets_in:
  assumes "distinct (map fst devices)" and "(d, name, e) \<in> set devices"
  shows "hm_get (index_targets devices) d = Some \<lparr>dt_friendly = name, dt_channel = normalize_channel e\<rparr>"
  unfolding index_targets_get
  by (rule map_of_is_SomeI) (use assms in \<open>force simp: rev_map [symmetric] comp_def case_prod_unfold\<close>)+

lemma device_channels_get: "hm_get (device_channels a) d = map_option dt_channel (hm_get (z_by_id a) d)"
proof -
  have "map_of (map (\<lambda>(d, t). (d, dt_channel t)) m) d = map_option dt_channel (map_of m d)" for m
    by (induction m) auto
  then show ?thesis
    by (simp add: device_channels_def)
qed

text \<open>
  C20: whatever the broker delivers, a tick reports only devices bound to the friendly name the message
  was published under: of a device bound to one load of a multi-gang switch only its on/off state, and
  of actions only those the device declares. The adapter stays as it was built.
\<close>

theorem z2m_reports_own_devices:
  assumes "z2m_built base devices evs a" and "distinct (map fst devices)"
    and "ev \<in> set (snd (z2m_tick F J M a now))"
  shows "z2m_built base devices evs (fst (z2m_tick F J M a now)) \<and>
    (\<exists>msg d name e. msg \<in> set (snd (mq_poll M (z_transport (prime M a)))) \<and>
      mm_topic msg = base @ ''/'' @ name \<and> (d, name, e) \<in> set devices \<and>
      ((\<exists>s. ev = StateReported d s \<and> (normalize_channel e \<noteq> None \<longrightarrow> kind s = KSwitch)) \<or>
       (\<exists>raw act. ev = Action d act \<and> (d, raw, act) \<in> set evs)))"
proof (rule conjI)
  show "z2m_built base devices evs (fst (z2m_tick F J M a now))"
    using assms(1) by (simp add: tick_built)
  let ?b = "prime M a"
  have built: "z2m_built base devices evs ?b"
    using assms(1) by (simp add: prime_built)
  obtain msg where msg: "msg \<in> set (snd (mq_poll M (z_transport ?b)))"
    and ev: "ev \<in> set (message_to_events F J base (index_names devices) (device_channels ?b)
      (index_events evs) msg)"
    using assms(3) built by (auto simp: z2m_tick_def z2m_built_def Let_def split: prod.splits)
  from ev obtain name ds d j where topic: "mm_topic msg = base @ ''/'' @ name"
    and d: "hm_get (index_names devices) name = Some ds" "d \<in> set ds"
    and dev: "ev \<in> set (json_to_device_events F d (channel_of (device_channels ?b) d) (index_events evs) j)"
    by (rule message_events_sound)
  from index_names_Some [OF d(1)] d(2) obtain e where e: "(d, name, e) \<in> set devices"
    by blast
  have "channel_of (device_channels ?b) d = normalize_channel e"
    using built index_targets_in [OF assms(2) e]
    by (simp add: channel_of_def device_channels_get z2m_built_def)
  with device_events_sound [OF dev] msg topic e
  show "\<exists>msg d name e. msg \<in> set (snd (mq_poll M (z_transport (prime M a)))) \<and>
      mm_topic msg = base @ ''/'' @ name \<and> (d, name, e) \<in> set devices \<and>
      ((\<exists>s. ev = StateReported d s \<and> (normalize_channel e \<noteq> None \<longrightarrow> kind s = KSwitch)) \<or>
       (\<exists>raw act. ev = Action d act \<and> (d, raw, act) \<in> set evs))"
    by (metis declared_index_events)
qed


text \<open>A broker that delivers one message: the button press of a wall switch that reports its gang too.\<close>

definition one_message :: "string \<Rightarrow> unit mqtt_transport" where
  "one_message topic =
     \<lparr>mq_publish = (\<lambda>t topic p. (t, Inr ())),
      mq_poll = (\<lambda>t. (t, [\<lparr>mm_topic = topic, mm_payload = ''x''\<rparr>]))\<rparr>"

definition press :: "int json" where
  "press = JObject [(''action'', JString ''toggle''), (''brightness'', json_uint (9 :: u8))]"

definition wall :: "unit z2m" where
  "wall = new_z2m (one_document press) ''z2m'' [(DeviceId 4, ''wall'', Some 1)]
     [(DeviceId 4, ''toggle'', ActionId 7)] [] ()"

theorem z2m_reports_own_devices_witness:
  "snd (z2m_tick quarter_floats (one_document press) (one_message ''z2m/wall'') wall 0) =
     [Action (DeviceId 4) (ActionId 7)] \<and>
   z2m_built ''z2m'' [(DeviceId 4, ''wall'', Some 1)] [(DeviceId 4, ''toggle'', ActionId 7)]
     (fst (z2m_tick quarter_floats (one_document press) (one_message ''z2m/wall'') wall 0))"
proof -
  have built: "z2m_built ''z2m'' [(DeviceId 4, ''wall'', Some 1)] [(DeviceId 4, ''toggle'', ActionId 7)] wall"
    unfolding wall_def by (rule new_z2m_built)
  have evs: "snd (z2m_tick quarter_floats (one_document press) (one_message ''z2m/wall'') wall 0) =
      [Action (DeviceId 4) (ActionId 7)]"
    by (simp add: z2m_tick_def wall_def new_z2m_def index_targets_def index_names_def index_events_def declare_action_def
        prime_def prime_bodies_def one_message_def one_document_def message_to_events_def strip_prefix_def
        starts_with_def device_channels_def normalize_channel_def json_to_device_events_def press_def
        field_object switch_field_def declared_action_def jstr_def)
  have "Action (DeviceId 4) (ActionId 7) \<in>
      set (snd (z2m_tick quarter_floats (one_document press) (one_message ''z2m/wall'') wall 0))"
    by (simp add: evs)
  from z2m_reports_own_devices [OF built _ this] evs show ?thesis
    by simp
qed

section \<open>Priming\<close>

lemma prime_attrs_get:
  "map_of (fold (\<lambda>a. obj_insert a (JString [])) attrs m) k =
     (if k \<in> set attrs then Some (JString []) else map_of m k)"
  by (induction attrs arbitrary: m) auto

text \<open>A topic is asked for an attribute; and a device wants that.\<close>

definition asked :: "(string, 'f jmap) hashmap \<Rightarrow> string \<Rightarrow> string \<Rightarrow> bool" where
  "asked m topic attr \<longleftrightarrow> (\<exists>body. hm_get m topic = Some body \<and> map_of body attr = Some (JString []))"

definition wants ::
  "string \<Rightarrow> (device_id, device_target) hashmap \<Rightarrow> string \<Rightarrow> string \<Rightarrow>
   device_id \<times> capability_kind list \<Rightarrow> bool" where
  "wants base by_id topic attr = (\<lambda>(d, ks). \<exists>t k.
     hm_get by_id d = Some t \<and> topic = base @ ''/'' @ dt_friendly t @ ''/get'' \<and> k \<in> set ks \<and>
     read_attr k (dt_channel t) = Some attr)"

lemma asked_step:
  "asked (prime_step base by_id c m) topic attr \<longleftrightarrow> asked m topic attr \<or> wants base by_id topic attr c"
proof -
  obtain d ks where c: "c = (d, ks)"
    by fastforce
  show ?thesis
  proof (cases "hm_get by_id d")
    case (Some t)
    let ?attrs = "List.map_filter (\<lambda>k. read_attr k (dt_channel t)) ks"
    let ?get = "base @ ''/'' @ dt_friendly t @ ''/get''"
    have attrs: "attr \<in> set ?attrs \<longleftrightarrow> (\<exists>k. k \<in> set ks \<and> read_attr k (dt_channel t) = Some attr)"
      by (force simp: List.map_filter_def)
    have wants: "wants base by_id topic attr c \<longleftrightarrow> topic = ?get \<and> attr \<in> set ?attrs"
      by (auto simp: wants_def c Some attrs)
    have step: "prime_step base by_id c m =
        (if ?attrs = [] then m
         else hm_insert ?get (fold (\<lambda>a. obj_insert a (JString [])) ?attrs
                (case hm_get m ?get of Some b \<Rightarrow> b | None \<Rightarrow> [])) m)"
      by (simp add: prime_step_def c Some Let_def)
    show ?thesis
      unfolding wants step asked_def
      by (cases "?attrs = []"; cases "hm_get m ?get") (auto simp: prime_attrs_get)
  qed (simp add: wants_def prime_step_def c)
qed

text \<open>
  On its first tick the adapter asks, in one message for each friendly name, for exactly the
  attributes its devices can answer for: an attribute is in the request of a topic when some device
  bound to that name declares a capability that reads it on its load.
\<close>

theorem prime_asks_readable:
  "(\<exists>body. hm_get (prime_bodies base by_id caps) topic = Some body \<and> map_of body attr = Some (JString [])) \<longleftrightarrow>
   (\<exists>d ks t k. (d, ks) \<in> set caps \<and> hm_get by_id d = Some t \<and>
      topic = base @ ''/'' @ dt_friendly t @ ''/get'' \<and> k \<in> set ks \<and> read_attr k (dt_channel t) = Some attr)"
proof -
  have "asked (fold (prime_step base by_id) caps m) topic attr \<longleftrightarrow>
      asked m topic attr \<or> (\<exists>c. c \<in> set caps \<and> wants base by_id topic attr c)"
    for m :: "(string, 'a jmap) hashmap"
  proof (induction caps arbitrary: m)
    case (Cons c caps)
    show ?case
      by (simp only: fold_simps Cons.IH asked_step list.set) blast
  qed simp
  moreover have "\<not> asked ([] :: (string, 'a jmap) hashmap) topic attr"
    by (simp add: asked_def)
  ultimately have "asked (prime_bodies base by_id caps :: (string, 'a jmap) hashmap) topic attr \<longleftrightarrow>
      (\<exists>c. c \<in> set caps \<and> wants base by_id topic attr c)"
    unfolding prime_bodies_def by blast
  then show ?thesis
    unfolding asked_def wants_def by auto
qed

section \<open>The log of the connection thread\<close>

text \<open>
  A broker that stays down is reported once, and then once in twelve attempts, which is once a minute;
  the thread pauses after every attempt.
\<close>

lemma conn_down_for_a_minute:
  "conn_run w conn_init (Failure e # replicate 12 (Failure e)) =
     [LogError e, SleepReconnect] @ replicate 11 SleepReconnect @ [LogStill 12, SleepReconnect]"
proof -
  have times: "replicate 12 x = [x, x, x, x, x, x, x, x, x, x, x, x]"
    "replicate 11 y = [y, y, y, y, y, y, y, y, y, y, y]" for x :: mqtt_event and y :: conn_effect
    by (simp_all add: numeral_eq_Suc)
  show ?thesis
    unfolding times by (simp add: conn_init_def conn_step_def)
qed

end
