(* ===== verification/Websocket.thy ===== *)
theory Websocket
  imports Actions
begin

text \<open>
  What the Matter and Z-Wave JS adapters share: the background thread that pumps a WebSocket, the
  handle the adapter holds on it, and the validation of a server url and a decimal node id. The socket
  itself is a sequence of events.
\<close>

section \<open>The pump\<close>

text \<open>
  What the thread can be woken by: a text frame, a close frame or the end of the stream, another
  frame, a read error, a frame the adapter queued together with the success of its write, and the
  host dropping its end of the queue.
\<close>

datatype ws_event =
  Text string | Closed | OtherFrame | ReadError string | Outgoing string bool | HostGone

datatype 'u ws_effect = Deliver 'u | WakeHost | Written string

datatype pump_result = Continue | Reconnect | Return

definition pump_step ::
  "(string \<Rightarrow> 'u list) \<Rightarrow> bool \<Rightarrow> ws_event \<Rightarrow> 'u ws_effect list \<times> pump_result" where
  "pump_step parse has_waker ev =
     (case ev of
        Text txt \<Rightarrow>
          (concat (map (\<lambda>u. Deliver u # (if has_waker then [WakeHost] else [])) (parse txt)), Continue)
      | Closed \<Rightarrow> ([], Reconnect)
      | OtherFrame \<Rightarrow> ([], Continue)
      | ReadError _ \<Rightarrow> ([], Reconnect)
      | Outgoing frame written \<Rightarrow> if written then ([Written frame], Continue) else ([], Reconnect)
      | HostGone \<Rightarrow> ([], Return))"

text \<open>One connection: the effects until it drops or the host goes away, and the events left over.\<close>

fun pump_run ::
  "(string \<Rightarrow> 'u list) \<Rightarrow> bool \<Rightarrow> ws_event list \<Rightarrow> 'u ws_effect list \<times> pump_result \<times> ws_event list" where
  "pump_run parse w [] = ([], Continue, [])"
| "pump_run parse w (ev # evs) =
     (case pump_step parse w ev of
        (effs, Continue) \<Rightarrow> map_prod ((@) effs) id (pump_run parse w evs)
      | (effs, r) \<Rightarrow> (effs, r, evs))"

definition delivered :: "'u ws_effect list \<Rightarrow> 'u list" where
  "delivered effs = List.map_filter (\<lambda>e. case e of Deliver u \<Rightarrow> Some u | _ \<Rightarrow> None) effs"

section \<open>The handle\<close>

text \<open>
  The frames queued for the thread, the updates it has delivered, whether it still runs, and the next
  message id.
\<close>

record 'u ws_handle =
  ws_outbound :: "string list"
  ws_inbound :: "'u list"
  ws_alive :: bool
  ws_next_id :: u64

definition ws_new :: "'u ws_handle" where
  "ws_new = \<lparr>ws_outbound = [], ws_inbound = [], ws_alive = True, ws_next_id = 1\<rparr>"

definition ws_send :: "string \<Rightarrow> (u64 \<Rightarrow> string) \<Rightarrow> 'u ws_handle \<Rightarrow> 'u ws_handle \<times> (string + unit)" where
  "ws_send gone frame h =
     (let f = frame (ws_next_id h); h = h\<lparr>ws_next_id := ws_next_id h + 1\<rparr>
      in if ws_alive h then (h\<lparr>ws_outbound := ws_outbound h @ [f]\<rparr>, Inr ()) else (h, Inl gone))"

definition ws_poll :: "'u ws_handle \<Rightarrow> 'u ws_handle \<times> 'u list" where
  "ws_poll h = (h\<lparr>ws_inbound := []\<rparr>, ws_inbound h)"

section \<open>Configuration\<close>

record url_config =
  uc_url :: string

definition is_ws_url :: "string \<Rightarrow> bool" where
  "is_ws_url u \<longleftrightarrow> starts_with ''ws://'' u \<or> starts_with ''wss://'' u"

definition validate_ws_config ::
  "string \<Rightarrow> ('n yaml \<Rightarrow> string + url_config) \<Rightarrow> 'n yaml \<Rightarrow> string \<Rightarrow> diagnostic list" where
  "validate_ws_config what de config at =
     (case config_of de config at of
        (None, diags) \<Rightarrow> diags
      | (Some cfg, diags) \<Rightarrow>
          if is_ws_url (uc_url cfg) then diags
          else diags @ [diag_at at (diag_error ''E_BAD_URL''
                 (what @ '' url must be ws:// or wss:// '' @ utf8_bytes [226, 128, 148] @
                  '' got '' @ quoted (uc_url cfg)))])"

definition validate_node_id :: "string \<Rightarrow> string \<Rightarrow> nat \<Rightarrow> device_def \<Rightarrow> string \<Rightarrow> diagnostic list" where
  "validate_node_id missing what bound d at =
     (case dd_address d of
        None \<Rightarrow> [diag_at at (diag_error ''E_MISSING_ADDRESS'' missing)]
      | Some addr \<Rightarrow>
          if parse_uint bound addr = None
          then [diag_at at (diag_error ''E_BAD_ADDRESS''
                  (what @ '' `address` must be a decimal node_id '' @ utf8_bytes [226, 128, 148] @
                   '' got '' @ quoted addr))]
          else [])"

text \<open>The accumulated result of \<open>filter_map\<close> with \<open>?\<close> on the parsed address.\<close>

definition node_of :: "nat \<Rightarrow> device_def \<Rightarrow> nat option" where
  "node_of bound d = Option.bind (dd_address d) (parse_uint bound)"

section \<open>What the pump delivers\<close>

lemma delivered_simps [simp]:
  "delivered [] = []" "delivered (Deliver u # effs) = u # delivered effs"
  "delivered (WakeHost # effs) = delivered effs" "delivered (Written f # effs) = delivered effs"
  "delivered (effs @ effs') = delivered effs @ delivered effs'"
  by (simp_all add: delivered_def List.map_filter_def)

lemma delivered_step: "delivered (fst (pump_step parse w (Text txt))) = parse txt"
proof -
  have "delivered (concat (map (\<lambda>u. Deliver u # (if w then [WakeHost] else [])) us)) = us" for us :: "'a list"
    by (induction us) auto
  then show ?thesis
    by (simp add: pump_step_def)
qed

text \<open>Every update of a frame that was read is delivered, in order, and nothing else is.\<close>

definition texts_of :: "ws_event list \<Rightarrow> string list" where
  "texts_of evs = List.map_filter (\<lambda>ev. case ev of Text t \<Rightarrow> Some t | _ \<Rightarrow> None) evs"

lemma pump_delivers:
  "pump_run parse w evs = (effs, r, rest) \<Longrightarrow>
   \<exists>seen. evs = seen @ rest \<and> delivered effs = concat (map parse (texts_of seen))"
proof (induction evs arbitrary: effs)
  case Nil
  then show ?case
    by (simp add: texts_of_def List.map_filter_def)
next
  case (Cons ev evs)
  have step: "delivered (fst (pump_step parse w ev)) = concat (map parse (texts_of [ev]))"
    by (cases ev; simp add: delivered_step texts_of_def List.map_filter_def)
      (auto simp: pump_step_def)
  obtain effs1 r1 where ev: "pump_step parse w ev = (effs1, r1)"
    by fastforce
  have split: "texts_of (ev # seen) = texts_of [ev] @ texts_of seen" for seen
    by (simp add: texts_of_def List.map_filter_def)
  show ?case
  proof (cases r1)
    case Continue
    obtain effs2 where run: "pump_run parse w evs = (effs2, r, rest)" and effs: "effs = effs1 @ effs2"
      using Cons.prems by (cases "pump_run parse w evs") (auto simp: ev Continue)
    from Cons.IH [OF run] step ev effs split show ?thesis
      by (metis append_Cons concat_append delivered_simps(5) fst_conv map_append)
  next
    case Reconnect
    with Cons.prems ev step show ?thesis
      by (intro exI [of _ "[ev]"]) auto
  next
    case Return
    with Cons.prems ev step show ?thesis
      by (intro exI [of _ "[ev]"]) auto
  qed
qed

end
