(* ===== verification/Zwave.thy ===== *)
theory Zwave
  imports Websocket
begin

text \<open>
  The Z-Wave JS adapter (\<open>adapters/zwavejs.rs\<close>): commands become values written on a node's endpoint,
  value updates become reports, and the notifications of a scene controller become actions.
\<close>

section \<open>Addresses and values\<close>

datatype zw_node = ZNode (zw_node_num: u32)
datatype zw_endpoint = ZEndpoint (zw_endpoint_num: u16)
datatype device_kind = SwitchDevice | Dimmer

definition from_capabilities :: "capability_kind list \<Rightarrow> device_kind" where
  "from_capabilities caps = (if KBrightness \<in> set caps then Dimmer else SwitchDevice)"

record 'f value_update =
  vu_node :: zw_node
  vu_endpoint :: zw_endpoint
  vu_command_class :: u16
  vu_property :: string
  vu_property_key :: "string option"
  vu_value :: "'f json"
  vu_notification :: bool

record 'f set_value =
  sv_command_class :: u16
  sv_property :: string
  sv_value :: "'f json"
  sv_transition :: "millis option"

text \<open>The trait \<open>ZwaveClient\<close>.\<close>

record ('c, 'f) zwave_client =
  zc_set_value :: "'c \<Rightarrow> zw_node \<Rightarrow> zw_endpoint \<Rightarrow> 'f set_value \<Rightarrow> 'c \<times> (string + unit)"
  zc_poll :: "'c \<Rightarrow> 'c \<times> 'f value_update list"

section \<open>Levels, classes and keys\<close>

text \<open>A percentage and a level fit 16 and 64 bits in every intermediate result.\<close>

definition pct_to_zwave :: "u8 \<Rightarrow> u8" where
  "pct_to_zwave pct = ucast (((ucast (min pct 100) :: u16) * 99 + 50) div 100)"

definition zwave_to_pct :: "u64 \<Rightarrow> u8" where
  "zwave_to_pct level = ucast ((min level 99 * 100 + 49) div 99)"

definition multilevel_on :: u16 where "multilevel_on = 255"

definition cc_binary_switch :: u16 where "cc_binary_switch = 37"
definition cc_multilevel_switch :: u16 where "cc_multilevel_switch = 38"
definition cc_color_switch :: u16 where "cc_color_switch = 51"
definition cc_central_scene :: u16 where "cc_central_scene = 91"
definition cc_notification :: u16 where "cc_notification = 113"
definition cc_battery :: u16 where "cc_battery = 128"

lemmas cc_defs = cc_binary_switch_def cc_multilevel_switch_def cc_color_switch_def
  cc_central_scene_def cc_notification_def cc_battery_def

definition key_attribute_name :: "u64 \<Rightarrow> string option" where
  "key_attribute_name v =
     (if v = 0 then Some ''KeyPressed''
      else if v = 1 then Some ''KeyReleased''
      else if v = 2 then Some ''KeyHeldDown''
      else if v = 3 then Some ''KeyPressed2x''
      else if v = 4 then Some ''KeyPressed3x''
      else if v = 5 then Some ''KeyPressed4x''
      else if v = 6 then Some ''KeyPressed5x''
      else None)"

section \<open>Commands out\<close>

fun command_to_set_value :: "device_kind \<Rightarrow> command \<Rightarrow> 'f set_value option" where
  "command_to_set_value Dimmer (SetSwitch _ on) =
     Some \<lparr>sv_command_class = cc_multilevel_switch, sv_property = ''targetValue'',
       sv_value = json_uint (if on then multilevel_on else 0), sv_transition = None\<rparr>"
| "command_to_set_value SwitchDevice (SetSwitch _ on) =
     Some \<lparr>sv_command_class = cc_binary_switch, sv_property = ''targetValue'',
       sv_value = JBool on, sv_transition = None\<rparr>"
| "command_to_set_value _ (SetBrightness _ v tr) =
     Some \<lparr>sv_command_class = cc_multilevel_switch, sv_property = ''targetValue'',
       sv_value = json_uint (pct_to_zwave v), sv_transition = tr\<rparr>"
| "command_to_set_value _ (SetColor _ r g b tr) =
     Some \<lparr>sv_command_class = cc_color_switch, sv_property = ''targetColor'',
       sv_value = object [(''red'', json_uint r), (''green'', json_uint g), (''blue'', json_uint b)],
       sv_transition = tr\<rparr>"
| "command_to_set_value _ (SetColorTemperature _ m tr) =
     (let (warm, cold) = mireds_to_warm_cold m
      in Some \<lparr>sv_command_class = cc_color_switch, sv_property = ''targetColor'',
           sv_value = object [(''warmWhite'', json_uint warm), (''coldWhite'', json_uint cold)],
           sv_transition = tr\<rparr>)"
| "command_to_set_value _ _ = None"

section \<open>Reports in\<close>

definition normalize_button :: "string \<Rightarrow> string" where
  "normalize_button key = (case parse_uint (2 ^ 32) key of Some n \<Rightarrow> decimal n | None \<Rightarrow> key)"

definition parse_zwave_color :: "'f json \<Rightarrow> (u8 \<times> u8 \<times> u8) option" where
  "parse_zwave_color v =
     Option.bind (field ''red'' ju64 v) (\<lambda>r. Option.bind (field ''green'' ju64 v) (\<lambda>g.
     Option.bind (field ''blue'' ju64 v) (\<lambda>b.
       if r \<le> 255 \<and> g \<le> 255 \<and> b \<le> 255 then Some (ucast r, ucast g, ucast b) else None)))"

definition parse_zwave_color_temp :: "'f json \<Rightarrow> u16 option" where
  "parse_zwave_color_temp v =
     Option.bind (field ''warmWhite'' ju64 v) (\<lambda>w. Option.bind (field ''coldWhite'' ju64 v)
       (warm_cold_to_mireds w))"

text \<open>A press: the button and what happened to it, as the raw string a device declares.\<close>

definition scene_raw :: "'f value_update \<Rightarrow> string option" where
  "scene_raw u =
     (case (map_option normalize_button (vu_property_key u), Option.bind (ju64 (vu_value u)) key_attribute_name) of
        (Some button, Some attr) \<Rightarrow> Some (button @ '':'' @ attr)
      | _ \<Rightarrow> None)"

definition scene_action :: "action_map \<Rightarrow> device_id \<Rightarrow> 'f value_update \<Rightarrow> event list" where
  "scene_action actions d u =
     (case Option.bind (scene_raw u) (declared_action actions d) of
        Some a \<Rightarrow> [Action d a] | None \<Rightarrow> [])"

definition occupancy_of :: "u64 \<Rightarrow> bool option" where
  "occupancy_of v = (if v = 0 then Some False else if v = 7 \<or> v = 8 then Some True else None)"

definition stateful :: "device_id \<Rightarrow> 'f value_update \<Rightarrow> capability_state list" where
  "stateful d u =
     (let cc = vu_command_class u; prop = vu_property u; v = vu_value u
      in if cc = cc_binary_switch \<and> prop = ''currentValue'' then
           (case jbool v of Some on \<Rightarrow> [Switch on] | None \<Rightarrow> [])
         else if cc = cc_multilevel_switch \<and> prop = ''currentValue'' then
           (case ju64 v of Some lvl \<Rightarrow> [Brightness (zwave_to_pct lvl), Switch (lvl > 0)] | None \<Rightarrow> [])
         else if cc = cc_battery \<and> prop = ''level'' then
           (case ju64 v of Some pct \<Rightarrow> [Battery (ucast (min pct 100))] | None \<Rightarrow> [])
         else if cc = cc_color_switch \<and> prop = ''currentColor'' then
           (case parse_zwave_color v of
              Some (r, g, b) \<Rightarrow> [Color r g b]
            | None \<Rightarrow> (case parse_zwave_color_temp v of Some m \<Rightarrow> [ColorTemperature m] | None \<Rightarrow> []))
         else if cc = cc_notification \<and> prop = ''Home Security'' then
           (case Option.bind (ju64 v) occupancy_of of Some occ \<Rightarrow> [Occupancy occ] | None \<Rightarrow> [])
         else [])"

definition update_to_events ::
  "(zw_node \<times> zw_endpoint, device_id) hashmap \<Rightarrow> action_map \<Rightarrow> 'f value_update \<Rightarrow> event list" where
  "update_to_events by_node actions u =
     (case hm_get by_node (vu_node u, vu_endpoint u) of
        None \<Rightarrow> []
      | Some d \<Rightarrow>
          if vu_command_class u = cc_central_scene \<and> vu_property u = ''scene''
          then (if \<not> vu_notification u then [] else scene_action actions d u)
          else map (StateReported d) (stateful d u))"

section \<open>The adapter\<close>

record 'c zwave =
  zw_by_id :: "(device_id, zw_node \<times> zw_endpoint \<times> device_kind) hashmap"
  zw_by_node :: "(zw_node \<times> zw_endpoint, device_id) hashmap"
  zw_actions :: action_map
  zw_client :: 'c

definition new_zwave ::
  "(device_id \<times> zw_node \<times> zw_endpoint \<times> device_kind) list \<Rightarrow> (device_id \<times> string \<times> action_id) list \<Rightarrow>
   'c \<Rightarrow> 'c zwave" where
  "new_zwave devices evs c =
     \<lparr>zw_by_id = fold (\<lambda>(d, n, e, k). hm_insert d (n, e, k)) devices [],
      zw_by_node = fold (\<lambda>(d, n, e, k). hm_insert (n, e) d) devices [],
      zw_actions = index_events evs, zw_client = c\<rparr>"

definition zwave_dispatch ::
  "('c, 'f) zwave_client \<Rightarrow> 'c zwave \<Rightarrow> command \<Rightarrow> millis \<Rightarrow> 'c zwave \<times> outcome" where
  "zwave_dispatch Z a cmd now =
     (case target_device cmd of
        None \<Rightarrow> (a, Permanent ''command has no target device'')
      | Some d \<Rightarrow>
          (case hm_get (zw_by_id a) d of
             None \<Rightarrow> (a, Permanent ''device is not managed by this adapter'')
           | Some (node, endpoint, k) \<Rightarrow>
               (case command_to_set_value k cmd of
                  None \<Rightarrow> (a, Permanent ''command unsupported by z-wave'')
                | Some sv \<Rightarrow>
                    (case zc_set_value Z (zw_client a) node endpoint sv of
                       (c, Inr _) \<Rightarrow> (a\<lparr>zw_client := c\<rparr>, outcome_ok)
                     | (c, Inl e) \<Rightarrow> (a\<lparr>zw_client := c\<rparr>, Transient e)))))"

definition zwave_tick :: "('c, 'f) zwave_client \<Rightarrow> 'c zwave \<Rightarrow> millis \<Rightarrow> 'c zwave \<times> event list" where
  "zwave_tick Z a now =
     (let (c, us) = zc_poll Z (zw_client a)
      in (a\<lparr>zw_client := c\<rparr>, concat (map (update_to_events (zw_by_node a) (zw_actions a)) us)))"

definition zwave_ops :: "('c, 'f) zwave_client \<Rightarrow> 'c zwave adapter_ops" where
  "zwave_ops Z =
     \<lparr>op_dispatch = zwave_dispatch Z, op_tick = zwave_tick Z, op_next_wake = default_next_wake\<rparr>"

section \<open>Frames in\<close>

definition endpoint_id :: "'f json option \<Rightarrow> zw_endpoint" where
  "endpoint_id v = ZEndpoint (case Option.bind v ju64 of Some n \<Rightarrow> ucast n | None \<Rightarrow> 0)"

definition property_string :: "'f json_text \<Rightarrow> 'f json \<Rightarrow> string option" where
  "property_string J v =
     (case v of JString s \<Rightarrow> Some s | JNumber n \<Rightarrow> Some (sj_display J (JNumber n)) | _ \<Rightarrow> None)"

text \<open>
  The fields both kinds of frame share: a value id (\<open>args\<close> of an event, or an entry of a snapshot), the
  value, and whether it is a notification. A node id and a class are truncated to their width.
\<close>

definition value_update_of ::
  "'f json_text \<Rightarrow> u64 \<Rightarrow> 'f json \<Rightarrow> 'f json option \<Rightarrow> bool \<Rightarrow> 'f value_update option" where
  "value_update_of J node args v notif =
     Option.bind v (\<lambda>v. Option.bind (field ''commandClass'' ju64 args) (\<lambda>cc.
     Option.bind (field ''property'' (property_string J) args) (\<lambda>prop.
       Some \<lparr>vu_node = ZNode (ucast node), vu_endpoint = endpoint_id (jget ''endpoint'' args),
             vu_command_class = ucast cc, vu_property = prop,
             vu_property_key = field ''propertyKey'' (property_string J) args, vu_value = v,
             vu_notification = notif\<rparr>)))"

definition event_kind :: "string \<Rightarrow> bool option" where
  "event_kind s =
     (if s = ''value notification'' then Some True else if s = ''value updated'' then Some False else None)"

definition parse_event :: "'f json_text \<Rightarrow> 'f json option \<Rightarrow> 'f value_update option" where
  "parse_event J ev =
     Option.bind ev (\<lambda>ev.
       if field ''source'' jstr ev \<noteq> Some ''node'' then None
       else
         Option.bind (Option.bind (field ''event'' jstr ev) event_kind) (\<lambda>notif.
         Option.bind (field ''nodeId'' ju64 ev) (\<lambda>node.
         Option.bind (jget ''args'' ev) (\<lambda>args.
           value_update_of J node args
             (if notif then jget ''value'' args
              else (case jget ''newValue'' args of Some v \<Rightarrow> Some v | None \<Rightarrow> jget ''value'' args)) notif))))"

definition parse_node_snapshot :: "'f json_text \<Rightarrow> 'f json \<Rightarrow> 'f value_update list" where
  "parse_node_snapshot J node =
     (case (field ''nodeId'' ju64 node, field ''values'' jarray node) of
        (Some n, Some vs) \<Rightarrow> List.map_filter (\<lambda>v. value_update_of J n v (jget ''value'' v) False) vs
      | _ \<Rightarrow> [])"

definition parse_inbound :: "'f json_text \<Rightarrow> string \<Rightarrow> 'f value_update list" where
  "parse_inbound J txt =
     (case sj_read J txt of
        Inl _ \<Rightarrow> []
      | Inr v \<Rightarrow>
          if field ''type'' jstr v = Some ''event''
          then (case parse_event J (jget ''event'' v) of Some u \<Rightarrow> [u] | None \<Rightarrow> [])
          else (case Option.bind (jget ''result'' v) (field ''state'' (field ''nodes'' jarray)) of
             Some nodes \<Rightarrow> concat (map (parse_node_snapshot J) nodes)
           | None \<Rightarrow> []))"

definition max_schema_version :: u64 where "max_schema_version = 41"

definition fallback_schema :: u64 where "fallback_schema = 33"

text \<open>The first frame of the server, if it was text, decides the schema version that is asked for.\<close>

definition negotiate_schema :: "'f json_text \<Rightarrow> string option \<Rightarrow> u64" where
  "negotiate_schema J first =
     (case Option.bind first (\<lambda>t. case sj_read J t of Inr v \<Rightarrow> field ''maxSchemaVersion'' ju64 v | Inl _ \<Rightarrow> None) of
        Some server_max \<Rightarrow> min server_max max_schema_version
      | None \<Rightarrow> fallback_schema)"

definition handshake :: "'f json_text \<Rightarrow> string option \<Rightarrow> string list" where
  "handshake J first =
     [sj_display J (object [(''messageId'', JString ''set_api_schema''), (''command'', JString ''set_api_schema''),
        (''schemaVersion'', json_uint (negotiate_schema J first))]),
      sj_display J (object [(''messageId'', JString ''start_listening''), (''command'', JString ''start_listening'')])]"

text \<open>The background thread of this adapter: the shared pump with this parser.\<close>

definition zwave_pump ::
  "'f json_text \<Rightarrow> bool \<Rightarrow> ws_event \<Rightarrow> 'f value_update ws_effect list \<times> pump_result" where
  "zwave_pump J has_waker ev = pump_step (parse_inbound J) has_waker ev"

section \<open>Frames out\<close>

definition set_value_frame :: "zw_node \<Rightarrow> zw_endpoint \<Rightarrow> 'f set_value \<Rightarrow> u64 \<Rightarrow> 'f json" where
  "set_value_frame node endpoint sv i =
     object
       ([(''messageId'', JString (decimal (unat i))), (''command'', JString ''node.set_value''),
         (''nodeId'', json_uint (zw_node_num node)),
         (''valueId'', object [(''commandClass'', json_uint (sv_command_class sv)),
            (''endpoint'', json_uint (zw_endpoint_num endpoint)), (''property'', JString (sv_property sv))]),
         (''value'', sv_value sv)] @
        (case sv_transition sv of
           Some ms \<Rightarrow> [(''options'', object [(''transitionDuration'', JString (decimal (unat (ms div 1000)) @ ''s''))])]
         | None \<Rightarrow> []))"

definition ws_set_value ::
  "'f json_text \<Rightarrow> 'u ws_handle \<Rightarrow> zw_node \<Rightarrow> zw_endpoint \<Rightarrow> 'f set_value \<Rightarrow> 'u ws_handle \<times> (string + unit)" where
  "ws_set_value J h node endpoint sv =
     ws_send ''zwave transport thread is gone'' (\<lambda>i. sj_display J (set_value_frame node endpoint sv i)) h"

definition zwave_server_ws :: "'f json_text \<Rightarrow> ('f value_update ws_handle, 'f) zwave_client" where
  "zwave_server_ws J = \<lparr>zc_set_value = ws_set_value J, zc_poll = ws_poll\<rparr>"

section \<open>Registration\<close>

definition zwave_targets :: "device_def list \<Rightarrow> (device_id \<times> zw_node \<times> zw_endpoint \<times> device_kind) list" where
  "zwave_targets ds =
     List.map_filter (\<lambda>d. map_option (\<lambda>n.
       (dd_id d, ZNode (of_nat n), ZEndpoint (case dd_endpoint d of Some e \<Rightarrow> e | None \<Rightarrow> 0),
        from_capabilities (dd_capabilities d))) (node_of (2 ^ 32) d)) ds"

definition zwave_build ::
  "('n yaml \<Rightarrow> string + url_config) \<Rightarrow> (string \<Rightarrow> 'w option \<Rightarrow> 'c) \<Rightarrow> 'n yaml \<Rightarrow> device_def list \<Rightarrow>
   'w option \<Rightarrow> 'c zwave option" where
  "zwave_build de connect config ds waker =
     (let cfg = (case de config of Inr c \<Rightarrow> c | Inl _ \<Rightarrow> \<lparr>uc_url = ''''\<rparr>)
      in Some (new_zwave (zwave_targets ds) (device_events_of ds) (connect (uc_url cfg) waker)))"

definition zwave_plugin ::
  "('n yaml \<Rightarrow> string + url_config) \<Rightarrow> (string \<Rightarrow> 'w option \<Rightarrow> 'c) \<Rightarrow> ('n, 'c zwave, 'b, 'w) plugin" where
  "zwave_plugin de connect =
     (default_plugin ''zwavejs'')
       \<lparr>validate_config := validate_ws_config ''zwavejs server'' de,
        validate_device := (\<lambda>_. validate_node_id
          ''zwavejs devices need an `address` (the decimal node_id from inclusion)'' ''zwavejs'' (2 ^ 32)),
        build := zwave_build de connect\<rparr>"

end
