(* ===== verification/Zwave_Props.thy ===== *)
theory Zwave_Props
  imports Zwave "HOL-Library.Code_Target_Nat"
begin

text \<open>
  What the Z-Wave JS adapter promises: how a written value is read back once the device reports it as
  its current one, that the written value itself is never taken for a report, and that only a real
  press of a declared button is an action.
\<close>

section \<open>Levels\<close>

lemma unat_min_num: "unat (min w v) = min (unat w) (unat v)" for w v :: "'a::len word"
  by (auto simp: min_def word_le_nat_alt)

lemma unat_pct_to_zwave: "unat (pct_to_zwave p) = (min (unat p) 100 * 99 + 50) div 100"
proof -
  have "(min (unat p) 100 * 99 + 50) div 100 \<le> 99"
    using div_le_mono [of "min (unat p) 100 * 99 + 50" 9950 100] by simp
  moreover have "min (unat p) 100 * 99 + 50 < 2 ^ 16"
    by (simp add: min_def)
  ultimately show ?thesis
    by (simp add: pct_to_zwave_def unat_div unat_word_ariths unat_ucast_mod unat_min_num)
qed

lemma unat_zwave_to_pct: "unat (zwave_to_pct l) = (min (unat l) 99 * 100 + 49) div 99"
proof -
  have "(min (unat l) 99 * 100 + 49) div 99 \<le> 100"
    using div_le_mono [of "min (unat l) 99 * 100 + 49" 9949 99] by simp
  then show ?thesis
    by (simp add: zwave_to_pct_def unat_div unat_word_ariths unat_ucast_mod unat_min_num)
qed

lemma level_table:
  "list_all (\<lambda>p. ((p * 99 + 50) div 100 * 100 + 49) div 99 = (if p = 50 then 51 else p) \<and>
    (0 < (p * 99 + 50) div 100 \<longleftrightarrow> 0 < p) \<and> (p * 99 + 50) div 100 \<le> 99) [0..<101]"
  for p :: nat
  by code_simp

lemma level_trip:
  assumes "p \<le> (100::nat)"
  shows "((p * 99 + 50) div 100 * 100 + 49) div 99 = (if p = 50 then 51 else p)"
    and "0 < (p * 99 + 50) div 100 \<longleftrightarrow> 0 < p" and "(p * 99 + 50) div 100 \<le> 99"
  using level_table assms unfolding list_all_iff by auto

lemma zwave_level_trip:
  assumes "v \<le> 100"
  shows "zwave_to_pct (ucast (pct_to_zwave v)) = (if v = 50 then 51 else v)"
    and "(0 :: u64) < ucast (pct_to_zwave v) \<longleftrightarrow> 0 < v"
proof -
  have v: "unat v \<le> 100" "min (unat v) 100 = unat v"
    using assms by (simp_all add: word_le_nat_alt)
  have "unat (zwave_to_pct (ucast (pct_to_zwave v))) = (if unat v = 50 then 51 else unat v)"
    using level_trip [OF v(1)] by (simp add: unat_zwave_to_pct unat_ucast_up unat_pct_to_zwave v(2) min_absorb1)
  then show "zwave_to_pct (ucast (pct_to_zwave v)) = (if v = 50 then 51 else v)"
    by (auto simp: word_unat_eq_iff split: if_splits)
  have "(0 :: u64) < ucast (pct_to_zwave v) \<longleftrightarrow> 0 < unat (pct_to_zwave v)"
    by (simp add: word_less_nat_alt unat_ucast_up)
  also have "\<dots> \<longleftrightarrow> 0 < v"
    using level_trip(2) [OF v(1)] by (simp add: unat_pct_to_zwave v(2) word_less_nat_alt)
  finally show "(0 :: u64) < ucast (pct_to_zwave v) \<longleftrightarrow> 0 < v" .
qed

section \<open>A written value, read back\<close>

text \<open>
  What the engine is told once the device has reached the state a command asked for. A dimmer reports
  its level, which is a brightness and an on/off state; there are only a hundred levels for a hundred
  and one percentages, and 50 percent is the one that comes back as another.
\<close>

fun zwave_readback :: "device_kind \<Rightarrow> capability_state \<Rightarrow> capability_state list" where
  "zwave_readback SwitchDevice (Switch on) = [Switch on]"
| "zwave_readback Dimmer (Switch on) = [Brightness (if on then 100 else 0), Switch on]"
| "zwave_readback _ (Brightness v) = [Brightness (if v = 50 then 51 else v), Switch (0 < v)]"
| "zwave_readback _ s = [s]"

text \<open>The report of a value as the current one, and the report of it as the target.\<close>

definition current_of :: "string \<Rightarrow> string" where
  "current_of prop = (if prop = ''targetColor'' then ''currentColor'' else ''currentValue'')"

definition report_of :: "zw_node \<Rightarrow> zw_endpoint \<Rightarrow> string \<Rightarrow> 'f set_value \<Rightarrow> 'f value_update" where
  "report_of n e prop sv =
     \<lparr>vu_node = n, vu_endpoint = e, vu_command_class = sv_command_class sv, vu_property = prop,
      vu_property_key = None, vu_value = sv_value sv, vu_notification = False\<rparr>"

lemma full_level: "zwave_to_pct 255 = 100" "zwave_to_pct 0 = 0"
  by (simp_all add: word_unat_eq_iff unat_zwave_to_pct)

lemma readback_stateful:
  assumes "command_to_set_value k cmd = Some sv" and "asks_for cmd s" and "in_percent s"
    and "kind s \<noteq> KColorTemperature"
  shows "stateful d (report_of n e (current_of (sv_property sv)) sv) = zwave_readback k s"
proof (cases cmd)
  case (SetSwitch d0 on)
  with assms show ?thesis
    by (cases k; cases on)
      (auto simp: asks_for_def stateful_def report_of_def current_of_def cc_defs multilevel_on_def jbool_def
        full_level)
next
  case (SetBrightness d0 v tr)
  with assms have "s = Brightness v" "v \<le> 100"
    by (auto simp: asks_for_def in_percent_def)
  with assms SetBrightness show ?thesis
    by (cases k) (auto simp: stateful_def report_of_def current_of_def cc_defs zwave_level_trip)
next
  case (SetColor d0 r g b tr)
  with assms show ?thesis
    by (cases k)
      (auto simp: asks_for_def stateful_def report_of_def current_of_def cc_defs parse_zwave_color_def
        field_def jget_json ucast_u8_le ucast_back)
qed (use assms in \<open>auto simp: asks_for_def outcome_ok_def\<close>)

lemma target_not_stateful:
  assumes "command_to_set_value k cmd = Some sv"
  shows "stateful d (report_of n e (sv_property sv) sv) = []"
  using assms
  by (cases k; cases cmd) (auto simp: stateful_def report_of_def cc_defs Let_def split: prod.splits)



section \<open>Presses\<close>

text \<open>
  An action is a notification of the scene class, about a button and a key attribute that the device
  of that endpoint declares under exactly that name.
\<close>

lemma zwave_actions_are_presses:
  "Action d a \<in> set (update_to_events by_node acts u) \<longleftrightarrow>
   vu_notification u \<and> vu_command_class u = cc_central_scene \<and> vu_property u = ''scene'' \<and>
   hm_get by_node (vu_node u, vu_endpoint u) = Some d \<and>
   (\<exists>raw. scene_raw u = Some raw \<and> declared_action acts d raw = Some a)"
proof (cases "hm_get by_node (vu_node u, vu_endpoint u)")
  case (Some d')
  show ?thesis
    by (cases "scene_raw u") (auto simp: update_to_events_def Some scene_action_def split: option.split)
qed (simp add: update_to_events_def)

lemma value_update_notification:
  "value_update_of J node args v notif = Some u \<Longrightarrow> vu_notification u = notif"
  by (auto simp: value_update_of_def bind_eq_Some_conv)

lemma parse_event_notification:
  "parse_event J (Some ev) = Some u \<Longrightarrow> vu_notification u \<longleftrightarrow> field ''event'' jstr ev = Some ''value notification''"
  by (auto simp: parse_event_def event_kind_def bind_eq_Some_conv split: if_splits
      dest!: value_update_notification)

lemma snapshot_notification:
  "u \<in> set (parse_node_snapshot J node) \<Longrightarrow> \<not> vu_notification u"
  by (cases "field ''nodeId'' ju64 node"; cases "field ''values'' jarray node")
    (auto simp: parse_node_snapshot_def List.map_filter_def dest: value_update_notification)

lemma inbound_notification:
  assumes "sj_read J txt = Inr v" and "u \<in> set (parse_inbound J txt)" and "vu_notification u"
  shows "field ''type'' jstr v = Some ''event'' \<and>
    Option.bind (jget ''event'' v) (field ''event'' jstr) = Some ''value notification''"
proof (cases "field ''type'' jstr v = Some ''event''")
  case True
  with assms show ?thesis
    by (cases "jget ''event'' v"; cases "parse_event J (jget ''event'' v)")
      (auto simp: parse_inbound_def parse_event_def [of J None] dest: parse_event_notification)
next
  case False
  with assms show ?thesis
    by (auto simp: parse_inbound_def dest: snapshot_notification split: option.splits)
qed

text \<open>
  C22: no press is replayed. Whatever values a frame carries, an action comes only from a frame that is
  itself a \<open>value notification\<close> event: neither the snapshot of a reconnect nor a value update fires a
  button again.
\<close>

theorem zwave_no_replayed_press:
  assumes "sj_read J txt = Inr v" and "u \<in> set (parse_inbound J txt)"
    and "Action d a \<in> set (update_to_events by_node acts u)"
  shows "field ''type'' jstr v = Some ''event'' \<and>
    Option.bind (jget ''event'' v) (field ''event'' jstr) = Some ''value notification'' \<and>
    (\<exists>raw. scene_raw u = Some raw \<and> declared_action acts d raw = Some a)"
  using assms inbound_notification [OF assms(1,2)] by (simp add: zwave_actions_are_presses)

text \<open>The first button of a scene controller, tapped once.\<close>

definition tap_frame :: "unit json" where
  "tap_frame = JObject
     [(''event'', JObject
        [(''args'', JObject
           [(''commandClass'', JNumber (PosInt 91)), (''property'', JString ''scene''),
            (''propertyKey'', JString ''001''), (''value'', JNumber (PosInt 0))]),
         (''event'', JString ''value notification''), (''nodeId'', JNumber (PosInt 7)),
         (''source'', JString ''node'')]),
      (''type'', JString ''event'')]"

definition tap_text :: "unit json_text" where
  "tap_text = \<lparr>sj_write = (\<lambda>_. None), sj_read = (\<lambda>_. Inr tap_frame), sj_display = (\<lambda>_. [])\<rparr>"

definition tap_update :: "unit value_update" where
  "tap_update =
     \<lparr>vu_node = ZNode 7, vu_endpoint = ZEndpoint 0, vu_command_class = 91, vu_property = ''scene'',
      vu_property_key = Some ''001'', vu_value = JNumber (PosInt 0), vu_notification = True\<rparr>"

theorem zwave_no_replayed_press_witness:
  "parse_inbound tap_text [] = [tap_update] \<and>
   update_to_events [((ZNode 7, ZEndpoint 0), DeviceId 3)] (index_events [(DeviceId 3, ''1:KeyPressed'', ActionId 4)])
     tap_update = [Action (DeviceId 3) (ActionId 4)] \<and>
   scene_raw tap_update = Some ''1:KeyPressed''"
proof -
  have parse: "parse_inbound tap_text [] = [tap_update]"
    by (simp add: parse_inbound_def tap_text_def tap_frame_def field_object jget_object parse_event_def
        event_kind_def value_update_of_def tap_update_def property_string_def endpoint_id_def jstr_def ju64_def)
  have button: "normalize_button ''001'' = ''1''"
    by code_simp
  have raw: "scene_raw tap_update = Some ''1:KeyPressed''"
    by (simp add: scene_raw_def tap_update_def button ju64_def key_attribute_name_def)
  have evs: "update_to_events [((ZNode 7, ZEndpoint 0), DeviceId 3)]
      (index_events [(DeviceId 3, ''1:KeyPressed'', ActionId 4)]) tap_update = [Action (DeviceId 3) (ActionId 4)]"
    by (simp add: update_to_events_def scene_action_def raw index_events_def)
      (simp add: tap_update_def cc_defs)
  from zwave_no_replayed_press [of tap_text "[]" tap_frame tap_update "DeviceId 3" "ActionId 4"
      "[((ZNode 7, ZEndpoint 0), DeviceId 3)]" "index_events [(DeviceId 3, ''1:KeyPressed'', ActionId 4)]"]
    parse evs raw
  show ?thesis
    by (simp add: tap_text_def)
qed

end
