(* ===== verification/Hue.thy ===== *)
theory Hue
  imports Rust_Text Colors
begin

text \<open>
  The two conversions of \<open>color.rs\<close> between sRGB and a hue and saturation of 254 steps, which the code
  computes in \<open>f32\<close>: the operations are those of the table \<open>F\<close>, in the code's order.
\<close>

definition byte_of :: "'f floats \<Rightarrow> int \<Rightarrow> 'f \<Rightarrow> u8" where
  "byte_of F hi x = of_int (fl_cast F 0 255 (fl_clamp F (fl_of F 0) (fl_of F hi) (fl_round F x)))"

definition rgb_to_hue_sat_254 :: "'f floats \<Rightarrow> u8 \<Rightarrow> u8 \<Rightarrow> u8 \<Rightarrow> u8 \<times> u8" where
  "rgb_to_hue_sat_254 F r g b =
     (let rf = fl_div F (fl_of F (uint r)) (fl_of F 255);
          gf = fl_div F (fl_of F (uint g)) (fl_of F 255);
          bf = fl_div F (fl_of F (uint b)) (fl_of F 255);
          mx = fl_max F (fl_max F rf gf) bf;
          mn = fl_min F (fl_min F rf gf) bf;
          delta = fl_sub F mx mn;
          hue_deg =
            (if fl_eq F delta (fl_of F 0) then fl_of F 0
             else if fl_eq F mx rf
               then fl_mul F (fl_of F 60) (fl_rem F (fl_div F (fl_sub F gf bf) delta) (fl_of F 6))
             else if fl_eq F mx gf
               then fl_mul F (fl_of F 60) (fl_add F (fl_div F (fl_sub F bf rf) delta) (fl_of F 2))
             else fl_mul F (fl_of F 60) (fl_add F (fl_div F (fl_sub F rf gf) delta) (fl_of F 4)));
          hue_deg = (if fl_less F hue_deg (fl_of F 0) then fl_add F hue_deg (fl_of F 360) else hue_deg);
          saturation = (if fl_eq F mx (fl_of F 0) then fl_of F 0 else fl_div F delta mx);
          hue = byte_of F 254 (fl_mul F (fl_div F hue_deg (fl_of F 360)) (fl_of F 254));
          sat = byte_of F 254 (fl_mul F saturation (fl_of F 254))
      in (hue, sat))"

definition hue_sat_254_to_rgb :: "'f floats \<Rightarrow> u8 \<Rightarrow> u8 \<Rightarrow> u8 \<times> u8 \<times> u8" where
  "hue_sat_254_to_rgb F hue sat =
     (let h = fl_mul F (fl_div F (fl_of F (uint hue)) (fl_of F 254)) (fl_of F 360);
          s = fl_div F (fl_of F (uint sat)) (fl_of F 254);
          v = fl_of F 1;
          c = fl_mul F v s;
          x = fl_mul F c (fl_sub F (fl_of F 1) (fl_abs F
                (fl_sub F (fl_rem F (fl_div F h (fl_of F 60)) (fl_of F 2)) (fl_of F 1))));
          m = fl_sub F v c;
          z = fl_of F 0;
          (rp, gp, bp) =
            (if fl_less F h (fl_of F 60) then (c, x, z)
             else if fl_less F h (fl_of F 120) then (x, c, z)
             else if fl_less F h (fl_of F 180) then (z, c, x)
             else if fl_less F h (fl_of F 240) then (z, x, c)
             else if fl_less F h (fl_of F 300) then (x, z, c)
             else (c, z, x));
          to_byte = (\<lambda>f. byte_of F 255 (fl_mul F (fl_add F f m) (fl_of F 255)))
      in (to_byte rp, to_byte gp, to_byte bp))"

text \<open>
  A value cast from its clamped range is in the range: what the conversions send fits the 254 steps,
  when the cast of the table is monotone and exact on the integers it clamps to.
\<close>

definition cast_ok :: "'f floats \<Rightarrow> bool" where
  "cast_ok F \<longleftrightarrow>
     (\<forall>x hi. 0 \<le> hi \<and> hi \<le> 255 \<longrightarrow>
        0 \<le> fl_cast F 0 255 (fl_clamp F (fl_of F 0) (fl_of F hi) x) \<and>
        fl_cast F 0 255 (fl_clamp F (fl_of F 0) (fl_of F hi) x) \<le> hi)"

lemma byte_of_le:
  assumes "cast_ok F" and "0 \<le> hi" and "hi \<le> 255"
  shows "uint (byte_of F hi x) \<le> hi"
proof -
  let ?n = "fl_cast F 0 255 (fl_clamp F (fl_of F 0) (fl_of F hi) (fl_round F x))"
  have "0 \<le> ?n" "?n \<le> hi"
    using assms by (simp_all add: cast_ok_def)
  with assms(3) show ?thesis
    by (simp add: byte_of_def uint_word_of_int)
qed

lemma hue_sat_range:
  assumes "cast_ok F"
  shows "uint (fst (rgb_to_hue_sat_254 F r g b)) \<le> 254 \<and> uint (snd (rgb_to_hue_sat_254 F r g b)) \<le> 254"
  using byte_of_le [OF assms] by (simp add: rgb_to_hue_sat_254_def Let_def)

lemma quarter_cast_ok: "cast_ok quarter_floats"
  by (auto simp: cast_ok_def quarter_floats_def fl_clamp_def clamp_def Let_def)

end
