(* ===== verification/Matter.thy ===== *)
theory Matter
  imports Websocket Hue
begin

text \<open>
  The Matter adapter (\<open>adapters/matter.rs\<close>): commands become cluster commands for a node's endpoint,
  attribute reports become reports, and the two halves of a colour are joined.
\<close>

section \<open>Addresses, commands and reports\<close>

datatype mt_node = MNode (mt_node_num: u64)
datatype mt_endpoint = MEndpoint (mt_endpoint_num: u16)

datatype cluster_command =
    OnOff bool
  | ClusterToggle
  | MoveToLevel u8 u16
  | MoveToHueAndSaturation u8 u8 u16
  | MoveToColorTemperature u16 u16

record 'f attr_report =
  at_node :: mt_node
  at_endpoint :: mt_endpoint
  at_cluster :: u32
  at_attribute :: u32
  at_value :: "'f json"

text \<open>The trait \<open>MatterController\<close>.\<close>

record ('c, 'f) matter_controller =
  mc_invoke :: "'c \<Rightarrow> mt_node \<Rightarrow> mt_endpoint \<Rightarrow> cluster_command \<Rightarrow> 'c \<times> (string + unit)"
  mc_poll :: "'c \<Rightarrow> 'c \<times> 'f attr_report list"

section \<open>Commands out\<close>

text \<open>A fade in tenths of a second, cast to 16 bits.\<close>

definition transition_ds :: "millis option \<Rightarrow> u16" where
  "transition_ds tr = (case tr of None \<Rightarrow> 0 | Some ms \<Rightarrow> ucast (ms div 100))"

fun command_to_cluster :: "'f floats \<Rightarrow> command \<Rightarrow> cluster_command option" where
  "command_to_cluster F (SetSwitch _ on) = Some (OnOff on)"
| "command_to_cluster F (ToggleSwitch _) = Some ClusterToggle"
| "command_to_cluster F (SetBrightness _ v tr) = Some (MoveToLevel (ucast (pct_to_level v)) (transition_ds tr))"
| "command_to_cluster F (SetColor _ r g b tr) =
     (let (hue, sat) = rgb_to_hue_sat_254 F r g b in Some (MoveToHueAndSaturation hue sat (transition_ds tr)))"
| "command_to_cluster F (SetColorTemperature _ m tr) = Some (MoveToColorTemperature m (transition_ds tr))"
| "command_to_cluster F _ = None"

section \<open>Reports in\<close>

definition report_state :: "'f attr_report \<Rightarrow> capability_state option" where
  "report_state r =
     (let k = (at_cluster r, at_attribute r); v = at_value r
      in if k = (6, 0) then map_option Switch (jbool v)
         else if k = (8, 0) then map_option (\<lambda>lvl. Brightness (level_to_pct lvl)) (ju64 v)
         else if k = (768, 7) then map_option (\<lambda>m. ColorTemperature (ucast (min m 65535))) (ju64 v)
         else if k = (1030, 0) then map_option (\<lambda>bits. Occupancy (bits mod 2 = 1)) (ju64 v)
         else if k = (47, 12) then map_option (\<lambda>half. Battery (ucast (min (half div 2) 100))) (ju64 v)
         else None)"

definition report_to_events ::
  "(mt_node \<times> mt_endpoint, device_id) hashmap \<Rightarrow> 'f attr_report \<Rightarrow> event list" where
  "report_to_events by_node r =
     (case hm_get by_node (at_node r, at_endpoint r) of
        None \<Rightarrow> []
      | Some d \<Rightarrow> (case report_state r of Some s \<Rightarrow> [StateReported d s] | None \<Rightarrow> []))"

record hue_sat =
  hs_hue :: "u8 option"
  hs_sat :: "u8 option"

definition hue_sat_default :: hue_sat where
  "hue_sat_default = \<lparr>hs_hue = None, hs_sat = None\<rparr>"

definition fold_hue_sat :: "'f floats \<Rightarrow> hue_sat \<Rightarrow> device_id \<Rightarrow> 'f' attr_report \<Rightarrow> hue_sat \<times> event option" where
  "fold_hue_sat F acc d r =
     (case ju64 (at_value r) of
        None \<Rightarrow> (acc, None)
      | Some n \<Rightarrow>
          (let v = (ucast (min n 254) :: u8);
               upd = (if at_attribute r = 8 then Some (acc\<lparr>hs_hue := Some v\<rparr>)
                      else if at_attribute r = 9 then Some (acc\<lparr>hs_sat := Some v\<rparr>)
                      else None)
           in case upd of
                None \<Rightarrow> (acc, None)
              | Some acc \<Rightarrow>
                  (acc, case (hs_hue acc, hs_sat acc) of
                     (Some hue, Some sat) \<Rightarrow>
                       (let (red, green, blue) = hue_sat_254_to_rgb F hue sat
                        in Some (StateReported d (Color red green blue)))
                   | _ \<Rightarrow> None)))"

section \<open>The adapter\<close>

record 'c matter =
  mt_by_id :: "(device_id, mt_node \<times> mt_endpoint) hashmap"
  mt_by_node :: "(mt_node \<times> mt_endpoint, device_id) hashmap"
  mt_hue_sat :: "(device_id, hue_sat) hashmap"
  mt_controller :: 'c

definition new_matter :: "(device_id \<times> mt_node \<times> mt_endpoint) list \<Rightarrow> 'c \<Rightarrow> 'c matter" where
  "new_matter devices c =
     \<lparr>mt_by_id = fold (\<lambda>(d, n, e). hm_insert d (n, e)) devices [],
      mt_by_node = fold (\<lambda>(d, n, e). hm_insert (n, e) d) devices [], mt_hue_sat = [], mt_controller = c\<rparr>"

definition matter_dispatch ::
  "'g floats \<Rightarrow> ('c, 'f) matter_controller \<Rightarrow> 'c matter \<Rightarrow> command \<Rightarrow> millis \<Rightarrow> 'c matter \<times> outcome" where
  "matter_dispatch F C a cmd now =
     (case target_device cmd of
        None \<Rightarrow> (a, Permanent ''command has no target device'')
      | Some d \<Rightarrow>
          (case hm_get (mt_by_id a) d of
             None \<Rightarrow> (a, Permanent ''device is not managed by this adapter'')
           | Some (node, endpoint) \<Rightarrow>
               (case command_to_cluster F cmd of
                  None \<Rightarrow> (a, Permanent ''command unsupported by matter'')
                | Some cc \<Rightarrow>
                    (case mc_invoke C (mt_controller a) node endpoint cc of
                       (c, Inr _) \<Rightarrow> (a\<lparr>mt_controller := c\<rparr>, outcome_ok)
                     | (c, Inl e) \<Rightarrow> (a\<lparr>mt_controller := c\<rparr>, Transient e)))))"

text \<open>One report of a tick: the colour halves are folded into the adapter, the others translated.\<close>

definition is_hue_sat :: "'f attr_report \<Rightarrow> bool" where
  "is_hue_sat r \<longleftrightarrow> at_cluster r = 768 \<and> (at_attribute r = 8 \<or> at_attribute r = 9)"

definition matter_report ::
  "'g floats \<Rightarrow> (mt_node \<times> mt_endpoint, device_id) hashmap \<Rightarrow> 'f attr_report \<Rightarrow>
   (device_id, hue_sat) hashmap \<times> event list \<Rightarrow> (device_id, hue_sat) hashmap \<times> event list" where
  "matter_report F by_node r = (\<lambda>(hs, evs).
     if is_hue_sat r then
       (case hm_get by_node (at_node r, at_endpoint r) of
          None \<Rightarrow> (hs, evs)
        | Some d \<Rightarrow>
            (let acc = (case hm_get hs d of Some acc \<Rightarrow> acc | None \<Rightarrow> hue_sat_default);
                 (acc, ev) = fold_hue_sat F acc d r
             in (hm_insert d acc hs, evs @ (case ev of Some e \<Rightarrow> [e] | None \<Rightarrow> []))))
     else (hs, evs @ report_to_events by_node r))"

definition matter_tick ::
  "'g floats \<Rightarrow> ('c, 'f) matter_controller \<Rightarrow> 'c matter \<Rightarrow> millis \<Rightarrow> 'c matter \<times> event list" where
  "matter_tick F C a now =
     (let (c, rs) = mc_poll C (mt_controller a);
          (hs, evs) = fold (matter_report F (mt_by_node a)) rs (mt_hue_sat a, [])
      in (a\<lparr>mt_controller := c, mt_hue_sat := hs\<rparr>, evs))"

definition matter_ops :: "'g floats \<Rightarrow> ('c, 'f) matter_controller \<Rightarrow> 'c matter adapter_ops" where
  "matter_ops F C =
     \<lparr>op_dispatch = matter_dispatch F C, op_tick = matter_tick F C, op_next_wake = default_next_wake\<rparr>"

section \<open>Frames out\<close>

definition cluster_payload :: "cluster_command \<Rightarrow> u32 \<times> string \<times> 'f json" where
  "cluster_payload cc =
     (case cc of
        OnOff on \<Rightarrow> (6, if on then ''On'' else ''Off'', object [])
      | ClusterToggle \<Rightarrow> (6, ''Toggle'', object [])
      | MoveToLevel level ds \<Rightarrow>
          (8, ''MoveToLevelWithOnOff'', object [(''level'', json_uint level), (''transitionTime'', json_uint ds)])
      | MoveToHueAndSaturation hue sat ds \<Rightarrow>
          (768, ''MoveToHueAndSaturation'',
           object [(''hue'', json_uint hue), (''saturation'', json_uint sat), (''transitionTime'', json_uint ds)])
      | MoveToColorTemperature m ds \<Rightarrow>
          (768, ''MoveToColorTemperature'',
           object [(''colorTemperatureMireds'', json_uint m), (''transitionTime'', json_uint ds)]))"

definition invoke_frame :: "mt_node \<Rightarrow> mt_endpoint \<Rightarrow> cluster_command \<Rightarrow> u64 \<Rightarrow> 'f json" where
  "invoke_frame node endpoint cc i =
     (let (cluster, name, payload) = cluster_payload cc
      in object
           [(''message_id'', JString (decimal (unat i))), (''command'', JString ''device_command''),
            (''args'', object
               [(''node_id'', json_uint (mt_node_num node)), (''endpoint_id'', json_uint (mt_endpoint_num endpoint)),
                (''cluster_id'', json_uint cluster), (''command_name'', JString name), (''payload'', payload)])])"

definition ws_invoke ::
  "'f json_text \<Rightarrow> 'u ws_handle \<Rightarrow> mt_node \<Rightarrow> mt_endpoint \<Rightarrow> cluster_command \<Rightarrow> 'u ws_handle \<times> (string + unit)" where
  "ws_invoke J h node endpoint cc =
     ws_send ''matter transport thread is gone'' (\<lambda>i. sj_display J (invoke_frame node endpoint cc i)) h"

definition matter_server_ws :: "'f json_text \<Rightarrow> ('f attr_report ws_handle, 'f) matter_controller" where
  "matter_server_ws J = \<lparr>mc_invoke = ws_invoke J, mc_poll = ws_poll\<rparr>"

definition start_listening :: "'f json_text \<Rightarrow> string" where
  "start_listening J =
     sj_display J (object [(''message_id'', JString ''start_listening''), (''command'', JString ''start_listening'')])"

section \<open>Frames in\<close>

definition parse_path :: "string \<Rightarrow> (u16 \<times> u32 \<times> u32) option" where
  "parse_path path =
     (case split_on (\<lambda>c. c = CHR ''/'') path of
        e # c # a # _ \<Rightarrow>
          Option.bind (parse_uint (2 ^ 16) e) (\<lambda>e. Option.bind (parse_uint (2 ^ 32) c) (\<lambda>c.
          Option.bind (parse_uint (2 ^ 32) a) (\<lambda>a. Some (of_nat e, of_nat c, of_nat a))))
      | _ \<Rightarrow> None)"

definition attr_report_of :: "u64 \<Rightarrow> u16 \<times> u32 \<times> u32 \<Rightarrow> 'f json \<Rightarrow> 'f attr_report" where
  "attr_report_of node = (\<lambda>(e, c, a) v.
     \<lparr>at_node = MNode node, at_endpoint = MEndpoint e, at_cluster = c, at_attribute = a, at_value = v\<rparr>)"

definition parse_attribute_updated :: "'f json list \<Rightarrow> 'f attr_report option" where
  "parse_attribute_updated data =
     (case data of
        n # p # v # _ \<Rightarrow>
          Option.bind (ju64 n) (\<lambda>node. Option.bind (Option.bind (jstr p) parse_path) (\<lambda>path.
            Some (attr_report_of node path v)))
      | _ \<Rightarrow> None)"

definition matter_node_snapshot :: "'f json \<Rightarrow> 'f attr_report list" where
  "matter_node_snapshot node =
     (case (field ''node_id'' ju64 node, field ''attributes'' jobject node) of
        (Some n, Some attrs) \<Rightarrow>
          List.map_filter (\<lambda>(path, v). map_option (\<lambda>p. attr_report_of n p v) (parse_path path)) attrs
      | _ \<Rightarrow> [])"

definition matter_parse_inbound :: "'f json_text \<Rightarrow> string \<Rightarrow> 'f attr_report list" where
  "matter_parse_inbound J txt =
     (case sj_read J txt of
        Inl _ \<Rightarrow> []
      | Inr v \<Rightarrow>
          if field ''event'' jstr v = Some ''attribute_updated''
          then (case Option.bind (field ''data'' jarray v) parse_attribute_updated of Some r \<Rightarrow> [r] | None \<Rightarrow> [])
          else (case field ''result'' jarray v of
             Some nodes \<Rightarrow> concat (map matter_node_snapshot nodes)
           | None \<Rightarrow> []))"

text \<open>The background thread of this adapter: the shared pump with this parser.\<close>

definition matter_pump ::
  "'f json_text \<Rightarrow> bool \<Rightarrow> ws_event \<Rightarrow> 'f attr_report ws_effect list \<times> pump_result" where
  "matter_pump J has_waker ev = pump_step (matter_parse_inbound J) has_waker ev"

section \<open>Registration\<close>

definition matter_targets :: "device_def list \<Rightarrow> (device_id \<times> mt_node \<times> mt_endpoint) list" where
  "matter_targets ds =
     List.map_filter (\<lambda>d. map_option (\<lambda>n.
       (dd_id d, MNode (of_nat n), MEndpoint (case dd_endpoint d of Some e \<Rightarrow> e | None \<Rightarrow> 1)))
       (node_of (2 ^ 64) d)) ds"

definition matter_build ::
  "('n yaml \<Rightarrow> string + url_config) \<Rightarrow> (string \<Rightarrow> 'w option \<Rightarrow> 'c) \<Rightarrow> 'n yaml \<Rightarrow> device_def list \<Rightarrow>
   'w option \<Rightarrow> 'c matter option" where
  "matter_build de connect config ds waker =
     (let cfg = (case de config of Inr c \<Rightarrow> c | Inl _ \<Rightarrow> \<lparr>uc_url = ''''\<rparr>)
      in Some (new_matter (matter_targets ds) (connect (uc_url cfg) waker)))"

definition matter_plugin ::
  "('n yaml \<Rightarrow> string + url_config) \<Rightarrow> (string \<Rightarrow> 'w option \<Rightarrow> 'c) \<Rightarrow> ('n, 'c matter, 'b, 'w) plugin" where
  "matter_plugin de connect =
     (default_plugin ''matter'')
       \<lparr>validate_config := validate_ws_config ''matter controller'' de,
        validate_device := (\<lambda>_. validate_node_id
          ''matter devices need an `address` (the decimal node_id from commissioning)'' ''matter'' (2 ^ 64)),
        build := matter_build de connect\<rparr>"

end
