(* ===== verification/Matter_Props.thy ===== *)
theory Matter_Props
  imports Matter
begin

text \<open>
  What the Matter adapter promises: how the state a command asks for is read back, what a fade becomes,
  and that a colour is reported exactly when both its halves are known, from the last of each.
\<close>

section \<open>Read back\<close>

interpretation matter_quiet: quiet_dispatch "matter_dispatch F C"
  by unfold_locales (auto simp: matter_dispatch_def outcome_ok_def split: option.splits prod.splits sum.splits)

text \<open>The attributes a device changes when it has carried out a cluster command, and their values.\<close>

fun settled :: "cluster_command \<Rightarrow> (u32 \<times> u32 \<times> 'f json) list" where
  "settled (OnOff on) = [(6, 0, JBool on)]"
| "settled ClusterToggle = []"
| "settled (MoveToLevel level _) = [(8, 0, json_uint level)]"
| "settled (MoveToHueAndSaturation hue sat _) = [(768, 8, json_uint hue), (768, 9, json_uint sat)]"
| "settled (MoveToColorTemperature m _) = [(768, 7, json_uint m)]"

definition settled_reports :: "mt_node \<Rightarrow> mt_endpoint \<Rightarrow> cluster_command \<Rightarrow> 'f attr_report list" where
  "settled_reports n e cc =
     map (\<lambda>(c, a, v). \<lparr>at_node = n, at_endpoint = e, at_cluster = c, at_attribute = a, at_value = v\<rparr>) (settled cc)"

lemma level_u8: "level_to_pct (ucast (ucast (pct_to_level v) :: u8)) = level_to_pct (pct_to_level v)"
proof -
  have "unat (pct_to_level v) \<le> 254"
    using pct_level_roundtrip [of v] by simp
  then have "unat (ucast (ucast (pct_to_level v) :: u8) :: u64) = unat (pct_to_level v)"
    by (simp add: unat_ucast_up unat_ucast_mod)
  then show ?thesis
    by (simp add: word_unat_eq_iff [symmetric])
qed


definition one_poll :: "unit attr_report list \<Rightarrow> (unit, unit) matter_controller" where
  "one_poll rs = \<lparr>mc_invoke = (\<lambda>c _ _ _. (c, Inr ())), mc_poll = (\<lambda>c. (c, rs))\<rparr>"


section \<open>Fades\<close>

text \<open>
  A fade is sent in tenths of a second, rounded down, as long as it is shorter than 6553.6 seconds; a
  longer one wraps around, so that two hours become little more than ten minutes.
\<close>

theorem matter_fade:
  "unat (transition_ds (Some ms)) = unat ms div 100 mod 65536 \<and>
   (unat ms < 6553600 \<longleftrightarrow> unat (transition_ds (Some ms)) = unat ms div 100) \<and>
   unat (transition_ds (Some 7200000)) = 6464"
proof (intro conjI)
  have ds: "unat (transition_ds (Some ms)) = unat ms div 100 mod 65536" for ms
    by (simp add: transition_ds_def unat_ucast_mod unat_div)
  show "unat (transition_ds (Some ms)) = unat ms div 100 mod 65536"
    by (rule ds)
  have "unat ms < 6553600 \<longleftrightarrow> unat ms div 100 < 65536"
    by (simp add: div_less_iff_less_mult)
  also have "\<dots> \<longleftrightarrow> unat ms div 100 mod 65536 = unat ms div 100"
    by (metis mod_less mod_less_divisor zero_less_numeral)
  finally show "unat ms < 6553600 \<longleftrightarrow> unat (transition_ds (Some ms)) = unat ms div 100"
    by (simp add: ds)
  show "unat (transition_ds (Some 7200000)) = 6464"
    by (simp add: ds)
qed

section \<open>Joining a colour\<close>

text \<open>
  The last value of an attribute a device has reported, cut to the 254 steps; a report of something that
  is not a number does not count.
\<close>

definition reports_half :: "(mt_node \<times> mt_endpoint, device_id) hashmap \<Rightarrow> device_id \<Rightarrow> u32 \<Rightarrow> 'f attr_report \<Rightarrow> u8 option" where
  "reports_half by_node d attr r =
     (if at_cluster r = 768 \<and> at_attribute r = attr \<and> hm_get by_node (at_node r, at_endpoint r) = Some d
      then map_option (\<lambda>n. ucast (min n 254)) (ju64 (at_value r)) else None)"

fun last_half ::
  "(mt_node \<times> mt_endpoint, device_id) hashmap \<Rightarrow> device_id \<Rightarrow> u32 \<Rightarrow> 'f attr_report list \<Rightarrow> u8 option" where
  "last_half by_node d attr [] = None"
| "last_half by_node d attr (r # rs) =
     (case last_half by_node d attr rs of Some v \<Rightarrow> Some v | None \<Rightarrow> reports_half by_node d attr r)"

lemma last_half_snoc:
  "last_half by_node d attr (rs @ [r]) =
     (case reports_half by_node d attr r of Some v \<Rightarrow> Some v | None \<Rightarrow> last_half by_node d attr rs)"
  by (induction rs) (auto split: option.splits)

definition hue_sat_of :: "(device_id, hue_sat) hashmap \<Rightarrow> device_id \<Rightarrow> hue_sat" where
  "hue_sat_of hs d = (case hm_get hs d of Some acc \<Rightarrow> acc | None \<Rightarrow> hue_sat_default)"

lemma matter_report_half:
  "hs_hue (hue_sat_of (fst (matter_report F by_node r st)) d) =
     (case reports_half by_node d 8 r of Some v \<Rightarrow> Some v | None \<Rightarrow> hs_hue (hue_sat_of (fst st) d))"
  "hs_sat (hue_sat_of (fst (matter_report F by_node r st)) d) =
     (case reports_half by_node d 9 r of Some v \<Rightarrow> Some v | None \<Rightarrow> hs_sat (hue_sat_of (fst st) d))"
  by (cases st; auto simp: matter_report_def is_hue_sat_def reports_half_def hue_sat_of_def fold_hue_sat_def
      Let_def split: option.splits prod.splits)+

text \<open>
  Over any sequence of reports the adapter holds, for each device, the last hue and the last
  saturation that device reported; and a report of one half adds a colour to the events exactly when
  the other half is known by then.
\<close>

theorem matter_color_halves:
  assumes d: "hm_get by_node (at_node r, at_endpoint r) = Some d" and r: "is_hue_sat r"
  shows "hs_hue (hue_sat_of (fst (fold (matter_report F by_node) rs ([], evs))) d) = last_half by_node d 8 rs \<and>
    hs_sat (hue_sat_of (fst (fold (matter_report F by_node) rs ([], evs))) d) = last_half by_node d 9 rs \<and>
    snd (fold (matter_report F by_node) (rs @ [r]) ([], evs)) =
     snd (fold (matter_report F by_node) rs ([], evs)) @
     (case (ju64 (at_value r), last_half by_node d 8 (rs @ [r]), last_half by_node d 9 (rs @ [r])) of
        (Some _, Some hue, Some sat) \<Rightarrow>
          (let (red, green, blue) = hue_sat_254_to_rgb F hue sat in [StateReported d (Color red green blue)])
      | _ \<Rightarrow> [])"
proof -
  have halves: "hs_hue (hue_sat_of (fst (fold (matter_report F by_node) rs ([], evs))) d) = last_half by_node d 8 rs \<and>
    hs_sat (hue_sat_of (fst (fold (matter_report F by_node) rs ([], evs))) d) = last_half by_node d 9 rs" for rs
  proof (induction rs rule: rev_induct)
    case Nil
    then show ?case
      by (simp add: hue_sat_of_def hue_sat_default_def)
  next
    case (snoc r rs)
    then show ?case
      by (simp add: matter_report_half last_half_snoc split: option.split)
  qed
  obtain hs es where st: "fold (matter_report F by_node) rs ([], evs) = (hs, es)"
    by fastforce
  have acc: "hs_hue (hue_sat_of hs d) = last_half by_node d 8 rs" "hs_sat (hue_sat_of hs d) = last_half by_node d 9 rs"
    using halves [of rs] by (simp_all add: st)
  have "snd (fold (matter_report F by_node) (rs @ [r]) ([], evs)) =
     snd (fold (matter_report F by_node) rs ([], evs)) @
     (case (ju64 (at_value r), last_half by_node d 8 (rs @ [r]), last_half by_node d 9 (rs @ [r])) of
        (Some _, Some hue, Some sat) \<Rightarrow>
          (let (red, green, blue) = hue_sat_254_to_rgb F hue sat in [StateReported d (Color red green blue)])
      | _ \<Rightarrow> [])"
    using r acc
    by (auto simp: st d matter_report_def is_hue_sat_def last_half_snoc reports_half_def hue_sat_of_def [symmetric]
        fold_hue_sat_def Let_def split: option.splits prod.splits)
  with halves [of rs] show ?thesis
    by blast
qed

text \<open>A lamp reports its hue, and then its saturation: the colour is red.\<close>

definition half_report :: "u32 \<Rightarrow> u64 \<Rightarrow> unit attr_report" where
  "half_report attr n =
     \<lparr>at_node = MNode 5, at_endpoint = MEndpoint 1, at_cluster = 768, at_attribute = attr,
      at_value = JNumber (PosInt n)\<rparr>"

theorem matter_color_halves_witness:
  "snd (fold (matter_report quarter_floats [((MNode 5, MEndpoint 1), DeviceId 3)])
     ([half_report 8 0] @ [half_report 9 254]) ([], [])) = [StateReported (DeviceId 3) (Color 255 0 0)]"
proof -
  let ?by = "[((MNode 5, MEndpoint 1), DeviceId 3)]"
  have rgb: "hue_sat_254_to_rgb quarter_floats 0 254 = (255, 0, 0)"
    by (simp add: hue_sat_254_to_rgb_def quarter_floats_def byte_of_def fl_clamp_def clamp_def Let_def)
  have d: "hm_get ?by (at_node (half_report 9 254), at_endpoint (half_report 9 254)) = Some (DeviceId 3)"
    and r: "is_hue_sat (half_report 9 254)"
    by (simp_all add: half_report_def is_hue_sat_def)
  have half: "last_half ?by (DeviceId 3) 8 ([half_report 8 0] @ [half_report 9 254]) = Some 0"
    "last_half ?by (DeviceId 3) 9 ([half_report 8 0] @ [half_report 9 254]) = Some 254"
    "ju64 (at_value (half_report 9 254)) = Some 254"
    "snd (fold (matter_report quarter_floats ?by) [half_report 8 0] ([], [])) = []"
    by (simp_all add: half_report_def reports_half_def ju64_def matter_report_def is_hue_sat_def
        fold_hue_sat_def hue_sat_default_def Let_def)
  show ?thesis
    using matter_color_halves [OF d r, of quarter_floats "[half_report 8 0]" "[]"] unfolding half by (simp add: rgb)
qed

end
