(* ===== verification/Rest_Stream.thy ===== *)
theory Rest_Stream
  imports Actions
begin

text \<open>
  The event stream (\<open>adapters/rest_api/stream.rs\<close>): a registry of subscribers, each with a bounded queue
  that drops its oldest frame, and the proof that a subscriber sees the newest frames of the broadcast
  and is told when it missed some. Every operation holds the registry's mutex throughout, so that an
  interleaving of threads is a sequence of operations.
\<close>

section \<open>Frames\<close>

record 'f frame =
  fr_event :: string
  fr_data :: "'f json"

definition newline :: string where
  "newline = [char_of (10 :: nat)]"

definition encode :: "'f json_text \<Rightarrow> 'f frame \<Rightarrow> string" where
  "encode J f =
     (let data = (case sj_write J (fr_data f) of Some s \<Rightarrow> s | None \<Rightarrow> ''null'')
      in ''event: '' @ fr_event f @ newline @ ''data: '' @ data @ newline @ newline)"

definition state_frame :: "string \<Rightarrow> string \<Rightarrow> 'f json \<Rightarrow> 'f frame" where
  "state_frame device capability v =
     \<lparr>fr_event = ''state'',
      fr_data = object [(''device'', JString device), (''capability'', JString capability), (''value'', v)]\<rparr>"

definition rule_frame :: "string \<Rightarrow> string \<Rightarrow> bool \<Rightarrow> 'f frame" where
  "rule_frame rule truth fired =
     \<lparr>fr_event = ''rule'',
      fr_data = object [(''rule'', JString rule), (''truth'', JString truth), (''fired'', JBool fired)]\<rparr>"

definition action_frame :: "string \<Rightarrow> string \<Rightarrow> u32 \<Rightarrow> 'f frame" where
  "action_frame device event depth =
     \<lparr>fr_event = ''action'',
      fr_data = object [(''device'', JString device), (''event'', JString event), (''depth'', json_uint depth)]\<rparr>"

definition command_failed_frame :: "'f json \<Rightarrow> string \<Rightarrow> u32 \<Rightarrow> 'f frame" where
  "command_failed_frame command reason attempts =
     \<lparr>fr_event = ''command_failed'',
      fr_data = object [(''command'', command), (''reason'', JString reason), (''attempts'', json_uint attempts)]\<rparr>"

definition snapshot_frame :: "'f json \<Rightarrow> 'f frame" where
  "snapshot_frame devices = \<lparr>fr_event = ''snapshot'', fr_data = object [(''devices'', devices)]\<rparr>"

definition lagged_frame :: "'f frame" where
  "lagged_frame =
     \<lparr>fr_event = ''lagged'',
      fr_data = object [(''message'', JString ''frames were dropped; re-sync with GET /devices'')]\<rparr>"

section \<open>The registry\<close>

definition queue_capacity :: nat where
  "queue_capacity = 256"

record 'f subscriber =
  sb_id :: u64
  sb_queue :: "'f frame list"
  sb_lagged :: bool
  sb_live :: bool

text \<open>The registry under the mutex, and the two atomics beside it.\<close>

record 'f broadcaster =
  bc_subscribers :: "'f subscriber list"
  bc_next_id :: u64
  bc_count :: u64
  bc_shutdown :: bool

definition new_broadcaster :: "'f broadcaster" where
  "new_broadcaster = \<lparr>bc_subscribers = [], bc_next_id = 0, bc_count = 0, bc_shutdown = False\<rparr>"

text \<open>
  The registry is changed under the mutex, and the count is stored in the atomic after the mutex is
  released: two steps, between which other threads may run. What the second one stores is what the first
  one saw.
\<close>

definition subscribe_locked :: "'f broadcaster \<Rightarrow> 'f broadcaster \<times> u64 \<times> u64" where
  "subscribe_locked b =
     (let i = bc_next_id b;
          subs = bc_subscribers b @ [\<lparr>sb_id = i, sb_queue = [], sb_lagged = False, sb_live = True\<rparr>]
      in (b\<lparr>bc_next_id := i + 1, bc_subscribers := subs\<rparr>, i, of_nat (length subs)))"

definition store_count :: "u64 \<Rightarrow> 'f broadcaster \<Rightarrow> 'f broadcaster" where
  "store_count n b = b\<lparr>bc_count := n\<rparr>"

definition subscribe :: "'f broadcaster \<Rightarrow> 'f broadcaster \<times> u64" where
  "subscribe b = (case subscribe_locked b of (b, i, n) \<Rightarrow> (store_count n b, i))"

lemma subscribe_eq:
  "subscribe b =
     (let i = bc_next_id b;
          subs = bc_subscribers b @ [\<lparr>sb_id = i, sb_queue = [], sb_lagged = False, sb_live = True\<rparr>]
      in (b\<lparr>bc_next_id := i + 1, bc_subscribers := subs, bc_count := of_nat (length subs)\<rparr>, i))"
  by (simp add: subscribe_def subscribe_locked_def store_count_def Let_def)

definition push_frame :: "'f frame \<Rightarrow> 'f subscriber \<Rightarrow> 'f subscriber" where
  "push_frame f sub =
     (if \<not> sb_live sub then sub
      else
        (let sub = (if queue_capacity \<le> length (sb_queue sub)
                    then sub\<lparr>sb_queue := tl (sb_queue sub), sb_lagged := True\<rparr> else sub)
         in sub\<lparr>sb_queue := sb_queue sub @ [f]\<rparr>))"

definition broadcast :: "'f frame \<Rightarrow> 'f broadcaster \<Rightarrow> 'f broadcaster" where
  "broadcast f b = b\<lparr>bc_subscribers := map (push_frame f) (bc_subscribers b)\<rparr>"

definition remove_locked :: "u64 \<Rightarrow> 'f broadcaster \<Rightarrow> 'f broadcaster \<times> u64" where
  "remove_locked i b =
     (let subs = filter (\<lambda>s. sb_id s \<noteq> i) (bc_subscribers b)
      in (b\<lparr>bc_subscribers := subs\<rparr>, of_nat (length subs)))"

definition remove_subscriber :: "u64 \<Rightarrow> 'f broadcaster \<Rightarrow> 'f broadcaster" where
  "remove_subscriber i b = (case remove_locked i b of (b, n) \<Rightarrow> store_count n b)"

lemma remove_eq:
  "remove_subscriber i b =
     (let subs = filter (\<lambda>s. sb_id s \<noteq> i) (bc_subscribers b)
      in b\<lparr>bc_subscribers := subs, bc_count := of_nat (length subs)\<rparr>)"
  by (simp add: remove_subscriber_def remove_locked_def store_count_def Let_def)

definition shutdown_stream :: "'f broadcaster \<Rightarrow> 'f broadcaster" where
  "shutdown_stream b = b\<lparr>bc_shutdown := True\<rparr>"

datatype 'f batch = BatchFrames "'f frame list" bool | BatchIdle | BatchDone

text \<open>The updated first subscriber with this id (\<open>iter_mut().find(..)\<close>).\<close>

fun update_first :: "('a \<Rightarrow> bool) \<Rightarrow> ('a \<Rightarrow> 'a) \<Rightarrow> 'a list \<Rightarrow> 'a list" where
  "update_first p f [] = []"
| "update_first p f (x # xs) = (if p x then f x # xs else x # update_first p f xs)"

text \<open>One round of the loop of \<open>next_batch\<close>: a result, or \<open>None\<close> when the thread has to wait.\<close>

definition poll_batch :: "u64 \<Rightarrow> 'f broadcaster \<Rightarrow> 'f broadcaster \<times> 'f batch option" where
  "poll_batch i b =
     (if bc_shutdown b then (b, Some BatchDone)
      else (case find (\<lambda>s. sb_id s = i) (bc_subscribers b) of
         None \<Rightarrow> (b, Some BatchDone)
       | Some sub \<Rightarrow>
           if sb_queue sub \<noteq> [] \<or> sb_lagged sub
           then (b\<lparr>bc_subscribers := update_first (\<lambda>s. sb_id s = i)
                    (\<lambda>s. s\<lparr>sb_queue := [], sb_lagged := False\<rparr>) (bc_subscribers b)\<rparr>,
                 Some (BatchFrames (sb_queue sub) (sb_lagged sub)))
           else (b, None)))"

text \<open>
  The whole call: each wait ends with what the other threads did meanwhile and whether it timed out.
  \<open>None\<close>: the thread is still waiting when the listed waits are over.
\<close>

fun next_batch ::
  "u64 \<Rightarrow> (('f broadcaster \<Rightarrow> 'f broadcaster) \<times> bool) list \<Rightarrow> 'f broadcaster \<Rightarrow>
   ('f broadcaster \<times> 'f batch) option" where
  "next_batch i waits b =
     (case poll_batch i b of
        (b, Some r) \<Rightarrow> Some (b, r)
      | (b, None) \<Rightarrow>
          (case waits of
             [] \<Rightarrow> None
           | (others, timed_out) # waits \<Rightarrow>
               if timed_out then Some (others b, BatchIdle) else next_batch i waits (others b)))"

declare next_batch.simps [simp del]

section \<open>What a subscriber sees\<close>

text \<open>
  The contract: a subscriber has a list of pending frames. Taking a batch gives the newest of them, as
  many as the queue holds, with a notice when there were more, and leaves none pending.
\<close>

definition newest :: "'a list \<Rightarrow> 'a list" where
  "newest p = drop (length p - queue_capacity) p"

definition represents :: "'f subscriber \<Rightarrow> 'f frame list \<Rightarrow> bool" where
  "represents sub p \<longleftrightarrow>
     sb_live sub \<and> sb_queue sub = newest p \<and> (sb_lagged sub \<longleftrightarrow> queue_capacity < length p)"

lemma newest_nil [simp]: "newest [] = []"
  by (simp add: newest_def)

lemma newest_eq_nil: "newest p = [] \<longleftrightarrow> p = []"
  by (cases "length p \<le> 256") (auto simp: newest_def queue_capacity_def)

lemma length_newest: "length (newest p) = min (length p) queue_capacity"
  by (simp add: newest_def)

lemma newest_snoc:
  "newest (p @ [f]) =
     (if queue_capacity \<le> length (newest p) then tl (newest p) else newest p) @ [f]"
proof (cases "queue_capacity \<le> length p")
  case True
  then have "length (p @ [f]) - queue_capacity = Suc (length p - queue_capacity)"
    by simp
  moreover from True have "queue_capacity \<le> length (newest p)"
    by (simp add: length_newest)
  ultimately show ?thesis
    using True by (simp add: newest_def drop_Suc tl_drop queue_capacity_def)
qed (simp add: newest_def)

lemma represents_push:
  assumes "represents sub p"
  shows "represents (push_frame f sub) (p @ [f])"
proof -
  have "queue_capacity \<le> length (newest p) \<longleftrightarrow> queue_capacity \<le> length p"
    by (simp add: length_newest)
  with assms show ?thesis
    by (auto simp: represents_def push_frame_def newest_snoc)
qed

lemma represents_empty: "represents \<lparr>sb_id = i, sb_queue = [], sb_lagged = False, sb_live = True\<rparr> []"
  by (simp add: represents_def)

text \<open>The operations on the registry, as any thread performs them, and the batches taken by one subscriber.\<close>

datatype 'f stream_op = Broadcast "'f frame" | Take u64 | Subscribe | Remove u64

definition stream_step :: "'f stream_op \<Rightarrow> 'f broadcaster \<Rightarrow> 'f broadcaster" where
  "stream_step op b =
     (case op of
        Broadcast f \<Rightarrow> broadcast f b
      | Take i \<Rightarrow> fst (poll_batch i b)
      | Subscribe \<Rightarrow> fst (subscribe b)
      | Remove i \<Rightarrow> remove_subscriber i b)"

fun batches :: "u64 \<Rightarrow> 'f stream_op list \<Rightarrow> 'f broadcaster \<Rightarrow> 'f batch option list" where
  "batches i [] b = []"
| "batches i (op # ops) b =
     (case op of Take j \<Rightarrow> if j = i then [snd (poll_batch i b)] else [] | _ \<Rightarrow> []) @
     batches i ops (stream_step op b)"

text \<open>The contract, over the same operations: only the broadcast and the subscriber's own batches count.\<close>

fun spec_batches :: "u64 \<Rightarrow> 'f stream_op list \<Rightarrow> 'f frame list \<Rightarrow> 'f batch option list" where
  "spec_batches i [] p = []"
| "spec_batches i (Broadcast f # ops) p = spec_batches i ops (p @ [f])"
| "spec_batches i (Take j # ops) p =
     (if j = i
      then (if p = [] then None else Some (BatchFrames (newest p) (queue_capacity < length p))) # spec_batches i ops []
      else spec_batches i ops p)"
| "spec_batches i (_ # ops) p = spec_batches i ops p"

text \<open>A registry in which the subscriber holds these pending frames, and ids are not reused.\<close>

definition holds :: "u64 \<Rightarrow> 'f frame list \<Rightarrow> 'f broadcaster \<Rightarrow> bool" where
  "holds i p b \<longleftrightarrow>
     \<not> bc_shutdown b \<and> distinct (map sb_id (bc_subscribers b)) \<and>
     list_all (\<lambda>s. sb_id s < bc_next_id b) (bc_subscribers b) \<and>
     (\<exists>s. s \<in> set (bc_subscribers b) \<and> sb_id s = i \<and> represents s p)"

lemma push_frame_id [simp]: "sb_id (push_frame f s) = sb_id s"
  by (simp add: push_frame_def Let_def)

lemma update_first_ids [simp]:
  "(\<And>s. sb_id (g s) = sb_id s) \<Longrightarrow> map sb_id (update_first p g ss) = map sb_id ss"
  by (induction ss) auto

lemma update_first_mem:
  "distinct (map sb_id ss) \<Longrightarrow> s \<in> set ss \<Longrightarrow>
    (if sb_id s = j then g s else s) \<in> set (update_first (\<lambda>s. sb_id s = j) g ss)"
proof (induction ss)
  case (Cons t ss)
  show ?case
  proof (cases "s = t")
    case False
    with Cons.prems have s: "s \<in> set ss"
      by simp
    with Cons.prems(1) have "sb_id s \<noteq> sb_id t"
      by (metis distinct.simps(2) imageI list.set_map list.simps(9))
    with Cons.IH Cons.prems(1) s show ?thesis
      by (auto split: if_splits)
  qed simp
qed simp

lemma find_id:
  "distinct (map sb_id ss) \<Longrightarrow> s \<in> set ss \<Longrightarrow> find (\<lambda>t. sb_id t = sb_id s) ss = Some s"
  by (induction ss) force+

lemma all_ids: "list_all (\<lambda>s. sb_id s < n) ss \<longleftrightarrow> list_all (\<lambda>j. j < n) (map sb_id ss)"
  by (simp add: list_all_iff)

lemma holds_broadcast: "holds i p b \<Longrightarrow> holds i (p @ [f]) (broadcast f b)"
  using represents_push by (fastforce simp: holds_def broadcast_def comp_def list_all_iff)

lemma holds_subscribe:
  assumes "holds i p b" and "Suc (unat (bc_next_id b)) < 2 ^ 64"
  shows "holds i p (fst (subscribe b))"
proof -
  have next_id: "unat (bc_next_id b + 1) = Suc (unat (bc_next_id b))"
    using assms(2) by (intro unat_Suc_word) simp
  then show ?thesis
    using assms(1)
    by (auto simp: holds_def subscribe_eq Let_def list_all_iff word_less_nat_alt intro: less_SucI)
qed

lemma holds_remove: "holds i p b \<Longrightarrow> j \<noteq> i \<Longrightarrow> holds i p (remove_subscriber j b)"
  by (auto simp: holds_def remove_eq Let_def list_all_iff distinct_map_filter)

lemma holds_poll:
  assumes "holds i p b"
  shows "snd (poll_batch i b) =
      (if p = [] then None else Some (BatchFrames (newest p) (queue_capacity < length p)))"
    and "holds i (if j = i then [] else p) (fst (poll_batch j b))"
proof -
  obtain s where s: "s \<in> set (bc_subscribers b)" "sb_id s = i" "represents s p"
    and b: "\<not> bc_shutdown b" "distinct (map sb_id (bc_subscribers b))"
      "list_all (\<lambda>s. sb_id s < bc_next_id b) (bc_subscribers b)"
    using assms by (auto simp: holds_def)
  have find: "find (\<lambda>t. sb_id t = i) (bc_subscribers b) = Some s"
    using find_id [OF b(2) s(1)] s(2) by simp
  show "snd (poll_batch i b) =
      (if p = [] then None else Some (BatchFrames (newest p) (queue_capacity < length p)))"
    using b(1) s(3) by (auto simp: poll_batch_def find represents_def newest_eq_nil)
  let ?g = "\<lambda>s. s\<lparr>sb_queue := [], sb_lagged := False\<rparr>"
  let ?subs = "update_first (\<lambda>s. sb_id s = j) ?g (bc_subscribers b)"
  have ids: "map sb_id ?subs = map sb_id (bc_subscribers b)"
    by simp
  have taken: "holds i (if j = i then [] else p) (b\<lparr>bc_subscribers := ?subs\<rparr>)"
  proof -
    have "(if sb_id s = j then ?g s else s) \<in> set ?subs"
      by (rule update_first_mem [OF b(2) s(1)])
    moreover have "represents (if sb_id s = j then ?g s else s) (if j = i then [] else p)"
      using s by (auto simp: represents_def)
    moreover have "list_all (\<lambda>s. sb_id s < bc_next_id b) ?subs"
      using b(3) unfolding all_ids ids .
    ultimately show ?thesis
      using b(1,2) ids s(2) by (auto simp: holds_def intro!: bexI exI)
  qed
  have idle: "holds i (if j = i then [] else p) b" if "j = i \<longrightarrow> p = []"
    using assms that by auto
  show "holds i (if j = i then [] else p) (fst (poll_batch j b))"
    using taken idle b(1) s(3) find
    by (cases "find (\<lambda>t. sb_id t = j) (bc_subscribers b)")
      (auto simp: poll_batch_def represents_def newest_eq_nil)
qed

text \<open>
  C32: whatever the other threads do, a subscriber that stays registered sees exactly the contract: each
  batch it takes is the newest of the frames broadcast since its last one, as many as the queue holds
  and in their order, and it is told of a gap exactly when older ones were dropped. No other
  subscriber, slow or fast, changes what it sees.
\<close>

theorem stream_refines_spec:
  assumes "holds i p b" and "Remove i \<notin> set ops"
    and "unat (bc_next_id b) + length (filter (\<lambda>op. op = Subscribe) ops) < 2 ^ 64 - 1"
  shows "batches i ops b = spec_batches i ops p"
  using assms
proof (induction ops arbitrary: b p)
  case (Cons op ops)
  have rest: "batches i ops b' = spec_batches i ops p'"
    if "holds i p' b'" "unat (bc_next_id b') + length (filter (\<lambda>op. op = Subscribe) ops) < 2 ^ 64 - 1" for b' p'
    using Cons.IH [OF that(1)] that(2) Cons.prems(2) by simp
  show ?case
  proof (cases op)
    case (Broadcast f)
    show ?thesis
      using rest [OF holds_broadcast [OF Cons.prems(1)]] Cons.prems(3)
      by (simp add: Broadcast stream_step_def) (simp add: broadcast_def)
  next
    case (Take j)
    have "bc_next_id (fst (poll_batch j b)) = bc_next_id b"
      by (simp add: poll_batch_def split: option.split)
    with rest [OF holds_poll(2) [OF Cons.prems(1), of j]] holds_poll(1) [OF Cons.prems(1)] Cons.prems(3)
    show ?thesis
      by (simp add: Take stream_step_def)
  next
    case Subscribe
    have "unat (bc_next_id (fst (subscribe b))) = Suc (unat (bc_next_id b))"
      using Cons.prems(3) by (simp add: subscribe_eq Let_def Subscribe) (intro unat_Suc_word, simp)
    with rest [OF holds_subscribe [OF Cons.prems(1)]] Cons.prems(3) show ?thesis
      by (simp add: Subscribe stream_step_def)
  next
    case (Remove j)
    with Cons.prems(2) have "j \<noteq> i"
      by auto
    with rest [OF holds_remove [OF Cons.prems(1)]] Cons.prems(3) show ?thesis
      by (simp add: Remove stream_step_def) (simp add: remove_eq Let_def)
  qed
qed simp

text \<open>Two frames, taken together by the first subscriber while a second one joins and leaves.\<close>

theorem stream_refines_spec_witness:
  "batches 0 [Broadcast lagged_frame, Subscribe, Broadcast (snapshot_frame JNull), Remove 1, Take 0, Take 0]
     (fst (subscribe new_broadcaster)) =
   [Some (BatchFrames [lagged_frame, snapshot_frame JNull] False), None]"
proof -
  have "holds 0 [] (fst (subscribe new_broadcaster))"
    by (simp add: holds_def subscribe_eq new_broadcaster_def represents_def)
  from stream_refines_spec [OF this, of "[Broadcast lagged_frame, Subscribe, Broadcast (snapshot_frame JNull),
      Remove 1, Take 0, Take 0]"]
  show ?thesis
    by (simp add: subscribe_eq new_broadcaster_def newest_def queue_capacity_def)
qed

end
