(* ===== verification/Rest_Json.thy ===== *)
theory Rest_Json
  imports Actions
begin

text \<open>
  Capability values on the wire (\<open>adapters/rest_api/json.rs\<close>): the encoding in canonical units, the
  decoding with its range checks, and the proof that they are inverse to one another.
\<close>

section \<open>Encoding and decoding\<close>

definition rgb_object :: "u8 \<Rightarrow> u8 \<Rightarrow> u8 \<Rightarrow> 'f json" where
  "rgb_object r g b = object [(''r'', json_uint r), (''g'', json_uint g), (''b'', json_uint b)]"

fun state_to_json :: "capability_state \<Rightarrow> 'f json" where
  "state_to_json (Switch b) = JBool b"
| "state_to_json (Occupancy b) = JBool b"
| "state_to_json (Contact b) = JBool b"
| "state_to_json (WaterLeak b) = JBool b"
| "state_to_json (Smoke b) = JBool b"
| "state_to_json (SunUp b) = JBool b"
| "state_to_json (Brightness v) = json_uint v"
| "state_to_json (Battery v) = json_uint v"
| "state_to_json (Humidity v) = json_uint v"
| "state_to_json (ColorTemperature v) = json_uint v"
| "state_to_json (TimeOfDay v) = json_uint v"
| "state_to_json (Temperature v) = json_int (sint v)"
| "state_to_json (Illuminance v) = json_uint v"
| "state_to_json (Power v) = json_uint v"
| "state_to_json (Color r g b) = rgb_object r g b"

type_synonym value_error = string

definition type_of :: "'f json \<Rightarrow> string" where
  "type_of v =
     (case v of
        JNull \<Rightarrow> ''null''
      | JBool _ \<Rightarrow> ''a boolean''
      | JNumber (Float _) \<Rightarrow> ''a fractional number''
      | JNumber _ \<Rightarrow> ''a number''
      | JString _ \<Rightarrow> ''a string''
      | JArray _ \<Rightarrow> ''an array''
      | JObject _ \<Rightarrow> ''an object'')"

text \<open>\<open>format!("{n}")\<close> of a signed integer.\<close>

definition show_int :: "i64 \<Rightarrow> string" where
  "show_int n = (if n < 0 then ''-'' @ decimal (nat (- n)) else decimal (nat n))"

definition bool_of :: "'f json \<Rightarrow> string \<Rightarrow> value_error + bool" where
  "bool_of v name =
     (case jbool v of
        Some b \<Rightarrow> Inr b
      | None \<Rightarrow> Inl (quoted name @ '' expects a boolean, got '' @ type_of v))"

definition int_of :: "'f json \<Rightarrow> string \<Rightarrow> i64 \<Rightarrow> i64 \<Rightarrow> value_error + i64" where
  "int_of v name lo hi =
     (case ji64 v of
        None \<Rightarrow> Inl (quoted name @ '' expects an integer, got '' @ type_of v)
      | Some n \<Rightarrow>
          if n < lo \<or> n > hi
          then Inl (quoted name @ '' must be between '' @ show_int lo @ '' and '' @ show_int hi @
                    '', got '' @ show_int n)
          else Inr n)"

definition pct_of :: "'f json \<Rightarrow> string \<Rightarrow> value_error + u8" where
  "pct_of v name = map_sum id of_int (int_of v name 0 100)"

definition color_channel :: "'f jmap \<Rightarrow> string \<Rightarrow> value_error + u8" where
  "color_channel obj k =
     (case map_of obj k of
        None \<Rightarrow> Inl (quoted ''color'' @ '' is missing '' @ quoted k)
      | Some v \<Rightarrow> map_sum id of_int (int_of v (''color.'' @ k) 0 255))"

definition color_of :: "'f json \<Rightarrow> value_error + capability_state" where
  "color_of v =
     (case jobject v of
        None \<Rightarrow>
          Inl (quoted ''color'' @ '' expects an object like {\"r\":255,\"g\":170,\"b\":0}, got '' @ type_of v)
      | Some obj \<Rightarrow>
          (case color_channel obj ''r'' of Inl e \<Rightarrow> Inl e | Inr r \<Rightarrow>
          (case color_channel obj ''g'' of Inl e \<Rightarrow> Inl e | Inr g \<Rightarrow>
          (case color_channel obj ''b'' of Inl e \<Rightarrow> Inl e | Inr b \<Rightarrow>
            (case find (\<lambda>k. k \<notin> {''r'', ''g'', ''b''}) (map fst obj) of
               Some extra \<Rightarrow> Inl (quoted ''color'' @ '' has unexpected key '' @ quoted extra)
             | None \<Rightarrow> Inr (Color r g b))))))"

definition ir_unreadable :: value_error where
  "ir_unreadable =
     quoted ''ir_transmitter'' @ '' has no readable state; send a code with {\"send_ir_code\": \"<base64>\"}''"

fun state_from_json :: "capability_kind \<Rightarrow> 'f json \<Rightarrow> value_error + capability_state" where
  "state_from_json KSwitch v = map_sum id Switch (bool_of v (kind_name KSwitch))"
| "state_from_json KBrightness v = map_sum id Brightness (pct_of v (kind_name KBrightness))"
| "state_from_json KColor v = color_of v"
| "state_from_json KColorTemperature v =
     map_sum id (\<lambda>n. ColorTemperature (of_int n)) (int_of v (kind_name KColorTemperature) 0 65535)"
| "state_from_json KOccupancy v = map_sum id Occupancy (bool_of v (kind_name KOccupancy))"
| "state_from_json KBattery v = map_sum id Battery (pct_of v (kind_name KBattery))"
| "state_from_json KTemperature v =
     map_sum id (\<lambda>n. Temperature (of_int n)) (int_of v (kind_name KTemperature) (- 32768) 32767)"
| "state_from_json KHumidity v = map_sum id Humidity (pct_of v (kind_name KHumidity))"
| "state_from_json KIlluminance v =
     map_sum id (\<lambda>n. Illuminance (of_int n)) (int_of v (kind_name KIlluminance) 0 4294967295)"
| "state_from_json KPower v =
     map_sum id (\<lambda>n. Power (of_int n)) (int_of v (kind_name KPower) 0 4294967295)"
| "state_from_json KContact v = map_sum id Contact (bool_of v (kind_name KContact))"
| "state_from_json KWaterLeak v = map_sum id WaterLeak (bool_of v (kind_name KWaterLeak))"
| "state_from_json KSmoke v = map_sum id Smoke (bool_of v (kind_name KSmoke))"
| "state_from_json KTimeOfDay v =
     map_sum id (\<lambda>n. TimeOfDay (of_int n)) (int_of v (kind_name KTimeOfDay) 0 1439)"
| "state_from_json KSunUp v = map_sum id SunUp (bool_of v (kind_name KSunUp))"
| "state_from_json KIrTransmitter v = Inl ir_unreadable"

definition capabilities_object ::
  "capability_kind list \<Rightarrow> (capability_kind \<Rightarrow> capability_state option) \<Rightarrow> 'f json" where
  "capabilities_object caps look =
     JObject (fold (\<lambda>k. obj_insert (kind_name k) (json_opt state_to_json (look k))) caps [])"

section \<open>The two are inverse\<close>

text \<open>The states the API can express: a percentage is at most 100 and a time of day before midnight.\<close>

definition on_wire :: "capability_state \<Rightarrow> bool" where
  "on_wire s \<longleftrightarrow>
     (case s of
        Brightness v \<Rightarrow> v \<le> 100 | Battery v \<Rightarrow> v \<le> 100 | Humidity v \<Rightarrow> v \<le> 100 | TimeOfDay v \<Rightarrow> v < 1440
      | _ \<Rightarrow> True)"

lemma map_sum_Inr: "map_sum f g x = Inr y \<longleftrightarrow> (\<exists>z. x = Inr z \<and> y = g z)"
  by (cases x) auto

lemma bool_of_Inr: "map_sum id C (bool_of v name) = Inr s \<longleftrightarrow> (\<exists>b. s = C b \<and> v = JBool b)"
  by (cases v) (auto simp: bool_of_def jbool_def)

lemma ji64_int: "ji64 (json_int n) = (if n \<le> i64_max then Some n else None)" if "n < 2 ^ 64" for n
proof (cases "0 \<le> n")
  case True
  with that show ?thesis
    by (simp add: json_int_def ji64_def uint_word_of_int take_bit_eq_mod)
qed (simp add: json_int_def ji64_def i64_max_def)

lemma json_int_uint: "json_int (uint w) = json_uint w" for w :: "'a::len word"
  by (simp add: json_int_def json_uint_def)

lemma ji64_canonical:
  assumes "json_ok v" and "ji64 v = Some n"
  shows "v = json_int n"
proof (cases v)
  case (JNumber x)
  with assms show ?thesis
    by (cases x) (auto simp: ji64_def json_int_def split: if_splits)
qed (use assms in \<open>auto simp: ji64_def\<close>)

lemma int_of_Inr:
  assumes "json_ok v" and "hi \<le> i64_max"
  shows "int_of v name lo hi = Inr n \<longleftrightarrow> v = json_int n \<and> lo \<le> n \<and> n \<le> hi"
proof
  assume "int_of v name lo hi = Inr n"
  then show "v = json_int n \<and> lo \<le> n \<and> n \<le> hi"
    using ji64_canonical [OF assms(1)] by (auto simp: int_of_def split: option.splits if_splits)
next
  assume "v = json_int n \<and> lo \<le> n \<and> n \<le> hi"
  moreover from this have "ji64 v = Some n"
    using assms(2) ji64_int [of n] by (auto simp: i64_max_def)
  ultimately show "int_of v name lo hi = Inr n"
    by (auto simp: int_of_def)
qed

text \<open>A word of at most 32 bits is read back from its number, and the number is in its range.\<close>

lemma uint_of_Inr:
  assumes "json_ok v" and "0 \<le> hi" and "hi < 2 ^ LENGTH('a)" and "hi \<le> i64_max"
  shows "map_sum id (\<lambda>n. C (of_int n :: 'a::len word)) (int_of v name 0 hi) = Inr s \<longleftrightarrow>
    (\<exists>w. s = C w \<and> v = json_uint w \<and> uint w \<le> hi)"
proof
  assume "map_sum id (\<lambda>n. C (of_int n :: 'a word)) (int_of v name 0 hi) = Inr s"
  then obtain n where n: "int_of v name 0 hi = Inr n" "s = C (of_int n)"
    by (auto simp: map_sum_Inr)
  then have v: "v = json_int n" "0 \<le> n" "n \<le> hi"
    using int_of_Inr [OF assms(1,4)] by auto
  then have "uint (of_int n :: 'a word) = n"
    using assms(3) by (simp add: uint_word_of_int)
  with v n show "\<exists>w. s = C w \<and> v = json_uint w \<and> uint w \<le> hi"
    by (metis json_int_uint)
next
  assume "\<exists>w. s = C w \<and> v = json_uint w \<and> uint w \<le> hi"
  then obtain w where w: "s = C w" "v = json_uint w" "uint w \<le> hi"
    by blast
  then have "int_of v name 0 hi = Inr (uint w)"
    using int_of_Inr [OF assms(1,4), of name 0 "uint w"] by (simp add: json_int_uint)
  with w show "map_sum id (\<lambda>n. C (of_int n :: 'a word)) (int_of v name 0 hi) = Inr s"
    by (simp add: map_sum_Inr)
qed


lemma pct_of_Inr:
  assumes "json_ok v"
  shows "map_sum id C (pct_of v name) = Inr s \<longleftrightarrow> (\<exists>w. s = C w \<and> v = json_uint w \<and> w \<le> 100)"
  using uint_of_Inr [OF assms, of 100 C name s]
  by (simp add: pct_of_def sum.map_comp comp_def i64_max_def word_le_def id_def)

lemma temperature_Inr:
  assumes "json_ok v"
  shows "map_sum id (\<lambda>n. Temperature (of_int n)) (int_of v name (- 32768) 32767) = Inr s \<longleftrightarrow>
    (\<exists>w. s = Temperature w \<and> v = json_int (sint w))"
proof
  assume "map_sum id (\<lambda>n. Temperature (of_int n)) (int_of v name (- 32768) 32767) = Inr s"
  then obtain n where n: "v = json_int n" "- 32768 \<le> n" "n \<le> 32767" "s = Temperature (of_int n)"
    using int_of_Inr [OF assms, of 32767 name "- 32768"] by (auto simp: map_sum_Inr i64_max_def)
  then have "sint (of_int n :: i16) = n"
    by (simp add: signed_of_int signed_take_bit_int_eq_self)
  with n show "\<exists>w. s = Temperature w \<and> v = json_int (sint w)"
    by metis
next
  assume "\<exists>w. s = Temperature w \<and> v = json_int (sint w)"
  then obtain w where w: "s = Temperature w" "v = json_int (sint w)"
    by blast
  then have "int_of v name (- 32768) 32767 = Inr (sint w)"
    using int_of_Inr [OF assms, of 32767 name "- 32768" "sint w"] sint_greater_eq [of w] sint_less [of w]
    by (simp add: i64_max_def)
  with w show "map_sum id (\<lambda>n. Temperature (of_int n)) (int_of v name (- 32768) 32767) = Inr s"
    by (simp add: map_sum_Inr)
qed

lemma color_channel_Inr:
  assumes "json_ok (JObject obj)"
  shows "color_channel obj k = Inr w \<longleftrightarrow> map_of obj k = Some (json_uint w)"
proof (cases "map_of obj k")
  case (Some v)
  then have "(k, v) \<in> set obj"
    by (rule map_of_SomeD)
  with assms have ok: "json_ok v"
    by (auto simp: list_all_iff)
  have "uint w \<le> 255"
    using uint_lt2p [of w] by simp
  then show ?thesis
    using uint_of_Inr [OF ok, of 255 id "''color.'' @ k" w] Some
    by (auto simp: color_channel_def i64_max_def id_def)
qed (simp add: color_channel_def)

lemma rgb_object_eq:
  "rgb_object r g b = JObject [(''b'', json_uint b), (''g'', json_uint g), (''r'', json_uint r)]"
proof -
  have "''b'' < ''g''" "''g'' < ''r''" "''b'' < ''r''" "\<not> ''r'' < ''g''" "\<not> ''g'' < ''b''" "\<not> ''r'' < ''b''"
    by code_simp+
  then show ?thesis
    by (simp add: rgb_object_def object_def)
qed

lemma color_of_Inr:
  assumes "json_ok v"
  shows "color_of v = Inr s \<longleftrightarrow> (\<exists>r g b. s = Color r g b \<and> v = rgb_object r g b)"
proof (cases v)
  case (JObject obj)
  note ok = assms [unfolded JObject]
  show ?thesis
  proof
    assume "color_of v = Inr s"
    then obtain r g b where s: "s = Color r g b"
      and chan: "color_channel obj ''r'' = Inr r" "color_channel obj ''g'' = Inr g" "color_channel obj ''b'' = Inr b"
      and keys: "find (\<lambda>k. k \<notin> {''r'', ''g'', ''b''}) (map fst obj) = None"
      by (auto simp: color_of_def JObject jobject_def split: sum.splits option.splits)
    let ?rgb = "[(''b'', json_uint b), (''g'', json_uint g), (''r'', json_uint r)]"
    have "map_of obj k = map_of ?rgb k" for k
    proof (cases "k \<in> {''r'', ''g'', ''b''}")
      case False
      with keys have "k \<notin> set (map fst obj)"
        unfolding find_None_iff by blast
      with False show ?thesis
        by (auto simp: map_of_eq_None_iff)
    qed (use chan color_channel_Inr [OF ok] in auto)
    moreover have "sorted_wrt (<) (map fst ?rgb)"
      by code_simp
    ultimately have "obj = ?rgb"
      using ok by (intro sorted_keys_eq) (auto simp: fun_eq_iff)
    with s show "\<exists>r g b. s = Color r g b \<and> v = rgb_object r g b"
      by (simp add: JObject rgb_object_eq)
  next
    assume "\<exists>r g b. s = Color r g b \<and> v = rgb_object r g b"
    then obtain r g b where s: "s = Color r g b"
      and obj: "obj = [(''b'', json_uint b), (''g'', json_uint g), (''r'', json_uint r)]"
      by (auto simp: JObject rgb_object_eq)
    have "color_channel obj ''r'' = Inr r" "color_channel obj ''g'' = Inr g" "color_channel obj ''b'' = Inr b"
      unfolding color_channel_Inr [OF ok] by (simp_all add: obj)
    then show "color_of v = Inr s"
      by (simp add: color_of_def JObject jobject_def s obj)
  qed
qed (simp_all add: color_of_def jobject_def rgb_object_eq)

lemma byte_in_range: "uint w \<le> 65535" "uint w' \<le> 4294967295" for w :: u16 and w' :: u32
  using uint_lt2p [of w] uint_lt2p [of w'] by simp_all

lemma decode_exact:
  assumes "json_ok v"
  shows "state_from_json k v = Inr s \<longleftrightarrow> kind s = k \<and> on_wire s \<and> v = state_to_json s"
proof -
  note word = uint_of_Inr [OF assms] i64_max_def
  have time: "uint w \<le> 1439 \<longleftrightarrow> w < 1440" for w :: u16
    by (simp add: word_less_def) presburger
  show ?thesis
    by (cases k; cases s)
      (auto simp: bool_of_Inr word pct_of_Inr [OF assms] color_of_Inr [OF assms] temperature_Inr [OF assms]
        on_wire_def byte_in_range time)
qed

text \<open>
  Decoding is the exact inverse of encoding: a document is accepted as a value of a capability just
  when it is the encoding of a state of that capability, in its range. So nothing is truncated or
  guessed, every other document is an error, and what the API shows can be written back.
\<close>

theorem json_roundtrip:
  assumes "json_ok v"
  shows "state_from_json k v = Inr s \<longleftrightarrow> kind s = k \<and> on_wire s \<and> v = state_to_json s"
  using assms by (rule decode_exact)

text \<open>Half brightness; and what is out of range, fractional or of another type is refused.\<close>

theorem json_roundtrip_witness:
  "state_from_json KBrightness (JNumber (PosInt 50) :: unit json) = Inr (Brightness 50) \<and>
   state_from_json KBrightness (JNumber (PosInt 101) :: unit json) \<noteq> Inr (Brightness 101) \<and>
   state_from_json KBrightness (JNumber (Float ()) :: unit json) \<noteq> Inr (Brightness 50)"
proof -
  have "json_ok (JNumber (PosInt n) :: unit json)" "json_ok (JNumber (Float ()) :: unit json)" for n
    by simp_all
  then show ?thesis
    unfolding json_roundtrip [of "JNumber (PosInt 50) :: unit json", simplified]
      json_roundtrip [of "JNumber (PosInt 101) :: unit json", simplified]
      json_roundtrip [of "JNumber (Float ()) :: unit json", simplified]
    by (simp add: on_wire_def json_uint_def)
qed

end
