(* ===== verification/Rest_Api.thy ===== *)
theory Rest_Api
  imports Rest_Stream Rest_Json Reactions
begin

text \<open>
  The engine's side of the REST API (\<open>adapters/rest_api/mod.rs\<close> and \<open>describe.rs\<close>): the directory of
  names, the mirror shared with the HTTP threads, the northbound adapter and the observer that write
  it, the handle that reads it, and the wire spelling of triggers, conditions and commands. The mirror
  and the channel are behind a mutex, so every operation is a step on one shared state.
\<close>

section \<open>The directory\<close>

record device_entry =
  de_id :: device_id
  de_name :: string
  de_room :: "string option"
  de_capabilities :: "capability_kind list"
  de_events :: "(string \<times> action_id) list"
  de_synthetic :: bool

record scene_entry =
  se_id :: scene_id
  se_name :: string
  se_commands :: "command list"

record directory =
  dir_system_name :: "string option"
  dir_timezone :: string
  dir_devices :: "device_entry list"
  dir_scenes :: "scene_entry list"
  dir_rules :: "rule list"
  dir_schedules :: "(schedule_id \<times> string) list"
  dir_device_by_name :: "(string, device_id) hashmap"
  dir_scene_by_name :: "(string, scene_id) hashmap"
  dir_rule_by_name :: "(string, rule_id) hashmap"

definition entry_action :: "device_entry \<Rightarrow> string \<Rightarrow> action_id option" where
  "entry_action e name = map_option snd (find (\<lambda>(n, _). n = name) (de_events e))"

definition clock_device_name :: string where
  "clock_device_name = ''clock''"

text \<open>\<open>collect()\<close> into a map: of entries with the same name the last one is kept.\<close>

definition collect_map :: "('k \<times> 'v) list \<Rightarrow> ('k, 'v) hashmap" where
  "collect_map kvs = fold (\<lambda>(k, v). hm_insert k v) kvs []"

definition directory_devices :: "('n, 'f, 'x, 'b, 'w) compiled_config \<Rightarrow> device_entry list" where
  "directory_devices cfg =
     map (\<lambda>d. \<lparr>de_id = dd_id d, de_name = dd_name d, de_room = dm_room (dd_metadata d),
               de_capabilities = dd_capabilities d,
               de_events = map (\<lambda>e. (ev_name e, ev_id e)) (dd_events d), de_synthetic = False\<rparr>)
       (cc_devices cfg) @
     [\<lparr>de_id = cc_clock_device cfg, de_name = clock_device_name, de_room = None,
       de_capabilities = [KTimeOfDay, KSunUp], de_events = [], de_synthetic = True\<rparr>]"

definition from_config :: "('n, 'f, 'x, 'b, 'w) compiled_config \<Rightarrow> directory" where
  "from_config cfg =
     (let devices = directory_devices cfg;
          scenes = map (\<lambda>s. \<lparr>se_id = cs_id s, se_name = cs_name s, se_commands = cs_commands s\<rparr>) (cc_scenes cfg)
      in \<lparr>dir_system_name = sc_name (cc_system cfg), dir_timezone = sc_timezone (cc_system cfg),
          dir_devices = devices, dir_scenes = scenes, dir_rules = cc_rules cfg,
          dir_schedules = map (\<lambda>s. (ck_id s, ck_name s)) (cc_schedules cfg),
          dir_device_by_name = collect_map (map (\<lambda>d. (de_name d, de_id d)) devices),
          dir_scene_by_name = collect_map (map (\<lambda>s. (se_name s, se_id s)) scenes),
          dir_rule_by_name = collect_map (map (\<lambda>r. (r_name r, r_id r)) (cc_rules cfg))\<rparr>)"

definition dir_device :: "directory \<Rightarrow> string \<Rightarrow> device_entry option" where
  "dir_device dir name =
     Option.bind (hm_get (dir_device_by_name dir) name) (\<lambda>i. find (\<lambda>d. de_id d = i) (dir_devices dir))"

definition dir_scene :: "directory \<Rightarrow> string \<Rightarrow> scene_entry option" where
  "dir_scene dir name =
     Option.bind (hm_get (dir_scene_by_name dir) name) (\<lambda>i. find (\<lambda>s. se_id s = i) (dir_scenes dir))"

definition dir_rule :: "directory \<Rightarrow> string \<Rightarrow> rule option" where
  "dir_rule dir name =
     Option.bind (hm_get (dir_rule_by_name dir) name) (\<lambda>i. find (\<lambda>r. r_id r = i) (dir_rules dir))"

definition device_name :: "directory \<Rightarrow> device_id \<Rightarrow> string" where
  "device_name dir i =
     (case find (\<lambda>d. de_id d = i) (dir_devices dir) of
        Some d \<Rightarrow> de_name d | None \<Rightarrow> ''device#'' @ decimal (unat (device_num i)))"

definition scene_name :: "directory \<Rightarrow> scene_id \<Rightarrow> string" where
  "scene_name dir i =
     (case find (\<lambda>s. se_id s = i) (dir_scenes dir) of
        Some s \<Rightarrow> se_name s | None \<Rightarrow> ''scene#'' @ decimal (unat (scene_num i)))"

definition rule_name :: "directory \<Rightarrow> rule_id \<Rightarrow> string" where
  "rule_name dir i =
     (case find (\<lambda>r. r_id r = i) (dir_rules dir) of
        Some r \<Rightarrow> r_name r | None \<Rightarrow> ''rule#'' @ decimal (unat (rule_num i)))"

definition schedule_name :: "directory \<Rightarrow> schedule_id \<Rightarrow> string" where
  "schedule_name dir i =
     (case find (\<lambda>(j, _). j = i) (dir_schedules dir) of
        Some (_, name) \<Rightarrow> name | None \<Rightarrow> ''schedule#'' @ decimal (unat (schedule_num i)))"

definition action_name :: "directory \<Rightarrow> device_id \<Rightarrow> action_id \<Rightarrow> string" where
  "action_name dir d a =
     (case Option.bind (find (\<lambda>e. de_id e = d) (dir_devices dir))
             (\<lambda>e. map_option fst (find (\<lambda>(_, i). i = a) (de_events e))) of
        Some name \<Rightarrow> name | None \<Rightarrow> ''action#'' @ decimal (unat (action_num a)))"

section \<open>Wire spellings\<close>

definition kind_json :: "capability_kind \<Rightarrow> 'f json" where
  "kind_json k = JString (kind_name k)"

definition device_ref :: "directory \<Rightarrow> device_id \<Rightarrow> 'f json" where
  "device_ref dir d = JString (device_name dir d)"

fun trigger_json :: "directory \<Rightarrow> trigger \<Rightarrow> 'f json" where
  "trigger_json dir (TAction d a) =
     object [(''type'', JString ''event''), (''device'', device_ref dir d),
       (''event'', JString (action_name dir d a))]"
| "trigger_json dir (TChanged d k to) =
     object [(''type'', JString ''changed''), (''device'', device_ref dir d), (''capability'', kind_json k),
       (''to'', JBool to)]"
| "trigger_json dir (TCrosses d k bound dr) =
     object [(''type'', JString ''crosses''), (''device'', device_ref dir d), (''capability'', kind_json k),
       (''bound'', json_int bound),
       (''dir'', JString (case dr of Above \<Rightarrow> ''above'' | Below \<Rightarrow> ''below''))]"
| "trigger_json dir (TReports d k) =
     object [(''type'', JString ''reports''), (''device'', device_ref dir d), (''capability'', kind_json k)]"
| "trigger_json dir (TTimer key) =
     object [(''type'', JString ''timer''), (''key'', JString (timer_name key))]"
| "trigger_json dir (TTime s) =
     object [(''type'', JString ''time''), (''schedule'', JString (schedule_name dir s))]"
| "trigger_json dir (TCommandFailed d) =
     object [(''type'', JString ''command_failed''), (''device'', json_opt (device_ref dir) d)]"

fun cmp_op_name :: "cmp_op \<Rightarrow> string" where
  "cmp_op_name Lt = ''lt''"
| "cmp_op_name Le = ''le''"
| "cmp_op_name Eq = ''eq''"
| "cmp_op_name Ne = ''ne''"
| "cmp_op_name Ge = ''ge''"
| "cmp_op_name Gt = ''gt''"

fun condition_json :: "directory \<Rightarrow> condition \<Rightarrow> 'f json" where
  "condition_json dir Always = JBool True"
| "condition_json dir (Not c) = object [(''type'', JString ''not''), (''of'', condition_json dir c)]"
| "condition_json dir (And cs) =
     object [(''type'', JString ''and''), (''of'', JArray (map (condition_json dir) cs))]"
| "condition_json dir (Or cs) =
     object [(''type'', JString ''or''), (''of'', JArray (map (condition_json dir) cs))]"
| "condition_json dir (BoolEquals d k b) =
     object [(''type'', JString ''bool_equals''), (''device'', device_ref dir d), (''capability'', kind_json k),
       (''value'', JBool b)]"
| "condition_json dir (Compare d k cop n) =
     object [(''type'', JString ''compare''), (''device'', device_ref dir d), (''capability'', kind_json k),
       (''op'', JString (cmp_op_name cop)), (''value'', json_int n)]"
| "condition_json dir (ColorEquals d r g b) =
     object [(''type'', JString ''color_equals''), (''device'', device_ref dir d), (''color'', rgb_object r g b)]"

fun command_json :: "directory \<Rightarrow> command \<Rightarrow> 'f json" where
  "command_json dir (SetSwitch d on) =
     object [(''type'', JString ''set_switch''), (''device'', device_ref dir d), (''on'', JBool on)]"
| "command_json dir (ToggleSwitch d) =
     object [(''type'', JString ''toggle_switch''), (''device'', device_ref dir d)]"
| "command_json dir (SetBrightness d v tr) =
     object [(''type'', JString ''set_brightness''), (''device'', device_ref dir d), (''value'', json_uint v),
       (''transition_ms'', json_opt json_uint tr)]"
| "command_json dir (IncreaseBrightness d v) =
     object [(''type'', JString ''increase_brightness''), (''device'', device_ref dir d), (''by'', json_uint v)]"
| "command_json dir (DecreaseBrightness d v) =
     object [(''type'', JString ''decrease_brightness''), (''device'', device_ref dir d), (''by'', json_uint v)]"
| "command_json dir (SetColor d r g b tr) =
     object [(''type'', JString ''set_color''), (''device'', device_ref dir d), (''color'', rgb_object r g b),
       (''transition_ms'', json_opt json_uint tr)]"
| "command_json dir (SetColorTemperature d m tr) =
     object [(''type'', JString ''set_color_temperature''), (''device'', device_ref dir d), (''mireds'', json_uint m),
       (''transition_ms'', json_opt json_uint tr)]"
| "command_json dir (ActivateScene s) =
     object [(''type'', JString ''activate_scene''), (''scene'', JString (scene_name dir s))]"
| "command_json dir (ScheduleTimer key after) =
     object [(''type'', JString ''schedule_timer''), (''key'', JString (timer_name key)), (''after_ms'', json_uint after)]"
| "command_json dir (CancelTimer key) =
     object [(''type'', JString ''cancel_timer''), (''key'', JString (timer_name key))]"
| "command_json dir (SendIrCode d _) =
     object [(''type'', JString ''send_ir_code''), (''device'', device_ref dir d)]"

definition commands_json :: "directory \<Rightarrow> command list \<Rightarrow> 'f json" where
  "commands_json dir cmds = JArray (map (command_json dir) cmds)"

definition rule_shape :: "directory \<Rightarrow> rule \<Rightarrow> 'f json" where
  "rule_shape dir r =
     object [(''name'', JString (r_name r)), (''trigger'', trigger_json dir (r_trigger r)),
       (''condition'', condition_json dir (r_condition r)), (''then'', commands_json dir (r_commands r)),
       (''for_ms'', json_opt json_uint (r_for r))]"

section \<open>The mirror, the adapter and the handle\<close>

record rule_status =
  rt_last_considered :: "millis option"
  rt_last_truth :: "truth option"
  rt_last_fired :: "millis option"
  rt_fire_count :: u64

definition status_default :: rule_status where
  "status_default = \<lparr>rt_last_considered = None, rt_last_truth = None, rt_last_fired = None, rt_fire_count = 0\<rparr>"

datatype inbound =
    InDevice device_id desired
  | InScene scene_id
  | InAction device_id action_id

text \<open>
  What the adapter, the observer and the handles share: the mirror, the channel with whether its
  receiver still lives, and how often the host was woken.
\<close>

record rest_shared =
  rs_states :: "(device_id \<times> capability_kind, capability_state) hashmap"
  rs_rules :: "(rule_id, rule_status) hashmap"
  rs_now :: millis
  rs_inbound :: "inbound list"
  rs_open :: bool
  rs_wakes :: nat

definition rest_channel :: rest_shared where
  "rest_channel =
     \<lparr>rs_states = [], rs_rules = [], rs_now = 0, rs_inbound = [], rs_open = True, rs_wakes = 0\<rparr>"

definition rest_folded :: "rest_shared \<Rightarrow> device_id \<Rightarrow> capability_state \<Rightarrow> rest_shared" where
  "rest_folded sh d s = sh\<lparr>rs_states := hm_insert (d, kind s) s (rs_states sh)\<rparr>"

definition rest_dispatch :: "rest_shared \<Rightarrow> command \<Rightarrow> millis \<Rightarrow> rest_shared \<times> outcome" where
  "rest_dispatch sh cmd now = (sh, Permanent ''rest_api is a northbound adapter, not a dispatch target'')"

fun inbound_event :: "inbound \<Rightarrow> event" where
  "inbound_event (InDevice d des) = RequestedChange d des"
| "inbound_event (InScene s) = RequestedScene s"
| "inbound_event (InAction d a) = Action d a"

definition rest_tick :: "rest_shared \<Rightarrow> millis \<Rightarrow> rest_shared \<times> event list" where
  "rest_tick sh now = (sh\<lparr>rs_now := now, rs_inbound := []\<rparr>, map inbound_event (rs_inbound sh))"

definition rest_ops :: "rest_shared northbound_ops" where
  "rest_ops = \<lparr>nb_tick = rest_tick, nb_next_wake = default_next_wake, nb_folded = rest_folded\<rparr>"

text \<open>The handle of an HTTP thread.\<close>

definition handle_state :: "rest_shared \<Rightarrow> device_id \<Rightarrow> capability_kind \<Rightarrow> capability_state option" where
  "handle_state sh d k = hm_get (rs_states sh) (d, k)"

definition handle_rule_status :: "rest_shared \<Rightarrow> rule_id \<Rightarrow> rule_status" where
  "handle_rule_status sh r = (case hm_get (rs_rules sh) r of Some st \<Rightarrow> st | None \<Rightarrow> status_default)"

definition engine_now :: "rest_shared \<Rightarrow> millis" where
  "engine_now sh = rs_now sh"

definition request :: "bool \<Rightarrow> inbound \<Rightarrow> rest_shared \<Rightarrow> rest_shared \<times> bool" where
  "request has_waker i sh =
     (if \<not> rs_open sh then (sh, False)
      else (sh\<lparr>rs_inbound := rs_inbound sh @ [i], rs_wakes := rs_wakes sh + (if has_waker then 1 else 0)\<rparr>, True))"

section \<open>The observer\<close>

fun truth_name :: "truth \<Rightarrow> string" where
  "truth_name True3 = ''true''"
| "truth_name False3 = ''false''"
| "truth_name Unknown3 = ''unknown''"

definition consider_status :: "millis \<Rightarrow> truth \<Rightarrow> bool \<Rightarrow> rule_status \<Rightarrow> rule_status" where
  "consider_status now truth fired st =
     (let st = st\<lparr>rt_last_considered := Some now, rt_last_truth := Some truth\<rparr>
      in if fired
         then st\<lparr>rt_last_fired := Some now,
                 rt_fire_count := (if rt_fire_count st = - 1 then - 1 else rt_fire_count st + 1)\<rparr>
         else st)"

definition emit :: "directory option \<Rightarrow> (directory \<Rightarrow> 'f frame) \<Rightarrow> 'f broadcaster \<Rightarrow> 'f broadcaster" where
  "emit stream f b = (case stream of Some dir \<Rightarrow> broadcast (f dir) b | None \<Rightarrow> b)"

text \<open>One callback of the engine on the observer; \<open>stream\<close> is the directory once it is attached.\<close>

fun observe ::
  "directory option \<Rightarrow> notice \<Rightarrow> rest_shared \<times> 'f broadcaster \<Rightarrow> rest_shared \<times> 'f broadcaster" where
  "observe stream (RuleConsidered r truth fired) (sh, b) =
     (sh\<lparr>rs_rules := hm_insert r (consider_status (rs_now sh) truth fired (handle_rule_status sh r)) (rs_rules sh)\<rparr>,
      emit stream (\<lambda>dir. rule_frame (rule_name dir r) (truth_name truth) fired) b)"
| "observe stream (StateFolded d s) (sh, b) =
     (sh, emit stream (\<lambda>dir. state_frame (device_name dir d) (kind_name (kind s)) (state_to_json s)) b)"
| "observe stream (EventReceived ev depth) (sh, b) =
     (sh, case ev of
            Action d a \<Rightarrow> emit stream (\<lambda>dir. action_frame (device_name dir d) (action_name dir d a) depth) b
          | _ \<Rightarrow> b)"
| "observe stream (GaveUp cmd reason attempts) (sh, b) =
     (sh, emit stream (\<lambda>dir. command_failed_frame (command_json dir cmd) reason attempts) b)"
| "observe stream _ (sh, b) = (sh, b)"

end
