(* ===== verification/Rest_Routes.thy ===== *)
theory Rest_Routes
  imports Rest_Api
begin

text \<open>
  Routing a request to its response (\<open>adapters/rest_api/routes.rs\<close>). The writer and the reader of JSON
  text are the parameter \<open>J\<close>; a route is one step on the shared state, in which the other threads do
  not interfere.
\<close>

section \<open>Responses\<close>

record response =
  rsp_status :: u16
  rsp_body :: bytes

definition response_json :: "'f json_text \<Rightarrow> u16 \<Rightarrow> 'f json \<Rightarrow> response" where
  "response_json J status v =
     \<lparr>rsp_status = status,
      rsp_body = (case sj_write J v of
          Some b \<Rightarrow> b
        | None \<Rightarrow> ''{\"error\":{\"code\":\"internal\",\"message\":\"failed to encode response\"}}'')\<rparr>"

definition response_error :: "'f json_text \<Rightarrow> u16 \<Rightarrow> string \<Rightarrow> string \<Rightarrow> response" where
  "response_error J status code message =
     response_json J status
       (object [(''error'', object [(''code'', JString code), (''message'', JString message)])])"

definition json_body :: "'f json_text \<Rightarrow> response \<Rightarrow> 'f json" where
  "json_body J r = (case sj_read J (rsp_body r) of Inr v \<Rightarrow> v | Inl _ \<Rightarrow> JNull)"

definition unknown_device :: "'f json_text \<Rightarrow> string \<Rightarrow> response" where
  "unknown_device J name = response_error J 404 ''unknown_device'' (''no device named '' @ quoted name)"

definition unknown_scene :: "'f json_text \<Rightarrow> string \<Rightarrow> response" where
  "unknown_scene J name = response_error J 404 ''unknown_scene'' (''no scene named '' @ quoted name)"

definition malformed :: "'f json_text \<Rightarrow> string \<Rightarrow> response" where
  "malformed J message = response_error J 400 ''malformed_body'' message"

definition unsupported_capability :: "'f json_text \<Rightarrow> string \<Rightarrow> response" where
  "unsupported_capability J message = response_error J 422 ''unsupported_capability'' message"

definition method_not_allowed :: "'f json_text \<Rightarrow> string \<Rightarrow> string \<Rightarrow> response" where
  "method_not_allowed J got allowed =
     response_error J 405 ''method_not_allowed'' (got @ '' is not allowed here; use '' @ allowed)"

section \<open>Reading\<close>

definition crate_version :: string where
  "crate_version = ''0.0.0''"

definition json_len :: "'a list \<Rightarrow> 'f json" where
  "json_len xs = json_uint (of_nat (length xs) :: u64)"

definition get_system :: "'f json_text \<Rightarrow> directory \<Rightarrow> rest_shared \<Rightarrow> response" where
  "get_system J dir sh =
     response_json J 200
       (object [(''name'', json_opt JString (dir_system_name dir)), (''timezone'', JString (dir_timezone dir)),
         (''engine_now_ms'', json_uint (engine_now sh)), (''version'', JString crate_version),
         (''devices'', json_len (dir_devices dir)), (''scenes'', json_len (dir_scenes dir)),
         (''rules'', json_len (dir_rules dir))])"

definition device_json :: "rest_shared \<Rightarrow> device_entry \<Rightarrow> 'f json" where
  "device_json sh e =
     object [(''name'', JString (de_name e)), (''room'', json_opt JString (de_room e)),
       (''synthetic'', JBool (de_synthetic e)),
       (''capabilities'', capabilities_object (de_capabilities e) (handle_state sh (de_id e))),
       (''events'', JArray (map (\<lambda>(n, _). JString n) (de_events e)))]"

definition devices_value :: "directory \<Rightarrow> rest_shared \<Rightarrow> 'f json" where
  "devices_value dir sh = JArray (map (device_json sh) (dir_devices dir))"

definition get_devices :: "'f json_text \<Rightarrow> directory \<Rightarrow> rest_shared \<Rightarrow> response" where
  "get_devices J dir sh = response_json J 200 (object [(''devices'', devices_value dir sh)])"

definition get_device :: "'f json_text \<Rightarrow> directory \<Rightarrow> rest_shared \<Rightarrow> string \<Rightarrow> response" where
  "get_device J dir sh name =
     (case dir_device dir name of
        Some e \<Rightarrow> response_json J 200 (device_json sh e)
      | None \<Rightarrow> unknown_device J name)"

definition scene_json :: "directory \<Rightarrow> scene_entry \<Rightarrow> 'f json" where
  "scene_json dir e =
     object [(''name'', JString (se_name e)), (''commands'', json_len (se_commands e)),
       (''then'', commands_json dir (se_commands e))]"

definition get_scenes :: "'f json_text \<Rightarrow> directory \<Rightarrow> response" where
  "get_scenes J dir =
     response_json J 200 (object [(''scenes'', JArray (map (scene_json dir) (dir_scenes dir)))])"

definition get_scene :: "'f json_text \<Rightarrow> directory \<Rightarrow> string \<Rightarrow> response" where
  "get_scene J dir name =
     (case dir_scene dir name of
        Some e \<Rightarrow> response_json J 200 (scene_json dir e)
      | None \<Rightarrow> unknown_scene J name)"

definition rule_json :: "directory \<Rightarrow> rest_shared \<Rightarrow> rule \<Rightarrow> 'f json" where
  "rule_json dir sh r =
     (let st = handle_rule_status sh (r_id r) in
      (case rule_shape dir r of
         JObject obj \<Rightarrow>
           JObject (fold (\<lambda>(k, v). obj_insert k v)
             [(''last_considered_ms'', json_opt json_uint (rt_last_considered st)),
              (''last_truth'', json_opt (\<lambda>t. JString (truth_name t)) (rt_last_truth st)),
              (''last_fired_ms'', json_opt json_uint (rt_last_fired st)),
              (''fire_count'', json_uint (rt_fire_count st))] obj)
       | v \<Rightarrow> v))"

definition get_rules :: "'f json_text \<Rightarrow> directory \<Rightarrow> rest_shared \<Rightarrow> response" where
  "get_rules J dir sh = response_json J 200 (object [(''rules'', JArray (map (rule_json dir sh) (dir_rules dir)))])"

definition get_rule :: "'f json_text \<Rightarrow> directory \<Rightarrow> rest_shared \<Rightarrow> string \<Rightarrow> response" where
  "get_rule J dir sh name =
     (case dir_rule dir name of
        Some r \<Rightarrow> response_json J 200 (rule_json dir sh r)
      | None \<Rightarrow> response_error J 404 ''unknown_rule'' (''no rule named '' @ quoted name))"

section \<open>Writing\<close>

definition queue :: "'f json_text \<Rightarrow> bool \<Rightarrow> rest_shared \<Rightarrow> inbound \<Rightarrow> rest_shared \<times> response" where
  "queue J has_waker sh i =
     (case request has_waker i sh of
        (sh, True) \<Rightarrow> (sh, response_json J 202 (object [(''accepted'', JBool True)]))
      | (sh, False) \<Rightarrow>
          (sh, response_error J 503 ''engine_unavailable''
            ''the engine is not accepting requests (shutting down)''))"

definition activate :: "'f json_text \<Rightarrow> bool \<Rightarrow> directory \<Rightarrow> rest_shared \<Rightarrow> string \<Rightarrow> rest_shared \<times> response" where
  "activate J w dir sh name =
     (case dir_scene dir name of
        None \<Rightarrow> (sh, unknown_scene J name)
      | Some e \<Rightarrow> queue J w sh (InScene (se_id e)))"

definition or_none :: "string \<Rightarrow> string \<Rightarrow> string" where
  "or_none none declared = (if declared = [] then none else declared)"

definition fire_event ::
  "'f json_text \<Rightarrow> bool \<Rightarrow> directory \<Rightarrow> rest_shared \<Rightarrow> string \<Rightarrow> string \<Rightarrow> rest_shared \<times> response" where
  "fire_event J w dir sh name event =
     (case dir_device dir name of
        None \<Rightarrow> (sh, unknown_device J name)
      | Some e \<Rightarrow>
          (case entry_action e event of
             None \<Rightarrow>
               (sh, response_error J 404 ''unknown_event''
                 (''device '' @ quoted name @ '' declares no event '' @ quoted event @ '' (it has: '' @
                  or_none ''no events'' (join_with '', '' (map fst (de_events e))) @ '')''))
           | Some a \<Rightarrow> queue J w sh (InAction (de_id e) a)))"

definition require_capability ::
  "'f json_text \<Rightarrow> device_entry \<Rightarrow> capability_kind \<Rightarrow> response + unit" where
  "require_capability J e k =
     (if k \<notin> set (de_capabilities e)
      then Inl (unsupported_capability J (''device '' @ quoted (de_name e) @ '' did not declare '' @ quoted (kind_name k) @
        '' (it has: '' @ or_none ''no capabilities'' (join_with '', '' (map kind_name (de_capabilities e))) @ '')''))
      else if \<not> is_writable k
      then Inl (unsupported_capability J (quoted (kind_name k) @ '' is read-only; it is reported by the device, not set''))
      else Inr ())"

definition only_entry :: "'f json_text \<Rightarrow> 'f jmap \<Rightarrow> response + string \<times> 'f json" where
  "only_entry J obj =
     (case obj of
        [e] \<Rightarrow> Inr e
      | [] \<Rightarrow> Inl (malformed J (quoted ''set'' @ '' names no capability''))
      | many \<Rightarrow>
          Inl (malformed J (quoted ''set'' @ '' names '' @ decimal (length many) @ '' capabilities ('' @
            join_with '', '' (map fst many) @ ''); set one at a time'')))"

definition parse_set :: "'f json_text \<Rightarrow> device_entry \<Rightarrow> 'f json \<Rightarrow> response + desired" where
  "parse_set J e v =
     (case jobject v of
        None \<Rightarrow> Inl (malformed J (quoted ''set'' @
            '' expects an object, e.g. {\"set\": {\"brightness\": 40}}''))
      | Some obj \<Rightarrow>
          (case only_entry J obj of
             Inl r \<Rightarrow> Inl r
           | Inr (name, raw) \<Rightarrow>
               (case kind_from_name name of
                  None \<Rightarrow> Inl (unsupported_capability J (''unknown capability '' @ quoted name))
                | Some k \<Rightarrow>
                    (case require_capability J e k of
                       Inl r \<Rightarrow> Inl r
                     | Inr _ \<Rightarrow>
                         (case state_from_json k raw of
                            Inl message \<Rightarrow> Inl (malformed J message)
                          | Inr s \<Rightarrow> Inr (SetTo s))))))"

definition intent_names :: string where
  "intent_names =
     join_with '', '' (map quoted [''set'', ''toggle'', ''adjust_brightness'', ''send_ir_code''])"

text \<open>The intent under its key, once the body is known to have exactly one.\<close>

definition intent_of :: "'f json_text \<Rightarrow> device_entry \<Rightarrow> string \<Rightarrow> 'f json \<Rightarrow> response + desired" where
  "intent_of J e key v =
     (if key = ''set'' then parse_set J e v
      else if key = ''toggle'' then map_sum id (\<lambda>_. Toggle) (require_capability J e KSwitch)
      else if key = ''adjust_brightness'' then
        (case require_capability J e KBrightness of
           Inl r \<Rightarrow> Inl r
         | Inr _ \<Rightarrow>
             (case ji64 v of
                None \<Rightarrow> Inl (malformed J (quoted ''adjust_brightness'' @ '' expects an integer delta''))
              | Some n \<Rightarrow>
                  if - 128 \<le> n \<and> n \<le> 127 then Inr (AdjustBrightness (of_int n))
                  else Inl (malformed J (quoted ''adjust_brightness'' @
                    '' must be between -128 and 127, got '' @ show_int n))))
      else if key = ''send_ir_code'' then
        (case require_capability J e KIrTransmitter of
           Inl r \<Rightarrow> Inl r
         | Inr _ \<Rightarrow>
             (case jstr v of
                None \<Rightarrow> Inl (malformed J (quoted ''send_ir_code'' @ '' expects a base64 string''))
              | Some code \<Rightarrow> Inr (SendIr code)))
      else Inl (malformed J (''unknown intent '' @ quoted key @ ''; expected one of '' @ intent_names)))"

definition parse_intent :: "'f json_text \<Rightarrow> device_entry \<Rightarrow> bytes \<Rightarrow> response + desired" where
  "parse_intent J e body =
     (case sj_read J body of
        Inl err \<Rightarrow> Inl (malformed J (''body is not valid JSON: '' @ err))
      | Inr v \<Rightarrow>
          (case jobject v of
             None \<Rightarrow> Inl (malformed J ''body must be a JSON object, e.g. {\"set\": {\"switch\": true}}'')
           | Some obj \<Rightarrow>
               (case obj of
                  [(key, v)] \<Rightarrow> intent_of J e key v
                | [] \<Rightarrow> Inl (malformed J (''body has no intent; expected exactly one of '' @ intent_names))
                | many \<Rightarrow>
                    Inl (malformed J (''body has '' @ decimal (length many) @ '' intents ('' @
                      join_with '', '' (map fst many) @ ''); expected exactly one'')))))"

definition intent ::
  "'f json_text \<Rightarrow> bool \<Rightarrow> directory \<Rightarrow> rest_shared \<Rightarrow> string \<Rightarrow> bytes \<Rightarrow> rest_shared \<times> response" where
  "intent J w dir sh name body =
     (case dir_device dir name of
        None \<Rightarrow> (sh, unknown_device J name)
      | Some e \<Rightarrow>
          (case parse_intent J e body of
             Inr des \<Rightarrow> queue J w sh (InDevice (de_id e) des)
           | Inl r \<Rightarrow> (sh, r)))"

section \<open>Routing\<close>

definition get_only :: "'f json_text \<Rightarrow> string \<Rightarrow> rest_shared \<Rightarrow> response \<Rightarrow> rest_shared \<times> response" where
  "get_only J method sh f = (sh, if method = ''GET'' then f else method_not_allowed J method ''GET'')"

definition post_only ::
  "'f json_text \<Rightarrow> string \<Rightarrow> rest_shared \<Rightarrow> rest_shared \<times> response \<Rightarrow> rest_shared \<times> response" where
  "post_only J method sh f = (if method = ''POST'' then f else (sh, method_not_allowed J method ''POST''))"

definition segments :: "string \<Rightarrow> string list" where
  "segments path = filter (\<lambda>s. s \<noteq> []) (split_on (\<lambda>c. c = CHR 0x2F) path)"

datatype route =
    ToSystem
  | ToDevices | ToDevice string | ToIntent string | ToEvent string string
  | ToScenes | ToScene string | ToActivate string
  | ToRules | ToRule string

definition route_of :: "string list \<Rightarrow> route option" where
  "route_of segs =
     (case segs of
        [root] \<Rightarrow>
          if root = ''system'' then Some ToSystem
          else if root = ''devices'' then Some ToDevices
          else if root = ''scenes'' then Some ToScenes
          else if root = ''rules'' then Some ToRules
          else None
      | [root, name] \<Rightarrow>
          if root = ''devices'' then Some (ToDevice name)
          else if root = ''scenes'' then Some (ToScene name)
          else if root = ''rules'' then Some (ToRule name)
          else None
      | [root, name, verb] \<Rightarrow>
          if root = ''devices'' \<and> verb = ''intent'' then Some (ToIntent name)
          else if root = ''scenes'' \<and> verb = ''activate'' then Some (ToActivate name)
          else None
      | [root, name, verb, event] \<Rightarrow>
          if root = ''devices'' \<and> verb = ''events'' then Some (ToEvent name event) else None
      | _ \<Rightarrow> None)"

definition handle ::
  "'f json_text \<Rightarrow> bool \<Rightarrow> directory \<Rightarrow> string \<Rightarrow> string \<Rightarrow> bytes \<Rightarrow> rest_shared \<Rightarrow> rest_shared \<times> response" where
  "handle J w dir method path body sh =
     (case route_of (segments path) of
        Some ToSystem \<Rightarrow> get_only J method sh (get_system J dir sh)
      | Some ToDevices \<Rightarrow> get_only J method sh (get_devices J dir sh)
      | Some (ToDevice name) \<Rightarrow> get_only J method sh (get_device J dir sh name)
      | Some (ToIntent name) \<Rightarrow> post_only J method sh (intent J w dir sh name body)
      | Some (ToEvent name event) \<Rightarrow> post_only J method sh (fire_event J w dir sh name event)
      | Some ToScenes \<Rightarrow> get_only J method sh (get_scenes J dir)
      | Some (ToScene name) \<Rightarrow> get_only J method sh (get_scene J dir name)
      | Some (ToActivate name) \<Rightarrow> post_only J method sh (activate J w dir sh name)
      | Some ToRules \<Rightarrow> get_only J method sh (get_rules J dir sh)
      | Some (ToRule name) \<Rightarrow> get_only J method sh (get_rule J dir sh name)
      | None \<Rightarrow> (sh, response_error J 404 ''unknown_route'' (''no route for '' @ quoted path)))"

end
