(* ===== verification/Rest_Http.thy ===== *)
theory Rest_Http
  imports Rest_Routes
begin

text \<open>
  The socket layer of the API (\<open>adapters/rest_api/http.rs\<close>): reading one request from the bytes of a
  connection, the bearer token, the answer or the upgrade to a stream, and the accept loop with its
  budget of connections. A connection is the bytes its peer sends and how they end; what is written to
  it is a list of writes, of which a dead peer takes only the first few.
\<close>

definition MAX_CONNECTIONS :: nat where
  "MAX_CONNECTIONS = 16"

definition MAX_STREAMS :: nat where
  "MAX_STREAMS = 8"

definition MAX_BODY :: nat where
  "MAX_BODY = 65536"

definition MAX_HEADER_LINES :: nat where
  "MAX_HEADER_LINES = 64"

definition MAX_HEADER_BYTES :: nat where
  "MAX_HEADER_BYTES = 8192"

section \<open>Lines\<close>

text \<open>Well-formed UTF-8, by the table of the Unicode standard, as \<open>str::from_utf8\<close> checks it.\<close>

definition byte_in :: "nat \<Rightarrow> nat \<Rightarrow> char \<Rightarrow> bool" where
  "byte_in lo hi c \<longleftrightarrow> lo \<le> (of_char c :: nat) \<and> (of_char c :: nat) \<le> hi"

definition sequence_length :: "bytes \<Rightarrow> nat option" where
  "sequence_length s =
     (let tail = list_all (byte_in 0x80 0xBF) in
      (case s of
         [] \<Rightarrow> None
       | a # r \<Rightarrow>
           if byte_in 0 0x7F a then Some 1
           else if byte_in 0xC2 0xDF a \<and> length r \<ge> 1 \<and> tail (take 1 r) then Some 2
           else if length r \<ge> 2 \<and> tail (take 2 r) \<and>
             (byte_in 0xE0 0xE0 a \<and> byte_in 0xA0 0xBF (r ! 0) \<or> byte_in 0xE1 0xEC a \<or>
              byte_in 0xED 0xED a \<and> byte_in 0x80 0x9F (r ! 0) \<or> byte_in 0xEE 0xEF a) then Some 3
           else if length r \<ge> 3 \<and> tail (take 3 r) \<and>
             (byte_in 0xF0 0xF0 a \<and> byte_in 0x90 0xBF (r ! 0) \<or> byte_in 0xF1 0xF3 a \<or>
              byte_in 0xF4 0xF4 a \<and> byte_in 0x80 0x8F (r ! 0)) then Some 4
           else None))"

fun utf8_fuel :: "nat \<Rightarrow> bytes \<Rightarrow> bool" where
  "utf8_fuel n [] = True"
| "utf8_fuel 0 s = False"
| "utf8_fuel (Suc n) s = (case sequence_length s of Some k \<Rightarrow> utf8_fuel n (drop k s) | None \<Rightarrow> False)"

definition valid_utf8 :: "bytes \<Rightarrow> bool" where
  "valid_utf8 s = utf8_fuel (length s) s"

text \<open>How the bytes of a connection end: the peer closed it, or reading fails (a time-out, a reset).\<close>

datatype ending = Closed | Broken

fun until_newline :: "bytes \<Rightarrow> (bytes \<times> bytes) option" where
  "until_newline [] = None"
| "until_newline (c # cs) =
     (if c = char_of (10 :: nat) then Some ([c], cs)
      else map_option (\<lambda>(l, r). (c # l, r)) (until_newline cs))"

text \<open>\<open>read_line\<close>: \<open>None\<close> is the error, \<open>Some ([], _)\<close> the end of the connection.\<close>

definition read_line :: "ending \<Rightarrow> bytes \<Rightarrow> (string \<times> bytes) option" where
  "read_line en bs =
     (case (case until_newline bs of
              Some lr \<Rightarrow> Some lr
            | None \<Rightarrow> if en = Closed then Some (bs, []) else None) of
        Some (line, rest) \<Rightarrow> if valid_utf8 line then Some (line, rest) else None
      | None \<Rightarrow> None)"

section \<open>One request\<close>

record http_request =
  rq_method :: string
  rq_path :: string
  rq_body :: bytes
  rq_authorization :: "string option"

definition too_large :: "'f json_text \<Rightarrow> u16 \<Rightarrow> string \<Rightarrow> response" where
  "too_large J status message = response_error J status ''payload_too_large'' message"

text \<open>The end of the headers: the body of the announced length.\<close>

definition read_body ::
  "'f json_text \<Rightarrow> string \<Rightarrow> string \<Rightarrow> nat option \<Rightarrow> string option \<Rightarrow> bytes \<Rightarrow> response + http_request" where
  "read_body J method path content_length authorization rest =
     (let len = (case content_length of Some n \<Rightarrow> n | None \<Rightarrow> 0) in
      if MAX_BODY < len
      then Inl (too_large J 413 (''body of '' @ decimal len @ '' bytes exceeds the '' @ decimal MAX_BODY @ '' byte limit''))
      else if length rest < len
      then Inl (malformed J ''request body was shorter than its Content-Length'')
      else Inr \<lparr>rq_method = method, rq_path = path, rq_body = take len rest,
                rq_authorization = authorization\<rparr>)"

definition header_is :: "string \<Rightarrow> string \<Rightarrow> bool" where
  "header_is name header \<longleftrightarrow> eq_ignore_ascii_case (trim header) name"

text \<open>What one header line does to the announced length and the credentials.\<close>

definition header_line ::
  "'f json_text \<Rightarrow> string \<Rightarrow> nat option \<times> string option \<Rightarrow> response + nat option \<times> string option" where
  "header_line J line acc =
     (case split_once CHR '':'' line of
        None \<Rightarrow> Inr acc
      | Some (name, v) \<Rightarrow>
          if header_is ''content-length'' name then
            (case parse_uint (2 ^ 64) (trim v) of
               Some n \<Rightarrow> Inr (Some n, snd acc)
             | None \<Rightarrow> Inl (malformed J ''invalid Content-Length''))
          else if header_is ''authorization'' name then Inr (fst acc, Some (trim v))
          else if header_is ''transfer-encoding'' name then
            Inl (response_error J 411 ''malformed_body''
              ''chunked transfer encoding is not supported; send Content-Length'')
          else Inr acc)"

text \<open>The loop over at most this many more lines, of which so many bytes were read already.\<close>

fun read_headers ::
  "'f json_text \<Rightarrow> string \<Rightarrow> string \<Rightarrow> ending \<Rightarrow> nat \<Rightarrow> nat \<Rightarrow> nat option \<times> string option \<Rightarrow> bytes \<Rightarrow>
   response + http_request" where
  "read_headers J method path en 0 used acc bs = Inl (too_large J 431 ''too many header lines'')"
| "read_headers J method path en (Suc lines) used acc bs =
     (case read_line en bs of
        None \<Rightarrow> Inl (malformed J ''malformed headers'')
      | Some (line, rest) \<Rightarrow>
          if line = [] then Inl (too_large J 431 ''too many header lines'')
          else if MAX_HEADER_BYTES < used + length line
          then Inl (too_large J 431 ''header section too large'')
          else if trim_end line = [] then read_body J method path (fst acc) (snd acc) rest
          else
            (case header_line J (trim_end line) acc of
               Inl r \<Rightarrow> Inl r
             | Inr acc \<Rightarrow> read_headers J method path en lines (used + length line) acc rest))"

definition read_request :: "'f json_text \<Rightarrow> ending \<Rightarrow> bytes \<Rightarrow> response + http_request" where
  "read_request J en bs =
     (case read_line en bs of
        None \<Rightarrow> Inl (malformed J ''empty request'')
      | Some (line, rest) \<Rightarrow>
          if line = [] then Inl (malformed J ''empty request'')
          else
            (case split_whitespace line of
               method # target # _ \<Rightarrow>
                 read_headers J method (hd (split_on (\<lambda>c. c = CHR ''?'' \<or> c = CHR ''#'') target)) en
                   MAX_HEADER_LINES 0 (None, None) rest
             | _ \<Rightarrow> Inl (malformed J ''malformed request line'')))"

section \<open>The token\<close>

definition constant_time_eq :: "bytes \<Rightarrow> bytes \<Rightarrow> bool" where
  "constant_time_eq a b =
     (if length a \<noteq> length b then False
      else fold (\<lambda>(x, y) diff. or diff (xor (of_char x) (of_char y))) (zip a b) (0 :: u8) = 0)"

definition check_auth :: "'f json_text \<Rightarrow> string \<Rightarrow> string option \<Rightarrow> response option" where
  "check_auth J expected provided =
     (case provided of
        None \<Rightarrow> Some (response_error J 401 ''unauthorized''
          (''this API requires an '' @ quoted ''Authorization: Bearer <token>'' @ '' header''))
      | Some header \<Rightarrow>
          (case (case split_once_white header of
                   Some (scheme, rest) \<Rightarrow>
                     if eq_ignore_ascii_case scheme ''bearer'' then Some (trim rest) else None
                 | None \<Rightarrow> None) of
             None \<Rightarrow> Some (response_error J 401 ''unauthorized''
               (''malformed Authorization header; expected '' @ quoted ''Bearer <token>''))
           | Some candidate \<Rightarrow>
               if constant_time_eq candidate expected then None
               else Some (response_error J 403 ''forbidden'' ''invalid token'')))"

section \<open>Answering\<close>

definition reason_phrase :: "u16 \<Rightarrow> string" where
  "reason_phrase status =
     (if status = 200 then ''OK''
      else if status = 202 then ''Accepted''
      else if status = 400 then ''Bad Request''
      else if status = 404 then ''Not Found''
      else if status = 405 then ''Method Not Allowed''
      else if status = 411 then ''Length Required''
      else if status = 413 then ''Payload Too Large''
      else if status = 422 then ''Unprocessable Entity''
      else if status = 431 then ''Request Header Fields Too Large''
      else if status = 503 then ''Service Unavailable''
      else ''OK'')"

definition crlf :: string where
  "crlf = [char_of (13 :: nat), char_of (10 :: nat)]"

text \<open>The writes of a response: its head and its body.\<close>

definition write_response :: "response \<Rightarrow> string list" where
  "write_response r =
     [''HTTP/1.1 '' @ decimal (unat (rsp_status r)) @ '' '' @ reason_phrase (rsp_status r) @ crlf @
      ''Content-Type: application/json'' @ crlf @
      ''Content-Length: '' @ decimal (length (rsp_body r)) @ crlf @
      ''Connection: close'' @ crlf @ crlf,
      rsp_body r]"

datatype served = Answered response | Streaming

text \<open>What becomes of a connection's request: an answer, or the stream.\<close>

definition serve ::
  "'f json_text \<Rightarrow> bool \<Rightarrow> directory \<Rightarrow> string option \<Rightarrow> ending \<Rightarrow> bytes \<Rightarrow> rest_shared \<Rightarrow>
   rest_shared \<times> served" where
  "serve J w dir token en bs sh =
     (case read_request J en bs of
        Inl r \<Rightarrow> (sh, Answered r)
      | Inr rq \<Rightarrow>
          (case Option.bind token (\<lambda>expected. check_auth J expected (rq_authorization rq)) of
             Some r \<Rightarrow> (sh, Answered r)
           | None \<Rightarrow>
               if rq_method rq = ''GET'' \<and> trim_end_of CHR 0x2F (rq_path rq) = ''/stream'' then (sh, Streaming)
               else apsnd Answered (handle J w dir (rq_method rq) (rq_path rq) (rq_body rq) sh)))"

section \<open>The stream of a connection\<close>

definition stream_head :: string where
  "stream_head =
     ''HTTP/1.1 200 OK'' @ crlf @ ''Content-Type: text/event-stream'' @ crlf @
     ''Cache-Control: no-cache'' @ crlf @ ''Connection: keep-alive'' @ crlf @ crlf"

definition keepalive :: string where
  "keepalive = '': keepalive'' @ newline @ newline"

fun batch_writes :: "'f json_text \<Rightarrow> 'f batch \<Rightarrow> string list" where
  "batch_writes J (BatchFrames frames lagged) =
     (if lagged then [encode J lagged_frame] else []) @ map (encode J) frames"
| "batch_writes J BatchIdle = [keepalive]"
| "batch_writes J BatchDone = []"

fun stream_writes :: "'f json_text \<Rightarrow> 'f batch list \<Rightarrow> string list" where
  "stream_writes J [] = []"
| "stream_writes J (BatchDone # _) = []"
| "stream_writes J (r # rs) = batch_writes J r @ stream_writes J rs"

text \<open>
  The session: refused when the budget is used up, as the count of the subscribers has it at that
  moment; otherwise, given the mirror as it is read for the snapshot and the batches it takes, all it
  writes while the peer lives.
\<close>

definition streams_full :: "'f broadcaster \<Rightarrow> bool" where
  "streams_full b \<longleftrightarrow> MAX_STREAMS \<le> unat (bc_count b)"

definition too_many_streams :: "'f json_text \<Rightarrow> response" where
  "too_many_streams J =
     response_error J 503 ''too_many_streams'' ''too many concurrent streams; close one and retry''"

definition session_writes ::
  "'f json_text \<Rightarrow> directory \<Rightarrow> rest_shared \<Rightarrow> 'f batch list \<Rightarrow> string list" where
  "session_writes J dir sh rs =
     stream_head # encode J (snapshot_frame (devices_value dir sh)) # stream_writes J rs"

section \<open>Starting and accepting\<close>

text \<open>
  The server as the host holds it: nothing when the configuration has none, and otherwise what it was
  asked for and, once it listens, the address it is bound to.
\<close>

record 'a api_server =
  as_host :: string
  as_port :: u16
  as_bound :: "'a option"
  as_token :: "string option"

definition new_api_server :: "raw_rest_api option \<Rightarrow> 'a api_server option" where
  "new_api_server config =
     map_option (\<lambda>c. \<lparr>as_host = api_host c, as_port = api_port c, as_bound = None, as_token = api_token c\<rparr>) config"

text \<open>
  \<open>addrs host\<close> are the addresses the name resolves to, as far as being loopback goes, or \<open>None\<close> when
  it does not resolve; an address is loopback, unspecified, or neither.
\<close>

definition is_loopback :: "(string \<Rightarrow> bool list option) \<Rightarrow> string \<Rightarrow> bool \<Rightarrow> bool \<Rightarrow> bool" where
  "is_loopback addrs host addr_loopback addr_unspecified =
     (if addr_loopback then True
      else if addr_unspecified then False
      else (case addrs host of Some as \<Rightarrow> list_all id as | None \<Rightarrow> False))"

text \<open>
  The start: the socket library's \<open>bind\<close> gives an error or the bound address with its two qualities; what is
  returned is the address, and whether the warning about an open interface is logged.
\<close>

definition start_api_server ::
  "(string \<Rightarrow> bool list option) \<Rightarrow> (string \<Rightarrow> u16 \<Rightarrow> string + 'a \<times> bool \<times> bool) \<Rightarrow> 'a api_server option \<Rightarrow>
   'a api_server option \<times> (string + ('a \<times> bool) option)" where
  "start_api_server addrs bind_to sv =
     (case sv of
        None \<Rightarrow> (None, Inr None)
      | Some s \<Rightarrow>
          (case bind_to (as_host s) (as_port s) of
             Inl e \<Rightarrow> (Some s, Inl e)
           | Inr (addr, loopback, unspecified) \<Rightarrow>
               (Some (if as_bound s = None then s\<lparr>as_bound := Some addr\<rparr> else s),
                Inr (Some (addr, \<not> is_loopback addrs (as_host s) loopback unspecified \<and> as_token s = None)))))"

text \<open>Where the server connects to itself at the end, to wake its own accept loop.\<close>

definition self_connect :: "'a api_server option \<Rightarrow> ('a + string \<times> u16) option" where
  "self_connect sv =
     map_option (\<lambda>s. case as_bound s of Some addr \<Rightarrow> Inl addr | None \<Rightarrow> Inr (''127.0.0.1'', as_port s)) sv"

text \<open>
  The server as its threads interleave. A connection has a slot and a thread from its acceptance until
  the thread ends, and the guard of the slot is dropped with the thread: for a stream, when the stream
  ends. A thread that read a request for the stream first looks at the count, and subscribes later; it
  holds what it has still to store in the count when it has subscribed (\<open>Joining\<close>) and when the
  subscription was dropped (\<open>Leaving\<close>).
\<close>

datatype phase = Reading | Admitted | Joining u64 u64 | InStream u64 | Leaving u64

record 'f rest_server =
  rv_live :: nat
  rv_threads :: "(nat \<times> phase) list"
  rv_next :: nat
  rv_stopped :: bool
  rv_streams :: "'f broadcaster"

definition new_server :: "'f rest_server" where
  "new_server =
     \<lparr>rv_live = 0, rv_threads = [], rv_next = 0, rv_stopped = False, rv_streams = new_broadcaster\<rparr>"

datatype accept_result = Spawned nat | Refused | Nothing

definition too_many_connections :: "'f json_text \<Rightarrow> response" where
  "too_many_connections J =
     response_error J 503 ''too_many_connections'' ''too many concurrent connections; retry shortly''"

text \<open>What \<open>incoming()\<close> yields: a connection, or an error; and whether the thread for it can be started.\<close>

definition accept ::
  "bool \<Rightarrow> bool \<Rightarrow> bool \<Rightarrow> 'f rest_server \<Rightarrow> 'f rest_server \<times> accept_result" where
  "accept shutdown connected spawns a =
     (if rv_stopped a then (a, Nothing)
      else if shutdown then (a\<lparr>rv_stopped := True\<rparr>, Nothing)
      else if \<not> connected then (a, Nothing)
      else if MAX_CONNECTIONS \<le> rv_live a then (a, Refused)
      else
        (let a = a\<lparr>rv_live := rv_live a + 1\<rparr> in
         if spawns
         then (a\<lparr>rv_threads := hm_insert (rv_next a) Reading (rv_threads a), rv_next := rv_next a + 1\<rparr>,
               Spawned (rv_next a))
         else (a\<lparr>rv_live := rv_live a - 1\<rparr>, Nothing)))"

text \<open>The subscription a thread holds.\<close>

definition stream_of :: "phase \<Rightarrow> u64 option" where
  "stream_of ph = (case ph of Joining i _ \<Rightarrow> Some i | InStream i \<Rightarrow> Some i | _ \<Rightarrow> None)"

text \<open>The end of a thread, which has no subscription (any more): its slot is released.\<close>

definition end_thread :: "nat \<Rightarrow> 'f rest_server \<Rightarrow> 'f rest_server" where
  "end_thread t a =
     (case hm_get (rv_threads a) t of
        None \<Rightarrow> a
      | Some ph \<Rightarrow>
          if stream_of ph \<noteq> None then a
          else a\<lparr>rv_live := rv_live a - 1, rv_threads := hm_remove t (rv_threads a),
            rv_streams := (case ph of Leaving n \<Rightarrow> store_count n (rv_streams a) | _ \<Rightarrow> rv_streams a)\<rparr>)"

definition check_budget :: "nat \<Rightarrow> 'f rest_server \<Rightarrow> 'f rest_server" where
  "check_budget t a =
     (if hm_get (rv_threads a) t = Some Reading then
        if streams_full (rv_streams a) then end_thread t a
        else a\<lparr>rv_threads := hm_insert t Admitted (rv_threads a)\<rparr>
      else a)"

definition join_stream :: "nat \<Rightarrow> 'f rest_server \<Rightarrow> 'f rest_server" where
  "join_stream t a =
     (if hm_get (rv_threads a) t = Some Admitted then
        (case subscribe_locked (rv_streams a) of
           (b, i, n) \<Rightarrow> a\<lparr>rv_streams := b, rv_threads := hm_insert t (Joining i n) (rv_threads a)\<rparr>)
      else a)"

definition store_joined :: "nat \<Rightarrow> 'f rest_server \<Rightarrow> 'f rest_server" where
  "store_joined t a =
     (case hm_get (rv_threads a) t of
        Some (Joining i n) \<Rightarrow>
          a\<lparr>rv_streams := store_count n (rv_streams a), rv_threads := hm_insert t (InStream i) (rv_threads a)\<rparr>
      | _ \<Rightarrow> a)"

text \<open>The end of a stream: \<open>drop\<close> of the subscription, up to the store of the count.\<close>

definition leave_stream :: "nat \<Rightarrow> 'f rest_server \<Rightarrow> 'f rest_server" where
  "leave_stream t a =
     (case hm_get (rv_threads a) t of
        Some (InStream i) \<Rightarrow>
          (case remove_locked i (rv_streams a) of
             (b, n) \<Rightarrow> a\<lparr>rv_streams := b, rv_threads := hm_insert t (Leaving n) (rv_threads a)\<rparr>)
      | _ \<Rightarrow> a)"

inductive server_step :: "'f rest_server \<Rightarrow> 'f rest_server \<Rightarrow> bool" where
  accepts: "server_step a (fst (accept shutdown connected spawns a))"
| ends: "server_step a (end_thread t a)"
| checks: "server_step a (check_budget t a)"
| joins: "server_step a (join_stream t a)"
| stores: "server_step a (store_joined t a)"
| leaves: "server_step a (leave_stream t a)"
| broadcasts: "server_step a (a\<lparr>rv_streams := broadcast f (rv_streams a)\<rparr>)"

end
