(* ===== verification/Rest_Props.thy ===== *)
theory Rest_Props
  imports Rest_Routes Resolve_Props Home
begin

text \<open>
  What the API promises: which requests reach the engine, that what it shows is the store, and what it
  reports of a rule.
\<close>

section \<open>The adapter\<close>

interpretation rest_quiet: quiet_dispatch rest_dispatch
  by unfold_locales (simp add: rest_dispatch_def)

interpretation rest_mirror: mirror rest_folded rest_tick handle_state
  by unfold_locales (auto simp: rest_folded_def rest_tick_def handle_state_def fun_eq_iff)

definition rest_vtable :: "'x adapter_ops \<Rightarrow> ('x, rest_shared) vtable" where
  "rest_vtable D = \<lparr>dev = D, nb = rest_ops\<rparr>"

interpretation rest_house: mirror_house rest_folded rest_tick handle_state "rest_vtable D" for D
  by unfold_locales (simp_all add: rest_vtable_def rest_ops_def)

section \<open>Which requests reach the engine\<close>

text \<open>The state after a request was put into the channel.\<close>

definition post :: "bool \<Rightarrow> inbound \<Rightarrow> rest_shared \<Rightarrow> rest_shared" where
  "post w i sh =
     sh\<lparr>rs_inbound := rs_inbound sh @ [i], rs_wakes := rs_wakes sh + (if w then 1 else 0)\<rparr>"

text \<open>
  What may enter: a change of a capability that a listed device declared and that can be written, with
  a state in its range; a listed scene; a declared event of a listed device.
\<close>

definition admitted :: "directory \<Rightarrow> inbound \<Rightarrow> bool" where
  "admitted dir i \<longleftrightarrow>
     (case i of
        InDevice d des \<Rightarrow>
          list_ex (\<lambda>e. de_id e = d \<and> desired_kind des \<in> set (de_capabilities e)) (dir_devices dir) \<and>
          is_writable (desired_kind des) \<and> (case des of SetTo s \<Rightarrow> on_wire s | _ \<Rightarrow> True)
      | InScene s \<Rightarrow> list_ex (\<lambda>e. se_id e = s) (dir_scenes dir)
      | InAction d a \<Rightarrow> list_ex (\<lambda>e. de_id e = d \<and> a \<in> snd ` set (de_events e)) (dir_devices dir))"

text \<open>What a document of the library satisfies.\<close>

definition reads_json :: "'f json_text \<Rightarrow> bool" where
  "reads_json J \<longleftrightarrow> (\<forall>b v. sj_read J b = Inr v \<longrightarrow> json_ok v)"

lemma status_simps [simp]:
  "rsp_status (response_json J n v) = n"
  "rsp_status (response_error J n c m) = n"
  "rsp_status (unknown_device J name) = 404"
  "rsp_status (unknown_scene J name) = 404"
  "rsp_status (malformed J m) = 400"
  "rsp_status (unsupported_capability J m) = 422"
  "rsp_status (method_not_allowed J got allowed) = 405"
  by (simp_all add: response_json_def response_error_def unknown_device_def unknown_scene_def
      malformed_def unsupported_capability_def method_not_allowed_def)

lemma queue_eq:
  "queue J w sh i =
     (if rs_open sh then (post w i sh, response_json J 202 (object [(''accepted'', JBool True)]))
      else (sh, response_error J 503 ''engine_unavailable''
        ''the engine is not accepting requests (shutting down)''))"
  by (simp add: queue_def request_def post_def)

lemma dir_device_in: "dir_device dir name = Some e \<Longrightarrow> e \<in> set (dir_devices dir)"
  by (auto simp: dir_device_def bind_eq_Some_conv find_Some_iff)

lemma dir_scene_in: "dir_scene dir name = Some e \<Longrightarrow> e \<in> set (dir_scenes dir)"
  by (auto simp: dir_scene_def bind_eq_Some_conv find_Some_iff)

lemma entry_action_in: "entry_action e name = Some a \<Longrightarrow> a \<in> snd ` set (de_events e)"
  by (auto simp: entry_action_def find_Some_iff image_iff) (metis nth_mem snd_conv)

lemma require_capability_Inr:
  "require_capability J e k = Inr u \<longleftrightarrow> k \<in> set (de_capabilities e) \<and> is_writable k"
  by (auto simp: require_capability_def)

lemma require_capability_Inl: "require_capability J e k = Inl r \<Longrightarrow> rsp_status r = 422"
  by (auto simp: require_capability_def split: if_splits)

lemma only_entry_Inr: "only_entry J obj = Inr e \<longleftrightarrow> obj = [e]"
  by (auto simp: only_entry_def split: list.splits)

text \<open>The errors of a body.\<close>

definition refusal :: "response \<Rightarrow> bool" where
  "refusal r \<longleftrightarrow> rsp_status r = 400 \<or> rsp_status r = 422"

lemma refusal_simps [simp]: "refusal (malformed J m)" "refusal (unsupported_capability J m)"
  by (simp_all add: refusal_def)

lemma parse_set_Inl: "parse_set J e v = Inl r \<Longrightarrow> refusal r"
  by (auto simp: parse_set_def only_entry_def split: option.splits sum.splits list.splits)
    (simp add: refusal_def require_capability_Inl)

lemma intent_of_Inl: "intent_of J e key v = Inl r \<Longrightarrow> refusal r"
  by (auto simp: intent_of_def split: if_splits option.splits sum.splits dest: parse_set_Inl)
    (auto simp: refusal_def map_sum_def require_capability_Inl split: sum.splits)

lemma parse_intent_Inl: "parse_intent J e body = Inl r \<Longrightarrow> refusal r"
  by (auto simp: parse_intent_def split: option.splits sum.splits list.splits dest: intent_of_Inl)


lemma json_ok_member: "json_ok (JObject m) \<Longrightarrow> (k, v) \<in> set m \<Longrightarrow> json_ok v"
  by (auto simp: list_all_iff)

lemma parse_set_Inr:
  assumes "json_ok v" and "parse_set J e v = Inr des"
  shows "desired_kind des \<in> set (de_capabilities e) \<and> is_writable (desired_kind des) \<and>
    (\<exists>s. des = SetTo s \<and> on_wire s)"
proof -
  obtain obj name raw k s where v: "v = JObject obj" "only_entry J obj = Inr (name, raw)"
    and k: "require_capability J e k = Inr ()" "state_from_json k raw = Inr s" "des = SetTo s"
    using assms(2) by (auto simp: parse_set_def jobject_def split: option.splits sum.splits json.splits)
  have "json_ok raw"
    using assms(1) v by (auto simp: only_entry_Inr)
  with k show ?thesis
    by (auto simp: require_capability_Inr decode_exact)
qed

lemma intent_of_Inr:
  assumes "json_ok v" and "intent_of J e key v = Inr des"
  shows "desired_kind des \<in> set (de_capabilities e) \<and> is_writable (desired_kind des) \<and>
    (case des of SetTo s \<Rightarrow> on_wire s | _ \<Rightarrow> True)"
proof (cases "key = ''set''")
  case True
  with assms parse_set_Inr [OF assms(1), of J e des] show ?thesis
    by (auto simp: intent_of_def)
qed (use assms(2) in \<open>auto simp: intent_of_def map_sum_Inr require_capability_Inr
    split: if_splits option.splits sum.splits\<close>)

lemma parse_intent_Inr:
  assumes "reads_json J" and "parse_intent J e body = Inr des"
  shows "desired_kind des \<in> set (de_capabilities e) \<and> is_writable (desired_kind des) \<and>
    (case des of SetTo s \<Rightarrow> on_wire s | _ \<Rightarrow> True)"
proof -
  obtain key v where v: "sj_read J body = Inr (JObject [(key, v)])" "intent_of J e key v = Inr des"
    using assms(2) by (auto simp: parse_intent_def jobject_def
        split: option.splits sum.splits json.splits list.splits)
  have "json_ok (JObject [(key, v)])"
    using assms(1) v(1) unfolding reads_json_def by blast
  then have "json_ok v"
    by simp
  then show ?thesis
    using v(2) by (rule intent_of_Inr)
qed

text \<open>The three writing routes, and the reading ones.\<close>

definition admits :: "bool \<Rightarrow> directory \<Rightarrow> rest_shared \<Rightarrow> rest_shared \<times> response \<Rightarrow> bool" where
  "admits w dir sh out \<longleftrightarrow>
     (if rsp_status (snd out) = 202
      then rs_open sh \<and> (\<exists>i. admitted dir i \<and> fst out = post w i sh)
      else fst out = sh)"

lemma admits_queue: "admitted dir i \<Longrightarrow> admits w dir sh (queue J w sh i)"
  by (auto simp: admits_def queue_eq)

lemma admits_refused: "rsp_status r \<noteq> 202 \<Longrightarrow> admits w dir sh (sh, r)"
  by (simp add: admits_def)

lemma admits_activate: "admits w dir sh (activate J w dir sh name)"
  using dir_scene_in [of dir name]
  by (auto simp: activate_def admitted_def list_ex_iff intro!: admits_queue admits_refused split: option.split)

lemma admits_fire_event: "admits w dir sh (fire_event J w dir sh name event)"
  using dir_device_in [of dir name] entry_action_in [of _ event]
  by (fastforce simp: fire_event_def admitted_def list_ex_iff intro!: admits_queue admits_refused split: option.split)

lemma admits_intent: "reads_json J \<Longrightarrow> admits w dir sh (intent J w dir sh name body)"
  using dir_device_in [of dir name] parse_intent_Inl [of J _ body] parse_intent_Inr [of J _ body]
  by (fastforce simp: intent_def admitted_def list_ex_iff refusal_def
      intro!: admits_queue admits_refused split: option.split sum.split)

lemma admits_reading:
  "rsp_status (get_system J dir sh) = 200" "rsp_status (get_devices J dir sh) = 200"
  "rsp_status (get_scenes J dir) = 200" "rsp_status (get_rules J dir sh) = 200"
  "rsp_status (get_device J dir sh name) \<noteq> 202" "rsp_status (get_scene J dir name) \<noteq> 202"
  "rsp_status (get_rule J dir sh name) \<noteq> 202"
  by (simp_all add: get_system_def get_devices_def get_scenes_def get_rules_def get_device_def get_scene_def get_rule_def split: option.split)

lemma handle_kept:
  assumes "reads_json J"
  shows "admits w dir sh (handle J w dir method path body sh) \<and>
    (method \<noteq> ''POST'' \<longrightarrow> fst (handle J w dir method path body sh) = sh)"
proof -
  have get: "admits w dir sh (get_only J method sh r)" "fst (get_only J method sh r) = sh"
    if "rsp_status r \<noteq> 202" for r
    using that by (simp_all add: get_only_def admits_def)
  have posted: "admits w dir sh (post_only J method sh out)"
    "method \<noteq> ''POST'' \<Longrightarrow> fst (post_only J method sh out) = sh"
    if "admits w dir sh out" for out
    using that by (simp_all add: post_only_def admits_def)
  show ?thesis
    using assms
    by (auto simp: handle_def admits_reading get admits_refused
        intro!: posted admits_intent admits_activate admits_fire_event split: option.split route.split)
qed

lemma handle_accepted:
  assumes "reads_json J" and "handle J w dir method path body sh = (sh', r)" and "rsp_status r = 202"
  obtains i where "admitted dir i" "sh' = post w i sh"
  using handle_kept [OF assms(1), of w dir sh "method" path body] assms(2,3) by (auto simp: admits_def)

text \<open>
  C25: what an HTTP request can do. It either is accepted with 202, and then put exactly one request into
  the channel of a running engine, and one that the configuration allows: a declared, writable
  capability with a value in its range, a scene, or a declared event. Or it changed nothing at all. No
  request of any method, path or body writes the mirror, and a request that is not a POST changes nothing.
\<close>

theorem handle_admits:
  assumes "reads_json J"
  shows "admits w dir sh (handle J w dir method path body sh) \<and>
    (method \<noteq> ''POST'' \<longrightarrow> fst (handle J w dir method path body sh) = sh)"
  using assms by (rule handle_kept)


text \<open>A house with a lamp, and a reader that knows one document, the one that switches it on.\<close>

definition lamp_directory :: directory where
  "lamp_directory =
     \<lparr>dir_system_name = None, dir_timezone = ''UTC'',
      dir_devices = [\<lparr>de_id = DeviceId 0, de_name = ''lamp'', de_room = None,
        de_capabilities = [KSwitch, KOccupancy], de_events = [(''press'', ActionId 3)], de_synthetic = False\<rparr>],
      dir_scenes = [], dir_rules = [], dir_schedules = [], dir_device_by_name = [(''lamp'', DeviceId 0)],
      dir_scene_by_name = [], dir_rule_by_name = []\<rparr>"

definition lamp_document :: "unit json_text" where
  "lamp_document =
     \<lparr>sj_write = (\<lambda>v. Some []),
      sj_read = (\<lambda>b. if b = ''on'' then Inr (JObject [(''set'', JObject [(''switch'', JBool True)])])
        else Inl ''unexpected end of input''),
      sj_display = (\<lambda>v. [])\<rparr>"

lemma lamp_document_reads: "reads_json lamp_document"
  by (simp add: reads_json_def lamp_document_def)

theorem handle_admits_witness:
  "(\<exists>i. admitted lamp_directory i \<and>
      fst (handle lamp_document True lamp_directory ''POST'' ''/devices/lamp/intent'' ''on'' rest_channel) =
        post True i rest_channel) \<and>
   fst (handle lamp_document True lamp_directory ''GET'' ''/devices/lamp/intent'' ''on'' rest_channel) = rest_channel"
proof -
  have accepted: "rsp_status (snd (handle lamp_document True lamp_directory ''POST'' ''/devices/lamp/intent'' ''on''
      rest_channel)) = 202"
    by code_simp
  show ?thesis
    using handle_admits [OF lamp_document_reads, of True lamp_directory rest_channel "''POST''"
        "''/devices/lamp/intent''" "''on''"] accepted
      handle_admits [OF lamp_document_reads, of True lamp_directory rest_channel "''GET''"
        "''/devices/lamp/intent''" "''on''"]
    by (simp add: admits_def)
qed

section \<open>What is shown can be written back\<close>

lemma split_on_char: "c \<notin> set a \<Longrightarrow> split_on (\<lambda>x. x = c) (a @ c # b) = a # split_on (\<lambda>x. x = c) b"
  by (intro split_on_append) (auto simp: list_ex_iff)

lemma segments_intent:
  assumes "CHR 0x2F \<notin> set name" and "name \<noteq> []"
  shows "segments (''/devices/'' @ name @ ''/intent'') = [''devices'', name, ''intent'']"
proof -
  have "segments (''/devices/'' @ name @ ''/intent'') =
      filter (\<lambda>s. s \<noteq> []) ([] # ''devices'' # split_on (\<lambda>c. c = CHR 0x2F) (name @ CHR 0x2F # ''intent''))"
    by (simp add: segments_def)
  also have "split_on (\<lambda>c. c = CHR 0x2F) (name @ CHR 0x2F # ''intent'') = [name, ''intent'']"
    by (subst split_on_char [OF assms(1)]) simp
  finally show ?thesis
    using assms(2) by simp
qed

lemma json_ok_state: "json_ok (state_to_json s)"
proof (cases s)
  case (Temperature t)
  then show ?thesis
    using sint_ge [of t] sint_lt [of t] by (auto simp: json_int_def)
next
  case (Color r g b)
  have "''b'' < ''g''" "''g'' < ''r''" "''b'' < ''r''"
    by code_simp+
  then show ?thesis
    by (simp add: Color rgb_object_eq json_uint_def)
qed (simp_all add: json_uint_def)

lemma encode_decode: "on_wire s \<Longrightarrow> state_from_json (kind s) (state_to_json s) = Inr s"
  by (simp add: decode_exact json_ok_state)

text \<open>
  A write of any value the API can show is accepted: the state of a declared, writable capability,
  in its range and in the encoding of a GET, posted to the intent route of its device, is queued for
  the engine as exactly that request and answered with 202.
\<close>

theorem shown_state_is_accepted:
  assumes "dir_device dir name = Some e" and "name \<noteq> []" and "CHR 0x2F \<notin> set name"
    and "kind s \<in> set (de_capabilities e)" and "is_writable (kind s)" and "on_wire s" and "rs_open sh"
    and "sj_read J body = Inr (JObject [(''set'', JObject [(kind_name (kind s), state_to_json s)])])"
  shows "handle J w dir ''POST'' (''/devices/'' @ name @ ''/intent'') body sh =
    (post w (InDevice (de_id e) (SetTo s)) sh, response_json J 202 (object [(''accepted'', JBool True)]))"
proof -
  have route: "route_of (segments (''/devices/'' @ name @ ''/intent'')) = Some (ToIntent name)"
    unfolding segments_intent [OF assms(3,2)] by (simp add: route_of_def)
  have "kind_from_name (kind_name (kind s)) = Some (kind s)"
    by (cases "kind s") (simp_all add: kind_from_name_def)
  then have "parse_set J e (JObject [(kind_name (kind s), state_to_json s)]) = Inr (SetTo s)"
    using assms(4-6) by (simp add: parse_set_def jobject_def only_entry_def require_capability_def encode_decode)
  then have "parse_intent J e body = Inr (SetTo s)"
    by (simp add: parse_intent_def assms(8) jobject_def intent_of_def)
  with route show ?thesis
    using assms(1,7) by (simp only: handle_def) (simp add: post_only_def intent_def queue_eq)
qed

theorem shown_state_is_accepted_witness:
  "fst (handle lamp_document True lamp_directory ''POST'' ''/devices/lamp/intent'' ''on'' rest_channel) =
    post True (InDevice (DeviceId 0) (SetTo (Switch True))) rest_channel"
proof -
  have "dir_device lamp_directory ''lamp'' = Some \<lparr>de_id = DeviceId 0, de_name = ''lamp'', de_room = None,
      de_capabilities = [KSwitch, KOccupancy], de_events = [(''press'', ActionId 3)], de_synthetic = False\<rparr>"
    by code_simp
  from shown_state_is_accepted [OF this, of "Switch True" rest_channel lamp_document "''on''" True]
  show ?thesis
    by (simp add: on_wire_def rest_channel_def lamp_document_def)
qed

section \<open>What is shown is the store\<close>

definition device_of_store :: "store \<Rightarrow> device_entry \<Rightarrow> 'f json" where
  "device_of_store m e =
     object [(''name'', JString (de_name e)), (''room'', json_opt JString (de_room e)),
       (''synthetic'', JBool (de_synthetic e)),
       (''capabilities'', capabilities_object (de_capabilities e) (store_get m (de_id e))),
       (''events'', JArray (map (\<lambda>(n, _). JString n) (de_events e)))]"

text \<open>A house whose northbound adapters are this API, and a request served between two turns of its engine.\<close>

definition served_house :: "('x, rest_shared) engine \<Rightarrow> bool" where
  "served_house e \<longleftrightarrow> engine_wf e \<and> mirrors handle_state (e_state e) (e_northbound e)"

definition serve_all ::
  "(rest_shared \<Rightarrow> rest_shared) \<Rightarrow> ('x, rest_shared) engine \<Rightarrow> ('x, rest_shared) engine" where
  "serve_all f e = e\<lparr>e_northbound := map f (e_northbound e)\<rparr>"

lemma devices_value_of_store:
  assumes "mirrors handle_state m ns" and "sh \<in> set ns"
  shows "devices_value dir sh = JArray (map (device_of_store m) (dir_devices dir))"
proof -
  have "handle_state sh d = store_get m d" for d
    using assms by (auto simp: mirrors_def)
  then show ?thesis
    by (simp add: devices_value_def device_json_def device_of_store_def)
qed

lemma handle_cases: "fst (handle J w dir method path body sh) = sh \<or>
    (\<exists>i. fst (handle J w dir method path body sh) = post w i sh)"
  by (auto simp: handle_def get_only_def post_only_def intent_def activate_def fire_event_def queue_eq
      split: option.split route.split sum.split)

lemma handle_view: "handle_state (fst (handle J w dir method path body sh)) = handle_state sh"
  using handle_cases [of J w dir "method" path body sh] by (auto simp: handle_state_def post_def fun_eq_iff)

text \<open>
  C27: what a GET of the devices shows is the engine's store: after the start and after every injected
  event or advance, and still after any request served since, each capability of each device is shown
  with the value the store holds, and with null when none was ever reported.
\<close>

theorem api_shows_store:
  assumes "served_house e"
    and "start n (rest_vtable D) e = Some (Done e') \<or> inject n (rest_vtable D) ev e = Some (Done e') \<or>
      advance n (rest_vtable D) dt e = Some (Done e') \<or>
      e' = serve_all (\<lambda>sh. fst (handle J w dir method path body sh)) e"
  shows "served_house e' \<and>
    map (devices_value dir) (e_northbound e') =
      map (\<lambda>_. JArray (map (device_of_store (e_state e')) (dir_devices dir))) (e_northbound e')"
proof -
  have house: "served_house g \<longleftrightarrow> follows handle_state g" for g :: "('x, rest_shared) engine"
    by (simp add: follows_def served_house_def)
  have "served_house (serve_all (\<lambda>sh. fst (handle J w dir method path body sh)) e)"
    using assms(1)
    by (simp add: served_house_def serve_all_def mirrors_def handle_view)
  moreover have "served_house e'"
    if "start n (rest_vtable D) e = Some (Done e') \<or> inject n (rest_vtable D) ev e = Some (Done e') \<or>
      advance n (rest_vtable D) dt e = Some (Done e')"
    using assms(1) that unfolding house by (rule rest_house.follows_turn)
  ultimately have "served_house e'"
    using assms(2) by blast
  then show ?thesis
    using devices_value_of_store by (auto simp: served_house_def)
qed

text \<open>A lamp reports; before and after it, the API has what the store has.\<close>

definition api_house :: "(unit, rest_shared) engine" where
  "api_house = bind_device (DeviceId 0) 1 (add_northbound rest_channel (fst (add_adapter () new_engine)))"

definition api_lit :: "(unit, rest_shared) engine" where
  "api_lit =
     (case inject 1 (rest_vtable virtual_ops) (StateReported (DeviceId 0) (Switch True)) api_house of
        Some (Done e) \<Rightarrow> e
      | _ \<Rightarrow> api_house)"

lemma api_lit_inject:
  "inject 1 (rest_vtable virtual_ops) (StateReported (DeviceId 0) (Switch True)) api_house = Some (Done api_lit)"
  by code_simp

theorem api_shows_store_witness:
  "map (devices_value lamp_directory) (e_northbound api_lit) =
     [JArray [object [(''name'', JString ''lamp''), (''room'', JNull), (''synthetic'', JBool False),
       (''capabilities'', JObject [(''occupancy'', JNull), (''switch'', JBool True)]),
       (''events'', JArray [JString ''press''])] :: unit json]]"
proof -
  have "served_house api_house"
    by (simp add: served_house_def engine_wf_def api_house_def bind_device_def add_northbound_def
        add_adapter_def new_engine_def mirrors_def rest_channel_def handle_state_def store_get_def)
  from api_shows_store [OF this, of 1 virtual_ops api_lit "StateReported (DeviceId 0) (Switch True)" 0
      lamp_document True lamp_directory "[]" "[]" "[]"]
  have "map (devices_value lamp_directory) (e_northbound api_lit) =
      map (\<lambda>_. JArray (map (device_of_store (e_state api_lit)) (dir_devices lamp_directory)) :: unit json)
        (e_northbound api_lit)"
    using api_lit_inject by blast
  also have "\<dots> = [JArray [object [(''name'', JString ''lamp''), (''room'', JNull), (''synthetic'', JBool False),
       (''capabilities'', JObject [(''occupancy'', JNull), (''switch'', JBool True)]),
       (''events'', JArray [JString ''press''])]]]"
    by code_simp
  finally show ?thesis .
qed

section \<open>What is reported of a rule\<close>

text \<open>The history of the shared state: what the engine's callbacks and the HTTP threads do to it.\<close>

datatype rest_step =
    Ticked millis
  | Noticed notice
  | Folded device_id capability_state
  | Served string string bytes

definition rest_apply ::
  "'f json_text \<Rightarrow> bool \<Rightarrow> directory \<Rightarrow> directory option \<Rightarrow> rest_step \<Rightarrow>
   rest_shared \<times> 'f broadcaster \<Rightarrow> rest_shared \<times> 'f broadcaster" where
  "rest_apply J w dir stream st c =
     (case st of
        Ticked now \<Rightarrow> apfst (\<lambda>sh. fst (rest_tick sh now)) c
      | Noticed m \<Rightarrow> observe stream m c
      | Folded d s \<Rightarrow> apfst (\<lambda>sh. rest_folded sh d s) c
      | Served method path body \<Rightarrow> apfst (\<lambda>sh. fst (handle J w dir method path body sh)) c)"

text \<open>When a rule was considered, with what truth and whether it fired, at the time of the last tick.\<close>

fun considerations :: "rule_id \<Rightarrow> millis \<Rightarrow> rest_step list \<Rightarrow> (millis \<times> truth \<times> bool) list" where
  "considerations r now [] = []"
| "considerations r now (Ticked t # ss) = considerations r t ss"
| "considerations r now (Noticed (RuleConsidered r' truth fired) # ss) =
     (if r' = r then (now, truth, fired) # considerations r now ss else considerations r now ss)"
| "considerations r now (_ # ss) = considerations r now ss"

definition status_of :: "(millis \<times> truth \<times> bool) list \<Rightarrow> rule_status" where
  "status_of h =
     (let fired = filter (\<lambda>(_, _, f). f) h
      in \<lparr>rt_last_considered = (if h = [] then None else Some (fst (last h))),
          rt_last_truth = (if h = [] then None else Some (fst (snd (last h)))),
          rt_last_fired = (if fired = [] then None else Some (fst (last fired))),
          rt_fire_count = of_nat (min (length fired) (2 ^ 64 - 1))\<rparr>)"

lemma saturating_count:
  "(if of_nat (min n (2 ^ 64 - 1)) = (- 1 :: u64) then - 1 else of_nat (min n (2 ^ 64 - 1)) + 1) =
    (of_nat (min (Suc n) (2 ^ 64 - 1)) :: u64)"
proof (cases "n < 2 ^ 64 - 1")
  case True
  then have "unat (of_nat n :: u64) \<noteq> unat (- 1 :: u64)"
    by (simp add: unat_of_nat unsigned_minus_1_eq_mask mask_eq_exp_minus_1)
  with True show ?thesis
    by (auto simp: min_def)
qed (simp add: min_def not_less)

lemma consider_status_of: "consider_status now truth fired (status_of h) = status_of (h @ [(now, truth, fired)])"
  using saturating_count [of "length (filter (\<lambda>(_, _, f). f) h)"]
  by (auto simp: consider_status_def status_of_def Let_def)

lemma status_of_nil [simp]: "status_of [] = status_default"
  by (simp add: status_of_def status_default_def)

lemma rest_apply_simps [simp]:
  "rest_apply J w dir stream (Ticked now) (sh, b) = (fst (rest_tick sh now), b)"
  "rest_apply J w dir stream (Noticed m) (sh, b) = observe stream m (sh, b)"
  "rest_apply J w dir stream (Folded d s) (sh, b) = (rest_folded sh d s, b)"
  "rest_apply J w dir stream (Served method path body) (sh, b) = (fst (handle J w dir method path body sh), b)"
  by (simp_all add: rest_apply_def)

text \<open>A step of the history adds to what was seen of the rule.\<close>

lemma handle_rules_now: "rs_rules (fst (handle J w dir method path body sh)) = rs_rules sh"
  "rs_now (fst (handle J w dir method path body sh)) = rs_now sh"
  using handle_cases [of J w dir "method" path body sh] by (auto simp: post_def)

lemma rest_run_status:
  "handle_rule_status sh r = status_of h \<Longrightarrow>
    handle_rule_status (fst (fold (rest_apply J w dir stream) ss (sh, b))) r =
      status_of (h @ considerations r (rs_now sh) ss)"
proof (induction ss arbitrary: sh b h)
  case (Cons st ss)
  let ?run = "\<lambda>sh b. fst (fold (rest_apply J w dir stream) ss (sh, b))"
  have same: "handle_rule_status (?run sh' b') r = status_of (h @ considerations r (rs_now sh') ss)"
    if "rs_rules sh' = rs_rules sh" for sh' b'
    using that Cons.IH [of sh'] Cons.prems by (simp add: handle_rule_status_def)
  show ?case
  proof (cases st)
    case (Noticed m)
    show ?thesis
    proof (cases m)
      case (RuleConsidered r' truth fired)
      let ?sh = "sh\<lparr>rs_rules := hm_insert r' (consider_status (rs_now sh) truth fired (handle_rule_status sh r'))
        (rs_rules sh)\<rparr>"
      have "handle_rule_status ?sh r =
          status_of (if r' = r then h @ [(rs_now sh, truth, fired)] else h)"
        using Cons.prems by (simp add: handle_rule_status_def consider_status_of [symmetric])
      from Cons.IH [OF this] show ?thesis
        by (simp add: Noticed RuleConsidered)
    qed (simp_all add: Noticed same)
  qed (simp_all add: rest_tick_def rest_folded_def same handle_rules_now)
qed simp

text \<open>
  C38: what the rules route reports of a rule is its history: whatever the engine and the HTTP threads did, in
  any order, the time and truth of the last consideration, the time of the last firing, both as of the
  tick before them, and the number of firings, which stays at the largest 64-bit number.
\<close>

theorem rule_status_is_history:
  "handle_rule_status (fst (fold (rest_apply J w dir stream) steps (rest_channel, b))) r =
    status_of (considerations r 0 steps)"
  using rest_run_status [of rest_channel r "[]"] by (simp add: rest_channel_def handle_rule_status_def)

section \<open>The directory of a configuration\<close>

lemma find_map_of: "map_of (map (\<lambda>d. (f d, g d)) ds) k = map_option g (find (\<lambda>d. f d = k) ds)"
  by (induction ds) auto

lemma find_map_back: "find P (map f xs) = map_option f (find (P \<circ> f) xs)"
  by (induction xs) auto

lemma from_config_lookup:
  assumes "distinct (map de_id (directory_devices cfg))"
  shows "dir_device (from_config cfg) name = find (\<lambda>e. de_name e = name) (rev (directory_devices cfg))"
proof -
  let ?ds = "directory_devices cfg"
  have "hm_get (collect_map (map (\<lambda>d. (de_name d, de_id d)) ?ds)) name =
      map_option de_id (find (\<lambda>e. de_name e = name) (rev ?ds))"
    using hm.get_inserts [of "[]" "map (\<lambda>d. (de_name d, de_id d)) ?ds"] find_map_of [of de_name de_id "rev ?ds"]
    by (simp add: collect_map_def rev_map)
  moreover have "find (\<lambda>d. de_id d = de_id e) ?ds = Some e" if "find (\<lambda>e. de_name e = name) (rev ?ds) = Some e" for e
  proof (rule find_by_key [OF assms])
    show "e \<in> set ?ds"
      using that unfolding find_Some_iff by (metis length_rev nth_mem set_rev)
  qed
  ultimately show ?thesis
    by (cases "find (\<lambda>e. de_name e = name) (rev ?ds)") (simp_all add: dir_device_def from_config_def Let_def)
qed

definition clock_entry :: "('n, 'f, 'x, 'b, 'w) compiled_config \<Rightarrow> device_entry" where
  "clock_entry cfg = last (directory_devices cfg)"

definition listed :: "device_def \<Rightarrow> device_entry" where
  "listed d =
     \<lparr>de_id = dd_id d, de_name = dd_name d, de_room = dm_room (dd_metadata d),
      de_capabilities = dd_capabilities d, de_events = map (\<lambda>e. (ev_name e, ev_id e)) (dd_events d),
      de_synthetic = False\<rparr>"

text \<open>
  In a configuration that compiles, the API finds each device under its name, with its own id,
  capabilities and events. There is one exception: a device that is itself called clock is listed but
  not found, since the synthetic clock has taken its name.
\<close>

theorem directory_finds_devices:
  assumes "resolve L reg raw = Inr cfg" and "raw_ok raw" and "length (rc_devices raw) < 2 ^ 32"
    and "d \<in> set (cc_devices cfg)"
  shows "dir_device (from_config cfg) (dd_name d) =
    Some (if dd_name d = clock_device_name then clock_entry cfg else listed d)"
proof -
  note R = resolved [OF assms(1,2)]
  have names: "map dd_name (cc_devices cfg) = map fst (rc_devices raw)"
    by (rule device_names [OF assms(1,2)])
  then have len: "length (cc_devices cfg) < 2 ^ 32"
    using assms(3) by (metis length_map)
  have dist: "distinct (map dd_name (cc_devices cfg))"
    using assms(2) unfolding names by (simp add: raw_ok_def btree_ok_def)
  have all: "directory_devices cfg = map listed (cc_devices cfg) @ [clock_entry cfg]"
    by (simp add: directory_devices_def listed_def clock_entry_def)
  have "map de_id (directory_devices cfg) = map (\<lambda>i. DeviceId (word_of_nat i)) [0..<Suc (length (cc_devices cfg))]"
    using R(6,8) by (simp add: directory_devices_def comp_def)
  then have ids: "distinct (map de_id (directory_devices cfg))"
    using len by (auto simp: distinct_map inj_on_def word_of_nat_inj32)
  have clock: "de_name (clock_entry cfg) = clock_device_name"
    by (simp add: clock_entry_def directory_devices_def)
  have "distinct (map dd_name (rev (cc_devices cfg)))"
    using dist by (simp add: rev_map [symmetric])
  then have found: "find (\<lambda>x. dd_name x = dd_name d) (rev (cc_devices cfg)) = Some d"
    using assms(4) by (intro find_by_key) simp_all
  have "find (\<lambda>e. de_name e = dd_name d) (rev (map listed (cc_devices cfg))) = Some (listed d)"
    using found by (simp add: rev_map find_map_back) (simp add: listed_def comp_def)
  then show ?thesis
    unfolding from_config_lookup [OF ids] all by (simp add: clock)
qed

theorem directory_finds_devices_witness:
  "map_option de_id (dir_device (from_config home_cfg) ''lamp'') = Some (DeviceId 1)"
  using directory_finds_devices [OF home_compiles home_raw_ok, of "home_devices ! 1"]
  by (simp add: home_cfg_sel home_raw_def home_devices_def clock_device_name_def listed_def)

end
