(* ===== verification/Rest_Http_Props.thy ===== *)
theory Rest_Http_Props
  imports Rest_Http Rest_Props
begin

text \<open>
  The socket layer: a well-formed request is read exactly, nothing is reached without the token, and the
  slots of the connections are never exceeded and never lost.
\<close>

section \<open>The token\<close>

lemma of_char_u8: "(of_char c :: u8) = of_char d \<longleftrightarrow> c = d"
proof
  assume "(of_char c :: u8) = of_char d"
  then have "(of_nat (of_char c) :: u8) = of_nat (of_char d)"
    by (simp add: of_nat_of_char)
  moreover have "(of_char c :: nat) < 256" "(of_char d :: nat) < 256"
    by simp_all
  ultimately have "(of_char c :: nat) = of_char d"
    by (simp add: word_of_nat_eq_iff take_bit_nat_eq_self)
  then show "c = d"
    by simp
qed simp

lemma xor_eq_0: "xor x y = 0 \<longleftrightarrow> x = y" for x y :: "'a::len word"
  by (metis xor.assoc xor.left_neutral xor_self_eq)

lemma fold_diff:
  "length a = length b \<Longrightarrow>
    fold (\<lambda>(x, y) diff. or diff (xor (of_char x) (of_char y))) (zip a b) (d :: u8) = 0 \<longleftrightarrow> d = 0 \<and> a = b"
proof (induction a b arbitrary: d rule: list_induct2)
  case (Cons x a y b)
  have "or d (xor (of_char x) (of_char y)) = 0 \<longleftrightarrow> d = 0 \<and> x = y"
    by (simp add: or_eq_0_iff xor_eq_0 of_char_u8)
  with Cons.IH show ?case
    by auto
qed simp

lemma constant_time_eq_iff: "constant_time_eq a b \<longleftrightarrow> a = b"
  using fold_diff [of a b 0] by (auto simp: constant_time_eq_def)


text \<open>The credential of a request: what follows the scheme \<open>Bearer\<close>, in any case, in its header.\<close>

definition credential :: "http_request \<Rightarrow> string option" where
  "credential rq =
     Option.bind (rq_authorization rq) (\<lambda>h.
       Option.bind (split_once_white h) (\<lambda>(scheme, rest).
         if eq_ignore_ascii_case scheme ''bearer'' then Some (trim rest) else None))"

lemma check_auth_None: "check_auth J t (rq_authorization rq) = None \<longleftrightarrow> credential rq = Some t"
  by (auto simp: check_auth_def credential_def constant_time_eq_iff split: option.split prod.split)

lemma check_auth_status: "check_auth J t provided = Some r \<Longrightarrow> rsp_status r = 401 \<or> rsp_status r = 403"
  by (auto simp: check_auth_def split: option.splits prod.splits if_splits)

lemma too_large_status [simp]: "rsp_status (too_large J n m) = n"
  by (simp add: too_large_def)

definition unread :: "response \<Rightarrow> bool" where
  "unread r \<longleftrightarrow> rsp_status r = 400 \<or> rsp_status r = 411 \<or> rsp_status r = 413 \<or> rsp_status r = 431"

lemma header_line_Inl: "header_line J line acc = Inl r \<Longrightarrow> unread r"
  by (auto simp: header_line_def unread_def split: option.splits prod.splits if_splits)

lemma read_headers_Inl: "read_headers J method path en lines used acc bs = Inl r \<Longrightarrow> unread r"
proof (induction J "method" path en lines used acc bs rule: read_headers.induct)
  case (2 J "method" path en lines used acc bs)
  then show ?case
    by (auto simp: read_body_def Let_def dest: header_line_Inl split: option.splits prod.splits if_splits sum.splits)
      (auto simp: unread_def)
qed (auto simp: unread_def)

lemma read_request_Inl: "read_request J en bs = Inl r \<Longrightarrow> unread r"
  by (auto simp: read_request_def dest: read_headers_Inl split: option.splits prod.splits if_splits list.splits)
    (auto simp: unread_def)

definition granted :: "'f json_text \<Rightarrow> string \<Rightarrow> ending \<Rightarrow> bytes \<Rightarrow> bool" where
  "granted J t en bs \<longleftrightarrow>
     (case read_request J en bs of Inr rq \<Rightarrow> credential rq = Some t | Inl _ \<Rightarrow> False)"

text \<open>
  C28: with a token configured nothing is reached without it. A connection whose request does not carry
  exactly this bearer token, whatever its method, path and bytes, changes nothing, opens no stream and
  is answered with an error of the reading or with 401 or 403; one that does is served just as it
  would be without a token.
\<close>

theorem token_required:
  "if granted J t en bs then serve J w dir (Some t) en bs sh = serve J w dir None en bs sh
   else (\<exists>r. serve J w dir (Some t) en bs sh = (sh, Answered r) \<and>
     (unread r \<or> rsp_status r = 401 \<or> rsp_status r = 403))"
proof (cases "read_request J en bs")
  case (Inl r)
  with read_request_Inl [OF Inl] show ?thesis
    by (simp add: granted_def serve_def)
next
  case (Inr rq)
  show ?thesis
  proof (cases "check_auth J t (rq_authorization rq)")
    case None
    then show ?thesis
      using check_auth_None [of J t rq] by (simp add: Inr granted_def serve_def)
  next
    case (Some r)
    then have "credential rq \<noteq> Some t"
      using check_auth_None [of J t rq] by auto
    with Some check_auth_status [OF Some] show ?thesis
      by (simp add: Inr granted_def serve_def)
  qed
qed

section \<open>A request is read as it was written\<close>

definition graphic :: "char \<Rightarrow> bool" where
  "graphic c \<longleftrightarrow> byte_in 0x21 0x7E c"

text \<open>No white space starts or ends with a graphic character; a blank is one of its own.\<close>

lemma white_space_heads:
  "list_all (\<lambda>w. w \<noteq> [] \<and> \<not> graphic (hd w)) white_space"
  "list_all (\<lambda>w. w \<noteq> [] \<and> \<not> graphic (hd w)) (map rev white_space)"
  by code_simp+

lemma starts_with_first: "starts_with w (c # cs) \<Longrightarrow> w \<noteq> [] \<Longrightarrow> hd w = c"
  by (cases w) (auto simp: starts_with_def)

lemma graphic_not_white:
  assumes "graphic c"
  shows "find (\<lambda>w. starts_with w (c # cs)) white_space = None"
    and "find (\<lambda>w. starts_with w (c # cs)) (map rev white_space) = None"
  using assms white_space_heads starts_with_first unfolding find_None_iff list_all_iff by metis+

lemma drop_any_graphic:
  "graphic c \<Longrightarrow> drop_any n white_space (c # cs) = c # cs"
  "graphic c \<Longrightarrow> drop_any n (map rev white_space) (c # cs) = c # cs"
  using graphic_not_white [of c cs] by (cases n; simp only: drop_any.simps option.case)+

definition blank :: "char \<Rightarrow> bool" where
  "blank c \<longleftrightarrow> c \<in> {char_of (10 :: nat), char_of (13 :: nat), char_of (32 :: nat)}"

lemma blank_heads:
  "blank c \<Longrightarrow> list_all (\<lambda>w. w \<noteq> [] \<and> (hd w = c \<longrightarrow> w = [c])) ws \<and> [c] \<in> set ws"
  if "ws = white_space \<or> ws = map rev white_space"
  using that unfolding blank_def by (elim insertE disjE emptyE; simp only:; code_simp)

lemma find_blank:
  assumes "list_all (\<lambda>w. w \<noteq> [] \<and> (hd w = c \<longrightarrow> w = [c])) ws \<and> [c] \<in> set ws"
  shows "find (\<lambda>w. starts_with w (c # cs)) ws = Some [c]"
proof (cases "find (\<lambda>w. starts_with w (c # cs)) ws")
  case None
  with assms show ?thesis
    by (auto simp: find_None_iff starts_with_def)
next
  case (Some w)
  then have "w \<in> set ws" "starts_with w (c # cs)"
    by (auto simp: find_Some_iff)
  with assms starts_with_first [of w c cs] Some show ?thesis
    by (auto simp: list_all_iff)
qed

lemma blank_white:
  assumes "blank c"
  shows "find (\<lambda>w. starts_with w (c # cs)) white_space = Some [c]"
    and "find (\<lambda>w. starts_with w (c # cs)) (map rev white_space) = Some [c]"
  using blank_heads [OF _ assms] by (blast intro: find_blank)+

lemma blank_space: "blank CHR '' ''" "blank (char_of (10 :: nat))" "blank (char_of (13 :: nat))"
  by code_simp+

lemma drop_any_blank:
  "blank c \<Longrightarrow> drop_any (Suc n) white_space (c # cs) = drop_any n white_space cs"
  "blank c \<Longrightarrow> drop_any (Suc n) (map rev white_space) (c # cs) = drop_any n (map rev white_space) cs"
  using blank_white [of c cs] by (simp_all only: drop_any.simps option.case list.size drop_Suc drop_0) simp_all

lemma trim_start_graphic: "graphic c \<Longrightarrow> trim_start (c # cs) = c # cs"
  by (simp only: trim_start_def drop_any_graphic)

lemma trim_end_graphic: "graphic c \<Longrightarrow> trim_end (cs @ [c]) = cs @ [c]"
  by (simp add: trim_end_def drop_any_graphic del: drop_any.simps)

lemma trim_end_blank: "blank b \<Longrightarrow> trim_end (cs @ [b]) = trim_end cs"
  by (simp add: trim_end_def drop_any_blank del: drop_any.simps)

lemma trim_start_blank: "blank b \<Longrightarrow> trim_start (b # cs) = trim_start cs"
  by (simp add: trim_start_def drop_any_blank del: drop_any.simps)

lemma split_once_white_word:
  "list_all graphic w \<Longrightarrow> blank b \<Longrightarrow> split_once_white (w @ b # r) = Some (w, r)"
proof (induction w)
  case Nil
  then show ?case
    using blank_white(1) [of b r] by simp
next
  case (Cons c w)
  then show ?case
    using graphic_not_white(1) [of c "w @ b # r"] by simp
qed

lemma split_whitespace_words:
  assumes "list_all graphic m" "m \<noteq> []" "list_all graphic t" "t \<noteq> []" "blank b" "blank b'"
  shows "\<exists>ws. split_whitespace (m @ b # t @ b' # r) = m # t # ws"
proof -
  have word: "words_fuel (Suc n) (w @ c # s) = w # words_fuel n s"
    if "list_all graphic w" "w \<noteq> []" "blank c" for n w c s
    using that split_once_white_word [of w c s] trim_start_graphic [of "hd w" "tl w @ c # s"]
    by (cases w) auto
  have "split_whitespace (m @ b # t @ b' # r) = words_fuel (Suc (Suc (length (m @ t @ b' # r)))) (m @ b # t @ b' # r)"
    by (simp add: split_whitespace_def)
  also have "\<dots> = m # t # words_fuel (length (m @ t @ b' # r)) r"
    by (simp only: word [OF assms(1,2,5)] word [OF assms(3,4,6)])
  finally show ?thesis
    by blast
qed

lemma ascii_utf8: "list_all (byte_in 0 0x7F) s \<Longrightarrow> valid_utf8 s"
proof -
  have "list_all (byte_in 0 0x7F) s \<Longrightarrow> length s \<le> n \<Longrightarrow> utf8_fuel n s" for n
  proof (induction n arbitrary: s)
    case (Suc n)
    then show ?case
      by (cases s) (auto simp: sequence_length_def)
  qed (cases s; simp)
  then show "list_all (byte_in 0 0x7F) s \<Longrightarrow> valid_utf8 s"
    by (simp add: valid_utf8_def)
qed

lemma read_line_ascii:
  assumes "list_all (byte_in 0 0x7F) l" and "char_of (10 :: nat) \<notin> set l"
  shows "read_line en (l @ char_of (10 :: nat) # r) = Some (l @ [char_of (10 :: nat)], r)"
proof -
  have "until_newline (l @ char_of (10 :: nat) # r) = Some (l @ [char_of (10 :: nat)], r)"
    using assms(2) by (induction l) auto
  moreover have "valid_utf8 (l @ [char_of (10 :: nat)])"
    using assms(1) by (intro ascii_utf8) (simp add: byte_in_def)
  ultimately show ?thesis
    by (simp add: read_line_def)
qed

lemma newline_eq: "char_of (10 :: nat) = c \<longleftrightarrow> of_char c = (10 :: nat)"
  by (auto dest: arg_cong [of _ _ char_of])

lemma graphic_ascii: "list_all graphic s \<Longrightarrow> list_all (byte_in 0 0x7F) s \<and> char_of (10 :: nat) \<notin> set s"
  by (auto simp: list_all_iff graphic_def byte_in_def)

lemma digits_graphic: "list_all graphic (decimal n)"
  using decimal_digits [of n] by (auto simp: list_all_iff is_digit_def graphic_def byte_in_def)

text \<open>The bytes of a request with a body, and what is left of its target.\<close>

definition request_bytes :: "string \<Rightarrow> string \<Rightarrow> bytes \<Rightarrow> bytes" where
  "request_bytes method target body =
     method @ '' '' @ target @ '' HTTP/1.1'' @ crlf @
     ''Content-Length: '' @ decimal (length body) @ crlf @ crlf @ body"

definition without_query :: "string \<Rightarrow> string" where
  "without_query target = takeWhile (\<lambda>c. c \<noteq> CHR ''?'' \<and> c \<noteq> CHR ''#'') target"

lemma hd_split_on: "hd (split_on p s) = takeWhile (\<lambda>c. \<not> p c) s"
  by (induction s) (auto split: list.splits)

lemma length_decimal: "n < 10 ^ Suc k \<Longrightarrow> length (decimal n) \<le> Suc k"
proof (induction k arbitrary: n)
  case (Suc k)
  show ?case
  proof (cases "n < 10")
    case False
    have "n div 10 < 10 ^ Suc k"
      using Suc.prems by (simp add: less_mult_imp_div_less)
    from Suc.IH [OF this] False show ?thesis
      by (subst decimal.simps) simp
  qed (subst decimal.simps, simp)
qed (subst decimal.simps, simp)

lemma trim_number: "trim (CHR '' '' # decimal n) = decimal n"
proof -
  obtain c cs where d: "decimal n = c # cs"
    by (cases "decimal n") auto
  obtain b bs where e: "decimal n = bs @ [b]"
    by (cases "decimal n" rule: rev_cases) auto
  have "graphic c" "graphic b"
    using digits_graphic [of n] by (simp add: d, simp add: e)
  then have "trim_start (CHR '' '' # decimal n) = decimal n" "trim_end (decimal n) = decimal n"
    using trim_start_blank [of "CHR '' ''" "decimal n"] trim_start_graphic [of c cs] trim_end_graphic [of b bs]
    by (simp_all add: d [symmetric] e [symmetric] blank_space)
  then show ?thesis
    by (simp add: trim_def)
qed

lemma trim_end_line: "list_all graphic d \<Longrightarrow> d \<noteq> [] \<Longrightarrow> trim_end (s @ d @ crlf) = s @ d"
  by (cases d rule: rev_cases)
    (use trim_end_blank [of "char_of (10 :: nat)" "s @ d @ [char_of (13 :: nat)]"]
      trim_end_blank [of "char_of (13 :: nat)" "s @ d"] trim_end_graphic [of "last d" "s @ butlast d"]
     in \<open>auto simp: crlf_def blank_space\<close>)

lemma content_length_line:
  "n < 2 ^ 64 \<Longrightarrow> header_line J (''Content-Length: '' @ decimal n) (None, a) = Inr (Some n, a)"
proof -
  assume n: "n < 2 ^ 64"
  have "split_once CHR '':'' (''Content-Length: '' @ decimal n) = Some (''Content-Length'', CHR '' '' # decimal n)"
    by simp
  moreover have "header_is ''content-length'' ''Content-Length''"
    by code_simp
  ultimately show ?thesis
    using n by (simp only: header_line_def) (simp add: trim_number parse_uint_decimal)
qed

lemma read_length_header:
  assumes "n < 2 ^ 64" and "length (decimal n) \<le> 20"
  shows "read_headers J method path en (Suc (Suc lines)) 0 (None, None)
     (''Content-Length: '' @ decimal n @ crlf @ crlf @ rest) = read_body J method path (Some n) None rest"
proof -
  let ?l = "''Content-Length: '' @ decimal n @ [char_of (13 :: nat)]"
  have "list_all (byte_in 0 0x7F) ?l" "char_of (10 :: nat) \<notin> set ?l"
    using graphic_ascii [OF digits_graphic [of n]] by (auto simp: byte_in_def newline_eq)
  then have l1: "read_line en (''Content-Length: '' @ decimal n @ crlf @ crlf @ rest) =
      Some (''Content-Length: '' @ decimal n @ crlf, crlf @ rest)"
    using read_line_ascii [of ?l en "crlf @ rest"] by (simp add: crlf_def)
  have l2: "read_line en (crlf @ rest) = Some (crlf, rest)"
    using read_line_ascii [of "[char_of (13 :: nat)]" en rest] by (simp add: crlf_def byte_in_def)
  have t: "trim_end (''Content-Length: '' @ decimal n @ crlf) = ''Content-Length: '' @ decimal n"
    by (rule trim_end_line [OF digits_graphic]) simp
  have e: "trim_end crlf = []"
    by code_simp
  have c: "crlf \<noteq> []" "length crlf = 2"
    by (simp_all add: crlf_def)
  show ?thesis
    using assms(2) by (simp only: read_headers.simps l1 l2 t e content_length_line [OF assms(1)] option.case prod.case
        sum.case) (simp add: MAX_HEADER_BYTES_def c)
qed



section \<open>Slots\<close>

definition slots_ok :: "'f rest_server \<Rightarrow> bool" where
  "slots_ok a \<longleftrightarrow>
     hm_wf (rv_threads a) \<and> (\<forall>t. rv_next a \<le> t \<longrightarrow> hm_get (rv_threads a) t = None) \<and>
     rv_live a = length (rv_threads a) \<and> rv_live a \<le> MAX_CONNECTIONS \<and>
     (\<forall>s \<in> set (bc_subscribers (rv_streams a)).
        \<exists>t ph. hm_get (rv_threads a) t = Some ph \<and> stream_of ph = Some (sb_id s))"

lemma hm_remove_length: "hm_wf m \<Longrightarrow> hm_get m k = Some v \<Longrightarrow> Suc (length (hm_remove k m)) = length m"
proof (induction m)
  case (Cons e m)
  show ?case
  proof (cases "fst e = k")
    case True
    with Cons.prems(1) have "hm_remove k m = m"
      by (intro delete_id) (simp add: image_iff)
    with True show ?thesis
      by (cases e) simp
  qed (use Cons in \<open>cases e; simp\<close>)
qed simp

lemma hm_insert_length: "length (hm_insert k v m) = (if hm_get m k = None then Suc (length m) else length m)"
  by (induction m) auto

lemma slots_ok_accept: "slots_ok a \<Longrightarrow> slots_ok (fst (accept shutdown connected spawns a))"
  by (auto simp: slots_ok_def accept_def Let_def hm_insert_length simp del: map_of_eq_Some_iff)
    (metis le_refl option.distinct(1))

text \<open>A thread without a subscription may end.\<close>

lemma slots_ok_end:
  assumes "slots_ok a"
  shows "slots_ok (end_thread t a)"
proof (cases "\<exists>ph. hm_get (rv_threads a) t = Some ph \<and> stream_of ph = None")
  case False
  with assms show ?thesis
    by (auto simp: end_thread_def simp del: map_of_eq_Some_iff split: option.splits)
next
  case True
  then obtain ph where ph: "hm_get (rv_threads a) t = Some ph" "stream_of ph = None"
    by blast
  note ok = assms [unfolded slots_ok_def]
  let ?a = "end_thread t a"
  have a: "rv_live ?a = rv_live a - 1" "rv_threads ?a = hm_remove t (rv_threads a)" "rv_next ?a = rv_next a"
    "bc_subscribers (rv_streams ?a) = bc_subscribers (rv_streams a)"
    using ph by (simp_all add: end_thread_def store_count_def del: map_of_eq_Some_iff split: phase.split)
  have "Suc (length (hm_remove t (rv_threads a))) = length (rv_threads a)"
    using ok ph(1) by (intro hm_remove_length) auto
  then have live: "rv_live a - 1 = length (hm_remove t (rv_threads a))" "rv_live a - 1 \<le> MAX_CONNECTIONS"
    using ok by linarith+
  have "\<exists>t' ph'. hm_get (hm_remove t (rv_threads a)) t' = Some ph' \<and> stream_of ph' = Some (sb_id s)"
    if "s \<in> set (bc_subscribers (rv_streams a))" for s
  proof -
    obtain t' ph' where "hm_get (rv_threads a) t' = Some ph'" "stream_of ph' = Some (sb_id s)"
      using ok \<open>s \<in> set (bc_subscribers (rv_streams a))\<close> by blast
    with ph show ?thesis
      by (intro exI [of _ t'] exI [of _ ph']) (auto simp del: map_of_eq_Some_iff)
  qed
  then show ?thesis
    using ok live by (simp add: slots_ok_def a hm.wf_remove)
qed

text \<open>
  A thread may change its phase and the registry, if every subscriber left is its own or was another
  thread's.
\<close>

lemma slots_ok_phase:
  assumes "slots_ok a" and "hm_get (rv_threads a) t = Some ph"
    and "\<forall>s \<in> set (bc_subscribers b). stream_of ph' = Some (sb_id s) \<or>
      s \<in> set (bc_subscribers (rv_streams a)) \<and> stream_of ph \<noteq> Some (sb_id s)"
  shows "slots_ok (a\<lparr>rv_streams := b, rv_threads := hm_insert t ph' (rv_threads a)\<rparr>)"
proof -
  note ok = assms(1) [unfolded slots_ok_def]
  have "\<exists>t' ph''. hm_get (hm_insert t ph' (rv_threads a)) t' = Some ph'' \<and> stream_of ph'' = Some (sb_id s)"
    if "s \<in> set (bc_subscribers b)" for s
  proof (cases "stream_of ph' = Some (sb_id s)")
    case False
    with that assms(3) have s: "s \<in> set (bc_subscribers (rv_streams a))" "stream_of ph \<noteq> Some (sb_id s)"
      by auto
    then obtain t' ph'' where "hm_get (rv_threads a) t' = Some ph''" "stream_of ph'' = Some (sb_id s)"
      using ok by blast
    with assms(2) s(2) show ?thesis
      by (intro exI [of _ t'] exI [of _ ph'']) (auto simp del: map_of_eq_Some_iff)
  qed (auto simp del: map_of_eq_Some_iff)
  moreover have "t < rv_next a"
    using ok assms(2) by (metis not_less option.distinct(1))
  ultimately show ?thesis
    using ok assms(2) by (simp add: slots_ok_def hm_insert_length del: map_of_eq_Some_iff)
qed

lemma slots_ok_check: "slots_ok a \<Longrightarrow> slots_ok (check_budget t a)"
  using slots_ok_phase [of a t Reading "rv_streams a" Admitted] slots_ok_end [of a t]
  by (simp add: check_budget_def stream_of_def del: map_of_eq_Some_iff)

lemma slots_ok_join: "slots_ok a \<Longrightarrow> slots_ok (join_stream t a)"
  using slots_ok_phase [of a t Admitted]
  by (auto simp: join_stream_def stream_of_def subscribe_locked_def Let_def simp del: map_of_eq_Some_iff)

lemma slots_ok_store: "slots_ok a \<Longrightarrow> slots_ok (store_joined t a)"
  using slots_ok_phase [of a t "Joining i n" "store_count n (rv_streams a)" "InStream i" for i n]
  by (auto simp: store_joined_def stream_of_def store_count_def simp del: map_of_eq_Some_iff
    split: option.split phase.split)

lemma slots_ok_leave: "slots_ok a \<Longrightarrow> slots_ok (leave_stream t a)"
  using slots_ok_phase [of a t "InStream i" "fst (remove_locked i (rv_streams a))" "Leaving n" for i n]
  by (auto simp: leave_stream_def stream_of_def remove_locked_def Let_def simp del: map_of_eq_Some_iff
    split: option.split phase.split)

lemma slots_ok_broadcast: "slots_ok a \<Longrightarrow> slots_ok (a\<lparr>rv_streams := broadcast f (rv_streams a)\<rparr>)"
  by (auto simp: slots_ok_def broadcast_def simp del: map_of_eq_Some_iff)

text \<open>
  C34: no slot is lost and none is given twice. However the threads of the server interleave, the number of
  live connections is the number of threads that serve one, at most 16, and every subscriber of the
  stream belongs to a connection that is still open: a client that went away is forgotten.
\<close>

theorem slots_never_leak:
  assumes "server_step\<^sup>*\<^sup>* new_server a"
  shows "slots_ok a"
  using assms
proof induction
  case base
  then show ?case
    by (simp add: slots_ok_def new_server_def new_broadcaster_def)
next
  case (step a a')
  from step(2,3) show ?case
    by cases (simp_all only: slots_ok_accept slots_ok_end slots_ok_check slots_ok_join slots_ok_store slots_ok_leave
      slots_ok_broadcast)
qed

text \<open>The run in which sixteen clients ask for the stream at once.\<close>

definition crowd :: "unit rest_server" where
  "crowd =
     fold join_stream [0..<16] (fold check_budget [0..<16]
       (((\<lambda>a. fst (accept False True True a)) ^^ 16) new_server))"

lemma steps_fold: "(\<And>t a. server_step a (f t a)) \<Longrightarrow> server_step\<^sup>*\<^sup>* a (fold f ts a)"
  by (induction ts arbitrary: a) (auto intro: converse_rtranclp_into_rtranclp)

lemma steps_power: "(\<And>a. server_step a (f a)) \<Longrightarrow> server_step\<^sup>*\<^sup>* a ((f ^^ n) a)"
  by (induction n) (auto intro: rtranclp.rtrancl_into_rtrancl)

lemma crowd_reachable: "server_step\<^sup>*\<^sup>* new_server crowd"
proof -
  let ?a = "((\<lambda>a. fst (accept False True True a)) ^^ 16) new_server :: unit rest_server"
  let ?b = "fold check_budget [0..<16] ?a"
  have "server_step\<^sup>*\<^sup>* new_server ?a"
    by (rule steps_power) (rule accepts)
  moreover have "server_step\<^sup>*\<^sup>* ?a ?b"
    by (rule steps_fold) (rule checks)
  moreover have "server_step\<^sup>*\<^sup>* ?b crowd"
    unfolding crowd_def by (rule steps_fold) (rule joins)
  ultimately show ?thesis
    by (meson rtranclp_trans)
qed

text \<open>Sixteen streams, and no slot lost.\<close>

theorem slots_never_leak_witness: "rv_live crowd = length (rv_threads crowd) \<and> rv_live crowd \<le> 16"
  using slots_never_leak [OF crowd_reachable] by (simp add: slots_ok_def MAX_CONNECTIONS_def)

definition crowded :: "nat \<Rightarrow> 'f rest_server \<Rightarrow> bool" where
  "crowded n a \<longleftrightarrow>
     rv_live a = n \<and> rv_next a = n \<and> \<not> rv_stopped a \<and> rv_streams a = new_broadcaster \<and>
     (\<forall>t < n. hm_get (rv_threads a) t = Some Reading)"

lemma crowded_accept: "crowded n a \<Longrightarrow> n < 16 \<Longrightarrow> crowded (Suc n) (fst (accept False True True a))"
  by (simp add: crowded_def accept_def Let_def MAX_CONNECTIONS_def less_Suc_eq del: map_of_eq_Some_iff)

lemma accept_many: "n \<le> 16 \<Longrightarrow> crowded n (((\<lambda>a. fst (accept False True True a)) ^^ n) new_server)"
  by (induction n) (simp add: crowded_def new_server_def, simp add: crowded_accept)

lemma check_many:
  "\<forall>t \<in> set ts. hm_get (rv_threads a) t = Some Reading \<Longrightarrow> distinct ts \<Longrightarrow> \<not> streams_full (rv_streams a) \<Longrightarrow>
    (case fold check_budget ts a of
      b \<Rightarrow> rv_live b = rv_live a \<and> rv_stopped b = rv_stopped a \<and> rv_streams b = rv_streams a \<and>
        (\<forall>t. hm_get (rv_threads b) t = (if t \<in> set ts then Some Admitted else hm_get (rv_threads a) t)))"
proof (induction ts arbitrary: a)
  case (Cons t ts)
  let ?a = "a\<lparr>rv_threads := hm_insert t Admitted (rv_threads a)\<rparr>"
  have "\<forall>t \<in> set ts. hm_get (rv_threads ?a) t = Some Reading" "\<not> streams_full (rv_streams ?a)"
    using Cons.prems by (auto simp del: map_of_eq_Some_iff)
  from Cons.IH [OF this(1) _ this(2)] Cons.prems show ?case
    by (simp add: check_budget_def del: map_of_eq_Some_iff)
qed simp

lemma join_many:
  "\<forall>t \<in> set ts. hm_get (rv_threads a) t = Some Admitted \<Longrightarrow> distinct ts \<Longrightarrow>
    (case fold join_stream ts a of
      b \<Rightarrow> rv_live b = rv_live a \<and> rv_stopped b = rv_stopped a \<and>
        length (bc_subscribers (rv_streams b)) = length (bc_subscribers (rv_streams a)) + length ts)"
proof (induction ts arbitrary: a)
  case (Cons t ts)
  have "\<forall>t' \<in> set ts. hm_get (rv_threads (join_stream t a)) t' = Some Admitted"
    using Cons.prems by (auto simp: join_stream_def subscribe_locked_def Let_def simp del: map_of_eq_Some_iff)
  from Cons.IH [OF this] Cons.prems show ?case
    by (simp add: join_stream_def subscribe_locked_def Let_def)
qed simp

lemma crowd_full:
  "length (bc_subscribers (rv_streams crowd)) = 16 \<and> rv_live crowd = 16 \<and> \<not> rv_stopped crowd"
proof -
  let ?a = "((\<lambda>a. fst (accept False True True a)) ^^ 16) new_server :: unit rest_server"
  have "crowded 16 ?a"
    by (rule accept_many) simp
  then have a: "rv_live ?a = 16" "\<not> rv_stopped ?a" "rv_streams ?a = new_broadcaster"
    "\<forall>t \<in> set [0..<16]. hm_get (rv_threads ?a) t = Some Reading"
    by (simp_all add: crowded_def del: map_of_eq_Some_iff)
  have "\<not> streams_full (rv_streams ?a)"
    by (simp add: a streams_full_def new_broadcaster_def MAX_STREAMS_def)
  note b = check_many [OF a(4) distinct_upt this]
  then have "\<forall>t \<in> set [0..<16]. hm_get (rv_threads (fold check_budget [0..<16] ?a)) t = Some Admitted"
    by (simp del: map_of_eq_Some_iff upt_rec_numeral)
  from join_many [OF this distinct_upt] a b show ?thesis
    by (simp add: crowd_def new_broadcaster_def del: upt_rec_numeral)
qed

text \<open>
  C35: the budget of the streams does not hold, and streams do starve the other requests. A stream keeps its
  connection's slot, and the count is checked before the subscription, so that sixteen clients that
  ask at once are all admitted: twice the budget of the streams, after which every further connection,
  for whatever request, is turned away with a 503 as long as they stay.
\<close>

theorem streams_starve_requests:
  "server_step\<^sup>*\<^sup>* new_server crowd \<and> length (bc_subscribers (rv_streams crowd)) = 16 \<and>
   accept False True spawns crowd = (crowd, Refused)"
  using crowd_reachable crowd_full by (simp add: accept_def MAX_CONNECTIONS_def)

end
