(* ===== verification/Rest_Live.thy ===== *)
theory Rest_Live
  imports Rest_Http Rest_Props
begin

text \<open>
  The live view of a stream client: the snapshot it is given when it joins, overtaken by the state
  frames that are broadcast afterwards. The engine tells its observers of a report before its
  northbound adapters (\<open>fan_state_folded\<close> of \<open>engine.rs\<close>), that is, it broadcasts the frame first and
  writes the mirror second, and an HTTP thread may join and read the mirror in between.
\<close>

section \<open>Engine and client, interleaved\<close>

text \<open>
  The engine's two steps on a report, of which the first is done when \<open>lv_half\<close> holds it; the client's
  steps: it subscribes, and reads the mirror for its snapshot, one capability at a time. \<open>lv_told\<close> is
  a ghost: what was broadcast since the client joined.
\<close>

record 'f live =
  lv_shared :: rest_shared
  lv_streams :: "'f broadcaster"
  lv_half :: "(device_id \<times> capability_state) option"
  lv_client :: "u64 option"
  lv_looked :: "((device_id \<times> capability_kind) \<times> capability_state option) list"
  lv_told :: "(device_id \<times> capability_state) list"

definition told_frame :: "directory \<Rightarrow> device_id \<times> capability_state \<Rightarrow> 'f frame" where
  "told_frame dir t =
     (case t of (d, s) \<Rightarrow> state_frame (device_name dir d) (kind_name (kind s)) (state_to_json s))"

definition tell :: "directory \<Rightarrow> device_id \<Rightarrow> capability_state \<Rightarrow> 'f live \<Rightarrow> 'f live" where
  "tell dir d s l =
     (case observe (Some dir) (StateFolded d s) (lv_shared l, lv_streams l) of
        (sh, b) \<Rightarrow>
          l\<lparr>lv_shared := sh, lv_streams := b, lv_half := Some (d, s),
            lv_told := (if lv_client l = None then [] else lv_told l @ [(d, s)])\<rparr>)"

definition mirror_write :: "device_id \<Rightarrow> capability_state \<Rightarrow> 'f live \<Rightarrow> 'f live" where
  "mirror_write d s l = l\<lparr>lv_shared := rest_folded (lv_shared l) d s, lv_half := None\<rparr>"

definition join :: "'f live \<Rightarrow> 'f live" where
  "join l =
     (case subscribe (lv_streams l) of (b, i) \<Rightarrow> l\<lparr>lv_streams := b, lv_client := Some i\<rparr>)"

definition look :: "device_id \<Rightarrow> capability_kind \<Rightarrow> 'f live \<Rightarrow> 'f live" where
  "look d k l = l\<lparr>lv_looked := ((d, k), handle_state (lv_shared l) d k) # lv_looked l\<rparr>"

inductive live_step :: "directory \<Rightarrow> 'f live \<Rightarrow> 'f live \<Rightarrow> bool" for dir where
  tells: "lv_half l = None \<Longrightarrow> live_step dir l (tell dir d s l)"
| writes: "lv_half l = Some (d, s) \<Longrightarrow> live_step dir l (mirror_write d s l)"
| looks: "lv_client l \<noteq> None \<Longrightarrow> live_step dir l (look d k l)"

text \<open>What the client shows of a capability: the last frame about it, or else what it read.\<close>

fun last_told :: "device_id \<Rightarrow> capability_kind \<Rightarrow> (device_id \<times> capability_state) list \<Rightarrow> capability_state option" where
  "last_told d k [] = None"
| "last_told d k ((d', s) # ts) =
     (case last_told d k ts of Some s' \<Rightarrow> Some s' | None \<Rightarrow> if d' = d \<and> kind s = k then Some s else None)"

definition client_view :: "'f live \<Rightarrow> device_id \<Rightarrow> capability_kind \<Rightarrow> capability_state option option" where
  "client_view l d k =
     (case last_told d k (lv_told l) of
        Some s \<Rightarrow> Some (Some s)
      | None \<Rightarrow> map_of (lv_looked l) (d, k))"

section \<open>A client that joins between two reports\<close>

lemma last_told_snoc:
  "last_told d k (ts @ [(d', s)]) = (if d' = d \<and> kind s = k then Some s else last_told d k ts)"
  by (induction ts) (auto split: option.split)

text \<open>The mirror as it will be when the step in hand is finished.\<close>

definition settles_to :: "'f live \<Rightarrow> device_id \<Rightarrow> capability_kind \<Rightarrow> capability_state option" where
  "settles_to l d k =
     (case lv_half l of
        Some (d', s) \<Rightarrow> if d' = d \<and> kind s = k then Some s else handle_state (lv_shared l) d k
      | None \<Rightarrow> handle_state (lv_shared l) d k)"

text \<open>The client's knowledge, relative to the mirror \<open>m0\<close> at the time it joined.\<close>

definition caught_up ::
  "(device_id \<Rightarrow> capability_kind \<Rightarrow> capability_state option) \<Rightarrow> 'f live \<Rightarrow> device_id \<Rightarrow> capability_kind \<Rightarrow> bool" where
  "caught_up m0 l d k \<longleftrightarrow>
     (case last_told d k (lv_told l) of
        Some s \<Rightarrow> settles_to l d k = Some s
      | None \<Rightarrow> settles_to l d k = m0 d k \<and> handle_state (lv_shared l) d k = m0 d k \<and>
          map_of (lv_looked l) (d, k) \<in> {None, Some (m0 d k)})"

definition in_step ::
  "directory \<Rightarrow> u64 \<Rightarrow> (device_id \<Rightarrow> capability_kind \<Rightarrow> capability_state option) \<Rightarrow> 'f live \<Rightarrow> bool" where
  "in_step dir i m0 l \<longleftrightarrow>
     lv_client l = Some i \<and> holds i (map (told_frame dir) (lv_told l)) (lv_streams l) \<and> (\<forall>d k. caught_up m0 l d k)"

lemma handle_state_folded:
  "handle_state (rest_folded sh d s) d' k = (if d' = d \<and> k = kind s then Some s else handle_state sh d' k)"
  by (rule rest_mirror.view_folded)

lemma tell_simps:
  "lv_shared (tell dir d s l) = lv_shared l"
  "lv_streams (tell dir d s l) = broadcast (told_frame dir (d, s)) (lv_streams l)"
  "lv_half (tell dir d s l) = Some (d, s)" "lv_client (tell dir d s l) = lv_client l"
  "lv_looked (tell dir d s l) = lv_looked l"
  "lv_client l = Some i \<Longrightarrow> lv_told (tell dir d s l) = lv_told l @ [(d, s)]"
  by (simp_all add: tell_def emit_def told_frame_def)

lemma in_step_tell:
  assumes "in_step dir i m0 l" and "lv_half l = None"
  shows "in_step dir i m0 (tell dir d s l)"
proof -
  have l: "lv_client l = Some i" "holds i (map (told_frame dir) (lv_told l)) (lv_streams l)" "caught_up m0 l d' k" for d' k
    using assms(1) by (simp_all add: in_step_def)
  have "caught_up m0 (tell dir d s l) d' k" for d' k
    using l(3) [of d' k] assms(2)
    by (cases "d = d' \<and> kind s = k") (auto simp: caught_up_def tell_simps l(1) last_told_snoc settles_to_def split: option.splits)
  with l show ?thesis
    by (simp add: in_step_def tell_simps holds_broadcast)
qed

lemma in_step_write:
  assumes "in_step dir i m0 l" and "lv_half l = Some (d, s)"
  shows "in_step dir i m0 (mirror_write d s l)"
proof -
  have "caught_up m0 (mirror_write d s l) d' k" if "caught_up m0 l d' k" for d' k
    using that assms(2)
    by (cases "d = d' \<and> kind s = k")
      (auto simp: caught_up_def mirror_write_def settles_to_def handle_state_folded split: option.splits)
  with assms(1) show ?thesis
    by (simp add: in_step_def) (simp add: mirror_write_def)
qed

lemma in_step_look:
  assumes "in_step dir i m0 l"
  shows "in_step dir i m0 (look d k l)"
proof -
  have "caught_up m0 (look d k l) d' k'" if "caught_up m0 l d' k'" for d' k'
    using that by (auto simp: caught_up_def look_def settles_to_def split: option.splits)
  with assms show ?thesis
    by (simp add: in_step_def) (simp add: look_def)
qed

lemma in_step_run: "(live_step dir)\<^sup>*\<^sup>* l l' \<Longrightarrow> in_step dir i m0 l \<Longrightarrow> in_step dir i m0 l'"
proof (induction rule: rtranclp_induct)
  case (step l' l'')
  from step(2) step(3) [OF step(4)] show ?case
    by cases (auto intro: in_step_tell in_step_write in_step_look)
qed

text \<open>The server before the client: a broadcaster whose ids are not used up.\<close>

definition fresh_live :: "rest_shared \<Rightarrow> 'f broadcaster \<Rightarrow> 'f live" where
  "fresh_live sh b =
     \<lparr>lv_shared = sh, lv_streams = b, lv_half = None, lv_client = None, lv_looked = [], lv_told = []\<rparr>"

definition joinable :: "'f broadcaster \<Rightarrow> bool" where
  "joinable b \<longleftrightarrow>
     \<not> bc_shutdown b \<and> distinct (map sb_id (bc_subscribers b)) \<and>
     list_all (\<lambda>s. sb_id s < bc_next_id b) (bc_subscribers b) \<and> Suc (unat (bc_next_id b)) < 2 ^ 64"

lemma holds_new:
  assumes "joinable b"
  shows "holds (bc_next_id b) [] (fst (subscribe b))"
proof -
  let ?n = "bc_next_id b"
  have "unat (?n + 1) = Suc (unat ?n)"
    using assms by (intro unat_Suc_word) (simp add: joinable_def)
  then have new: "j < ?n + 1 \<longleftrightarrow> j < ?n \<or> j = ?n" for j
    by (simp add: word_less_nat_alt word_unat_eq_iff less_Suc_eq)
  have old: "distinct (map sb_id (bc_subscribers b))" "\<forall>s \<in> set (bc_subscribers b). sb_id s < ?n" "\<not> bc_shutdown b"
    using assms by (simp_all add: joinable_def list_all_iff)
  then have "?n \<notin> sb_id ` set (bc_subscribers b)"
    by auto
  with old show ?thesis
    using represents_empty [of ?n]
    by (simp add: holds_def subscribe_eq Let_def list_all_iff new)
      (rule exI [of _ "\<lparr>sb_id = ?n, sb_queue = [], sb_lagged = False, sb_live = True\<rparr>"], simp)
qed

lemma join_in_step:
  assumes "joinable b"
  shows "in_step dir (bc_next_id b) (handle_state sh) (join (fresh_live sh b))"
proof -
  have j: "join (fresh_live sh b) =
      (fresh_live sh b)\<lparr>lv_streams := fst (subscribe b), lv_client := Some (bc_next_id b)\<rparr>"
    by (simp add: join_def fresh_live_def case_prod_beta) (simp add: subscribe_eq Let_def)
  show ?thesis
    using holds_new [OF assms] unfolding j by (simp add: in_step_def caught_up_def fresh_live_def settles_to_def)
qed

text \<open>
  C30: the stream loses nothing when the client joins between two reports. However its reading of the
  mirror interleaves with the engine afterwards, whenever the engine is between two reports again the
  client's view of every capability it read, or was told of, is the value of the mirror; and what waits
  in its queue are the frames of all the reports since it joined, up to the capacity of the queue.
\<close>

theorem stream_view_is_mirror:
  assumes "joinable b" and "(live_step dir)\<^sup>*\<^sup>* (join (fresh_live sh b)) l" and "lv_half l = None"
    and "client_view l d k = Some v"
  shows "v = handle_state (lv_shared l) d k \<and>
    holds (bc_next_id b) (map (told_frame dir) (lv_told l)) (lv_streams l)"
proof -
  have "in_step dir (bc_next_id b) (handle_state sh) l"
    using assms(2) join_in_step [OF assms(1)] by (rule in_step_run)
  then have "caught_up (handle_state sh) l d k" and "holds (bc_next_id b) (map (told_frame dir) (lv_told l)) (lv_streams l)"
    by (simp_all add: in_step_def)
  with assms(3,4) show ?thesis
    by (auto simp: caught_up_def client_view_def settles_to_def split: option.splits)
qed

text \<open>The client reads the lamp as unknown, and then sees it go on.\<close>

lemma new_joinable: "joinable new_broadcaster"
  by (simp add: joinable_def new_broadcaster_def)

theorem stream_view_is_mirror_witness:
  "\<exists>l. (live_step lamp_directory)\<^sup>*\<^sup>* (join (fresh_live rest_channel new_broadcaster)) l \<and>
    client_view (l :: unit live) (DeviceId 0) KSwitch = Some (Some (Switch True)) \<and>
    handle_state (lv_shared l) (DeviceId 0) KSwitch = Some (Switch True)"
proof -
  let ?j = "join (fresh_live rest_channel new_broadcaster) :: unit live"
  let ?l0 = "look (DeviceId 0) KSwitch ?j"
  let ?l1 = "tell lamp_directory (DeviceId 0) (Switch True) ?l0"
  let ?l2 = "mirror_write (DeviceId 0) (Switch True) ?l1"
  have j: "lv_client ?j = Some 0" "lv_half ?j = None"
    by (simp_all add: join_def fresh_live_def subscribe_eq new_broadcaster_def)
  then have l0: "lv_client ?l0 = Some 0" "lv_half ?l0 = None" "lv_told ?l0 = []"
    by (simp_all add: look_def) (simp add: join_def fresh_live_def case_prod_beta)
  have "live_step lamp_directory ?j ?l0"
    by (rule looks) (simp add: j)
  moreover have "live_step lamp_directory ?l0 ?l1"
    by (rule tells) (rule l0)
  moreover have "live_step lamp_directory ?l1 ?l2"
    by (rule writes) (simp add: tell_simps)
  ultimately have run: "(live_step lamp_directory)\<^sup>*\<^sup>* ?j ?l2"
    by (meson converse_rtranclp_into_rtranclp rtranclp.rtrancl_refl)
  have view: "client_view ?l2 (DeviceId 0) KSwitch = Some (Some (Switch True))"
    using l0 by (simp add: client_view_def mirror_write_def tell_simps)
  have "lv_half ?l2 = None"
    by (simp add: mirror_write_def)
  from stream_view_is_mirror [OF new_joinable run this view]
  have "handle_state (lv_shared ?l2) (DeviceId 0) KSwitch = Some (Switch True)"
    by metis
  with run view show ?thesis
    by blast
qed

section \<open>A client that joins in the middle of one\<close>

text \<open>
  C31: the stream loses a report when the client joins between the engine's two steps on it. The frame
  was broadcast before the client subscribed, and the mirror is written after the client read it: the
  client has the old value, nothing is queued for it, no gap is announced, and the mirror has the new
  one. The client stays wrong until the capability is next reported.
\<close>

theorem stream_loses_report:
  assumes "joinable b" and "handle_state sh d (kind s) \<noteq> Some s"
  shows "case mirror_write d s (look d (kind s) (join (tell dir d s (fresh_live sh b)))) of
    l \<Rightarrow> client_view l d (kind s) = Some (handle_state sh d (kind s)) \<and>
      handle_state (lv_shared l) d (kind s) = Some s \<and>
      poll_batch (bc_next_id b) (lv_streams l) = (lv_streams l, None)"
proof -
  let ?b = "broadcast (told_frame dir (d, s)) b"
  have "joinable ?b"
    using assms(1) by (simp add: joinable_def broadcast_def comp_def list_all_iff)
  moreover have n: "bc_next_id ?b = bc_next_id b"
    by (simp add: broadcast_def)
  ultimately have "holds (bc_next_id b) [] (fst (subscribe ?b))"
    using holds_new by metis
  from holds_poll(1) [OF this] have "snd (poll_batch (bc_next_id b) (fst (subscribe ?b))) = None"
    by simp
  then have "poll_batch (bc_next_id b) (fst (subscribe ?b)) = (fst (subscribe ?b), None)"
    by (auto simp: poll_batch_def split: option.splits if_splits)
  then show ?thesis
    by (simp add: mirror_write_def look_def join_def case_prod_beta client_view_def handle_state_folded tell_simps)
      (simp add: tell_def fresh_live_def emit_def told_frame_def)
qed

theorem stream_loses_report_witness:
  "case mirror_write (DeviceId 0) (Switch True) (look (DeviceId 0) KSwitch
      (join (tell lamp_directory (DeviceId 0) (Switch True) (fresh_live rest_channel new_broadcaster :: unit live)))) of
    l \<Rightarrow> client_view l (DeviceId 0) KSwitch = Some None \<and>
      handle_state (lv_shared l) (DeviceId 0) KSwitch = Some (Switch True)"
proof -
  have none: "handle_state rest_channel d k = None" for d k
    by (simp add: handle_state_def rest_channel_def)
  have "joinable (new_broadcaster :: unit broadcaster)"
    by (rule new_joinable)
  then show ?thesis
    using stream_loses_report [of "new_broadcaster :: unit broadcaster" rest_channel "DeviceId 0" "Switch True" lamp_directory] none
    by simp
qed

end
