(* ===== verification/Rest_Races.thy ===== *)
theory Rest_Races
  imports Rest_Http_Props Rest_Live
begin

text \<open>
  Two consequences of where the API takes its locks. The count of the streams is stored after the mutex
  of the registry is released, so that it may come to differ from the registry. And a GET takes the
  mutex of the mirror once for every value it shows, so that its answer is one state of the house as
  long as at most one report arrives meanwhile, and no more.
\<close>

section \<open>The count of the streams\<close>

text \<open>With no thread in between, the count is that of the registry.\<close>

definition counted :: "'f broadcaster \<Rightarrow> bool" where
  "counted b \<longleftrightarrow> bc_count b = of_nat (length (bc_subscribers b))"

lemma counted_subscribe: "counted (fst (subscribe b))"
  by (simp add: counted_def subscribe_eq Let_def)

lemma counted_remove: "counted (remove_subscriber i b)"
  by (simp add: counted_def remove_eq Let_def)

text \<open>
  Eight clients are admitted; seven of them join; the eighth subscribes and is interrupted before it
  stores the count of eight; the seven leave; the eighth goes on.
\<close>

definition eight_admitted :: "unit rest_server" where
  "eight_admitted = fold check_budget [0..<8] (((\<lambda>a. fst (accept False True True a)) ^^ 8) new_server)"

definition eighth_interrupted :: "unit rest_server" where
  "eighth_interrupted =
     join_stream 7 (fold store_joined [0..<7] (fold join_stream [0..<7] eight_admitted))"

definition seven_left :: "unit rest_server" where
  "seven_left = store_joined 7 (fold end_thread [0..<7] (fold leave_stream [0..<7] eighth_interrupted))"

lemma seven_left_reachable: "server_step\<^sup>*\<^sup>* new_server seven_left"
proof -
  let ?a = "((\<lambda>a. fst (accept False True True a)) ^^ 8) new_server :: unit rest_server"
  have "server_step\<^sup>*\<^sup>* new_server ?a"
    by (rule steps_power) (rule accepts)
  moreover have "server_step\<^sup>*\<^sup>* ?a eight_admitted"
    unfolding eight_admitted_def by (rule steps_fold) (rule checks)
  moreover have "server_step\<^sup>*\<^sup>* eight_admitted (fold join_stream [0..<7] eight_admitted)"
    by (rule steps_fold) (rule joins)
  moreover have "server_step\<^sup>*\<^sup>* (fold join_stream [0..<7] eight_admitted)
      (fold store_joined [0..<7] (fold join_stream [0..<7] eight_admitted))"
    by (rule steps_fold) (rule stores)
  moreover have "server_step (fold store_joined [0..<7] (fold join_stream [0..<7] eight_admitted)) eighth_interrupted"
    unfolding eighth_interrupted_def by (rule joins)
  moreover have "server_step\<^sup>*\<^sup>* eighth_interrupted (fold leave_stream [0..<7] eighth_interrupted)"
    by (rule steps_fold) (rule leaves)
  moreover have "server_step\<^sup>*\<^sup>* (fold leave_stream [0..<7] eighth_interrupted)
      (fold end_thread [0..<7] (fold leave_stream [0..<7] eighth_interrupted))"
    by (rule steps_fold) (rule ends)
  moreover have "server_step (fold end_thread [0..<7] (fold leave_stream [0..<7] eighth_interrupted)) seven_left"
    unfolding seven_left_def by (rule stores)
  ultimately show ?thesis
    by (meson rtranclp_trans rtranclp.rtrancl_into_rtrancl)
qed

text \<open>The states on the way, evaluated one by one.\<close>

lemma first_numbers: "[0..<8] = [0, 1, 2, 3, 4, 5, 6, 7 :: nat]" "[0..<7] = [0, 1, 2, 3, 4, 5, 6 :: nat]"
  by (simp_all add: upt_rec)

lemma eight_admitted_eq:
  "eight_admitted =
     \<lparr>rv_live = 8, rv_threads = map (\<lambda>t. (t, Admitted)) [0..<8], rv_next = 8, rv_stopped = False,
      rv_streams = new_broadcaster\<rparr>"
proof -
  have eight: "(f ^^ 8) x = f (f (f (f (f (f (f (f x)))))))" for f and x :: "unit rest_server"
    by (simp add: numeral_eq_Suc)
  have "((\<lambda>a. fst (accept False True True a)) ^^ 8) new_server =
      (\<lparr>rv_live = 8, rv_threads = map (\<lambda>t. (t, Reading)) [0..<8], rv_next = 8, rv_stopped = False,
        rv_streams = new_broadcaster\<rparr> :: unit rest_server)"
    unfolding eight first_numbers by (simp add: new_server_def accept_def Let_def MAX_CONNECTIONS_def)
  then show ?thesis
    unfolding eight_admitted_def first_numbers
    by (simp add: check_budget_def streams_full_def MAX_STREAMS_def new_broadcaster_def)
qed

definition silent :: "nat \<Rightarrow> unit subscriber" where
  "silent i = \<lparr>sb_id = of_nat i, sb_queue = [], sb_lagged = False, sb_live = True\<rparr>"

lemma eighth_interrupted_eq:
  "eighth_interrupted =
     \<lparr>rv_live = 8, rv_threads = map (\<lambda>t. (t, InStream (of_nat t))) [0..<7] @ [(7, Joining 7 8)], rv_next = 8,
      rv_stopped = False,
      rv_streams = \<lparr>bc_subscribers = map silent [0..<8], bc_next_id = 8, bc_count = 7, bc_shutdown = False\<rparr>\<rparr>"
proof -
  have joined: "fold join_stream [0..<7] eight_admitted =
     \<lparr>rv_live = 8, rv_threads = [(0, Joining 0 1), (1, Joining 1 2), (2, Joining 2 3), (3, Joining 3 4),
       (4, Joining 4 5), (5, Joining 5 6), (6, Joining 6 7), (7, Admitted)],
      rv_next = 8, rv_stopped = False,
      rv_streams = \<lparr>bc_subscribers = map silent [0..<7], bc_next_id = 7, bc_count = 0, bc_shutdown = False\<rparr>\<rparr>"
    unfolding eight_admitted_eq first_numbers
    by (simp add: new_broadcaster_def join_stream_def subscribe_locked_def Let_def silent_def)
  have stored: "fold store_joined [0..<7] (fold join_stream [0..<7] eight_admitted) =
     \<lparr>rv_live = 8, rv_threads = map (\<lambda>t. (t, InStream (of_nat t))) [0..<7] @ [(7, Admitted)],
      rv_next = 8, rv_stopped = False,
      rv_streams = \<lparr>bc_subscribers = map silent [0..<7], bc_next_id = 7, bc_count = 7, bc_shutdown = False\<rparr>\<rparr>"
    unfolding joined unfolding first_numbers
    by (simp add: store_joined_def store_count_def)
  show ?thesis
    unfolding eighth_interrupted_def stored unfolding first_numbers
    by (simp add: join_stream_def subscribe_locked_def Let_def silent_def)
qed

lemma seven_left_eq:
  "seven_left =
     \<lparr>rv_live = 1, rv_threads = [(7, InStream 7)], rv_next = 8, rv_stopped = False,
      rv_streams = \<lparr>bc_subscribers = [silent 7], bc_next_id = 8, bc_count = 8, bc_shutdown = False\<rparr>\<rparr>"
proof -
  have left: "fold leave_stream [0..<7] eighth_interrupted =
     \<lparr>rv_live = 8, rv_threads = [(0, Leaving 7), (1, Leaving 6), (2, Leaving 5), (3, Leaving 4),
       (4, Leaving 3), (5, Leaving 2), (6, Leaving 1), (7, Joining 7 8)],
      rv_next = 8, rv_stopped = False,
      rv_streams = \<lparr>bc_subscribers = [silent 7], bc_next_id = 8, bc_count = 7, bc_shutdown = False\<rparr>\<rparr>"
    unfolding eighth_interrupted_eq first_numbers
    by (simp add: leave_stream_def remove_locked_def Let_def silent_def)
  have ended: "fold end_thread [0..<7] (fold leave_stream [0..<7] eighth_interrupted) =
     \<lparr>rv_live = 1, rv_threads = [(7, Joining 7 8)], rv_next = 8, rv_stopped = False,
      rv_streams = \<lparr>bc_subscribers = [silent 7], bc_next_id = 8, bc_count = 1, bc_shutdown = False\<rparr>\<rparr>"
    unfolding left unfolding first_numbers
    by (simp add: end_thread_def stream_of_def store_count_def)
  show ?thesis
    unfolding seven_left_def ended
    by (simp add: store_joined_def store_count_def)
qed

text \<open>
  The count of the streams may stay wrong. It is stored after the lock of the registry is released, so
  that an older count may overwrite a newer one: here one client is left in the stream, no thread has
  anything more to store, and the count says eight. The next client that asks for the stream is turned
  away, and so is every other one until the last client leaves.
\<close>

theorem stale_count_refuses:
  "server_step\<^sup>*\<^sup>* new_server seven_left \<and> rv_threads seven_left = [(7, InStream 7)] \<and>
   length (bc_subscribers (rv_streams seven_left)) = 1 \<and> streams_full (rv_streams seven_left) \<and>
   accept False True True seven_left =
     (seven_left\<lparr>rv_live := 2, rv_threads := [(7, InStream 7), (8, Reading)], rv_next := 9\<rparr>, Spawned 8) \<and>
   check_budget 8 (fst (accept False True True seven_left)) = seven_left\<lparr>rv_next := 9\<rparr>"
proof -
  have accepted: "accept False True True seven_left =
     (seven_left\<lparr>rv_live := 2, rv_threads := [(7, InStream 7), (8, Reading)], rv_next := 9\<rparr>, Spawned 8)"
    by (simp add: accept_def MAX_CONNECTIONS_def seven_left_eq)
  moreover have "check_budget 8 (fst (accept False True True seven_left)) = seven_left\<lparr>rv_next := 9\<rparr>"
    unfolding accepted
    by (simp add: check_budget_def end_thread_def stream_of_def streams_full_def MAX_STREAMS_def seven_left_eq)
  ultimately show ?thesis
    using seven_left_reachable by (simp add: seven_left_eq streams_full_def MAX_STREAMS_def)
qed

section \<open>A GET of all devices, read by read\<close>

text \<open>
  The answer as the code builds it: \<open>m i\<close> is the mirror when the request takes the mutex for the \<open>i\<close>-th
  time, once for each capability of each device.
\<close>

fun capability_reads ::
  "(nat \<Rightarrow> capability_kind \<Rightarrow> capability_state option) \<Rightarrow> nat \<Rightarrow> capability_kind list \<Rightarrow> 'f jmap \<Rightarrow> 'f jmap" where
  "capability_reads seen i [] out = out"
| "capability_reads seen i (k # ks) out =
     capability_reads seen (i + 1) ks (obj_insert (kind_name k) (json_opt state_to_json (seen i k)) out)"

definition device_read :: "(nat \<Rightarrow> rest_shared) \<Rightarrow> nat \<Rightarrow> device_entry \<Rightarrow> 'f json" where
  "device_read m i e =
     object [(''name'', JString (de_name e)), (''room'', json_opt JString (de_room e)),
       (''synthetic'', JBool (de_synthetic e)),
       (''capabilities'', JObject (capability_reads (\<lambda>j. handle_state (m j) (de_id e)) i (de_capabilities e) [])),
       (''events'', JArray (map (\<lambda>(n, _). JString n) (de_events e)))]"

fun devices_read :: "(nat \<Rightarrow> rest_shared) \<Rightarrow> nat \<Rightarrow> device_entry list \<Rightarrow> 'f json list" where
  "devices_read m i [] = []"
| "devices_read m i (e # es) = device_read m i e # devices_read m (i + length (de_capabilities e)) es"

text \<open>What the other threads do to the shared state between two reads.\<close>

datatype shared_op = OpFold device_id capability_state | OpTick millis | OpObserve notice | OpRequest inbound

fun shared_step :: "shared_op \<Rightarrow> rest_shared \<Rightarrow> rest_shared" where
  "shared_step (OpFold d s) sh = rest_folded sh d s"
| "shared_step (OpTick now) sh = fst (rest_tick sh now)"
| "shared_step (OpObserve n) sh = fst (observe None n (sh, new_broadcaster :: unit broadcaster))"
| "shared_step (OpRequest i) sh = fst (request True i sh)"

fun is_fold :: "shared_op \<Rightarrow> bool" where
  "is_fold (OpFold _ _) = True"
| "is_fold _ = False"

text \<open>The request, when the \<open>i\<close>-th element of \<open>rounds\<close> happens right before its \<open>i\<close>-th read.\<close>

definition moment :: "shared_op list list \<Rightarrow> rest_shared \<Rightarrow> nat \<Rightarrow> rest_shared" where
  "moment rounds sh i = fold shared_step (concat (take (i + 1) rounds)) sh"

definition get_devices_read :: "directory \<Rightarrow> shared_op list list \<Rightarrow> rest_shared \<Rightarrow> 'f json" where
  "get_devices_read dir rounds sh = JArray (devices_read (moment rounds sh) 0 (dir_devices dir))"

text \<open>The values an answer shows, in the order of the reads.\<close>

definition cells :: "device_entry list \<Rightarrow> (device_id \<times> capability_kind) list" where
  "cells es = concat (map (\<lambda>e. map (Pair (de_id e)) (de_capabilities e)) es)"

lemma capability_reads_as:
  "\<forall>j < length ks. seen (i + j) (ks ! j) = f (ks ! j) \<Longrightarrow>
    capability_reads seen i ks out = fold (\<lambda>k. obj_insert (kind_name k) (json_opt state_to_json (f k))) ks out"
proof (induction ks arbitrary: i out)
  case (Cons k ks)
  have "seen i k = f k"
    using Cons.prems by (metis add.right_neutral length_greater_0_conv list.discI nth_Cons_0)
  moreover have "\<forall>j < length ks. seen (i + 1 + j) (ks ! j) = f (ks ! j)"
    using Cons.prems by (metis Suc_eq_plus1 Suc_less_eq add.assoc add.commute length_Cons nth_Cons_Suc)
  ultimately show ?case
    using Cons.IH by simp
qed simp

text \<open>When every read agrees with one mirror, the answer is that of this mirror.\<close>

lemma devices_read_as:
  "\<forall>j < length (cells es). case cells es ! j of (d, k) \<Rightarrow> handle_state (m (i + j)) d k = handle_state sh d k \<Longrightarrow>
    devices_read m i es = map (device_json sh) es"
proof (induction es arbitrary: i)
  case (Cons e es)
  let ?n = "length (de_capabilities e)"
  have cells: "cells (e # es) = map (Pair (de_id e)) (de_capabilities e) @ cells es"
    by (simp add: cells_def)
  have "handle_state (m (i + j)) (de_id e) (de_capabilities e ! j) = handle_state sh (de_id e) (de_capabilities e ! j)"
    if "j < ?n" for j
    using Cons.prems [rule_format, of j] that by (simp add: cells nth_append)
  then have "device_read m i e = device_json sh e"
    by (simp add: device_read_def device_json_def capabilities_object_def
      capability_reads_as [where f = "handle_state sh (de_id e)"])
  moreover have "\<forall>j < length (cells es).
      case cells es ! j of (d, k) \<Rightarrow> handle_state (m (i + ?n + j)) d k = handle_state sh d k"
  proof (intro allI impI)
    fix j assume "j < length (cells es)"
    then show "case cells es ! j of (d, k) \<Rightarrow> handle_state (m (i + ?n + j)) d k = handle_state sh d k"
      using Cons.prems [rule_format, of "?n + j"] by (simp add: cells nth_append add.assoc)
  qed
  ultimately show ?case
    using Cons.IH by simp
qed simp

lemma other_ops_keep: "\<not> is_fold opn \<Longrightarrow> handle_state (shared_step opn sh) = handle_state sh"
proof (cases opn)
  case (OpObserve n)
  then show ?thesis
    by (cases n) (auto simp: handle_state_def fun_eq_iff)
qed (auto simp: handle_state_def rest_tick_def request_def fun_eq_iff)

lemma quiet_ops_keep:
  "filter is_fold ops = [] \<Longrightarrow> handle_state (fold shared_step ops sh) = handle_state sh"
  by (induction ops arbitrary: sh) (auto simp: other_ops_keep split: if_splits)

lemma one_fold:
  assumes "filter is_fold ops = [OpFold d s]"
  shows "handle_state (fold shared_step ops sh) d' k =
    (if d' = d \<and> k = kind s then Some s else handle_state sh d' k)"
  using assms
proof (induction ops arbitrary: sh)
  case (Cons opn ops)
  show ?case
  proof (cases "is_fold opn")
    case True
    with Cons.prems show ?thesis
      by (simp add: quiet_ops_keep handle_state_folded)
  next
    case False
    with Cons show ?thesis
      by (simp add: other_ops_keep)
  qed
qed simp

text \<open>Every read of an answer during which one report arrives sees the mirror before or after it.\<close>

lemma before_or_after:
  assumes one: "filter is_fold (concat rounds) = [OpFold d s]"
  shows "handle_state (moment rounds sh j) = handle_state sh \<or>
    handle_state (moment rounds sh j) = handle_state (fold shared_step (concat rounds) sh)"
proof (cases "filter is_fold (concat (take (Suc j) rounds)) = []")
  case True
  then show ?thesis
    by (simp add: moment_def quiet_ops_keep)
next
  case False
  have "filter is_fold (concat (take (Suc j) rounds)) @ filter is_fold (concat (drop (Suc j) rounds)) = [OpFold d s]"
    using one by (metis append_take_drop_id concat_append filter_append)
  with False have "filter is_fold (concat (take (Suc j) rounds)) = [OpFold d s]"
    by (simp add: append_eq_Cons_conv)
  then have "handle_state (moment rounds sh j) d' k = handle_state (fold shared_step (concat rounds) sh) d' k" for d' k
    unfolding moment_def Suc_eq_plus1 [symmetric] by (simp only: one_fold [OF one] one_fold)
  then show ?thesis
    by blast
qed

lemma quiet_moments:
  assumes "filter is_fold (concat rounds) = []"
  shows "handle_state (moment rounds sh j) = handle_state sh"
proof -
  have "filter is_fold (concat (take (j + 1) rounds)) @ filter is_fold (concat (drop (j + 1) rounds)) = []"
    using assms by (metis append_take_drop_id concat_append filter_append)
  then show ?thesis
    by (simp add: moment_def quiet_ops_keep)
qed

lemma answer_as:
  "(\<And>j. j < length (cells (dir_devices dir)) \<Longrightarrow>
      case cells (dir_devices dir) ! j of (d, k) \<Rightarrow> handle_state (moment rounds sh j) d k = handle_state sh' d k) \<Longrightarrow>
    (get_devices_read dir rounds sh :: 'f json) = devices_value dir sh'"
  using devices_read_as [of "dir_devices dir" "moment rounds sh" 0 sh']
  by (simp add: get_devices_read_def devices_value_def)

lemma one_report:
  assumes "distinct (cells (dir_devices dir))" and one: "filter is_fold (concat rounds) = [OpFold d s]"
  shows "(get_devices_read dir rounds sh :: 'f json) \<in>
    {devices_value dir sh, devices_value dir (fold shared_step (concat rounds) sh)}"
proof -
  let ?after = "fold shared_step (concat rounds) sh"
  let ?m = "moment rounds sh"
  let ?cells = "cells (dir_devices dir)"
  have same: "case ?cells ! j of (d', k) \<Rightarrow> handle_state (?m j) d' k = handle_state sh' d' k"
    if "?cells ! j \<noteq> (d, kind s)" "sh' = sh \<or> sh' = ?after" for j sh'
    using that before_or_after [OF one, of sh j] one_fold [OF one, of sh] by (auto split: prod.split)
  have agree: "case ?cells ! j of (d', k) \<Rightarrow> handle_state (?m j) d' k = handle_state sh' d' k"
    if "j < length ?cells" "p < length ?cells" "?cells ! p = (d, kind s)"
      "handle_state (?m p) = handle_state sh'" "sh' = sh \<or> sh' = ?after" for j p sh'
  proof (cases "j = p")
    case False
    with that assms(1) have "?cells ! j \<noteq> (d, kind s)"
      by (metis nth_eq_iff_index_eq)
    then show ?thesis
      using that(5) by (rule same)
  qed (use that in \<open>simp split: prod.split\<close>)
  show ?thesis
  proof (cases "\<exists>p < length ?cells. ?cells ! p = (d, kind s)")
    case True
    then obtain p where p: "p < length ?cells" "?cells ! p = (d, kind s)"
      by blast
    have "(get_devices_read dir rounds sh :: 'f json) = devices_value dir sh'"
      if "handle_state (?m p) = handle_state sh'" "sh' = sh \<or> sh' = ?after" for sh'
      by (rule answer_as) (rule agree [OF _ p that])
    with before_or_after [OF one, of sh p] show ?thesis
      by blast
  next
    case False
    then have "(get_devices_read dir rounds sh :: 'f json) = devices_value dir sh"
      by (intro answer_as same) auto
    then show ?thesis
      by simp
  qed
qed

text \<open>
  C29: a GET of all devices is one state of the house as long as at most one report arrives while it is
  answered: whatever else the other threads do, and wherever between its reads the report falls, the
  answer is the mirror as it was before the report or as it is after it, and never half of each.
\<close>

theorem get_devices_atomic:
  assumes "distinct (cells (dir_devices dir))" and "length (filter is_fold (concat rounds)) \<le> 1"
  shows "(get_devices_read dir rounds sh :: 'f json) \<in>
    {devices_value dir sh, devices_value dir (fold shared_step (concat rounds) sh)}"
proof (cases "filter is_fold (concat rounds) = []")
  case True
  then have "(get_devices_read dir rounds sh :: 'f json) = devices_value dir sh"
    by (intro answer_as) (simp add: quiet_moments split: prod.split)
  then show ?thesis
    by simp
next
  case False
  with assms(2) obtain f where f: "filter is_fold (concat rounds) = [f]"
    by (cases "filter is_fold (concat rounds)") auto
  then have "f \<in> set (filter is_fold (concat rounds))"
    by simp
  then have "is_fold f"
    by simp
  with f show ?thesis
    by (cases f) (auto dest: one_report [OF assms(1)])
qed

text \<open>The lamp goes on between the two reads, after its switch was read; the clock's tick changes nothing.\<close>

theorem get_devices_atomic_witness:
  "get_devices_read lamp_directory [[OpTick 5], [OpFold (DeviceId 0) (Switch True)]] rest_channel \<in>
    {devices_value lamp_directory rest_channel,
     devices_value lamp_directory
       (fold shared_step (concat [[OpTick 5], [OpFold (DeviceId 0) (Switch True)]]) rest_channel) :: unit json}"
proof -
  have "distinct (cells (dir_devices lamp_directory))"
    by (simp add: cells_def lamp_directory_def)
  then show ?thesis
    by (rule get_devices_atomic) simp
qed

text \<open>
  Two reports are enough to tear an answer: the lamp goes on and then the room is occupied, and the answer
  has the room occupied and the lamp not yet on, which the mirror never had.
\<close>

definition two_reports :: "shared_op list" where
  "two_reports = [OpFold (DeviceId 0) (Switch True), OpFold (DeviceId 0) (Occupancy True)]"

theorem get_devices_torn:
  "get_devices_read lamp_directory [[], two_reports] rest_channel \<notin>
    range (\<lambda>n. devices_value lamp_directory (fold shared_step (take n two_reports) rest_channel) :: unit json)"
proof -
  have "get_devices_read lamp_directory [[], two_reports] rest_channel \<noteq>
      (devices_value lamp_directory (fold shared_step (take n two_reports) rest_channel) :: unit json)" if "n \<le> 2" for n
  proof -
    from that have "n = 0 \<or> n = 1 \<or> n = 2"
      by linarith
    then show ?thesis
      by (elim disjE) (simp_all only:, code_simp+)
  qed
  moreover have "take n two_reports = take 2 two_reports" if "\<not> n \<le> 2" for n
    using that by (simp add: two_reports_def)
  ultimately show ?thesis
    by (auto simp only: image_iff) (metis le_refl)
qed

end
