(* ===== verification/Health.thy ===== *)
theory Health
  imports Config Rest_Http_Props
begin

text \<open>
  The health check (\<open>healthcheck.rs\<close>): a server with one thread, which answers its connections one after
  the other, and what a client that sends nothing does to it.
\<close>

section \<open>The server\<close>

text \<open>The server, if the configuration has one: it binds on start, and at the end connects to itself.\<close>

record health_server =
  hs_host :: string
  hs_port :: u16

definition new_health_server :: "raw_healthcheck option \<Rightarrow> health_server option" where
  "new_health_server config = map_option (\<lambda>c. \<lparr>hs_host = hc_host c, hs_port = hc_port c\<rparr>) config"

definition start_health :: "(string \<Rightarrow> u16 \<Rightarrow> string option) \<Rightarrow> health_server option \<Rightarrow> string option" where
  "start_health bind_error sv = Option.bind sv (\<lambda>s. bind_error (hs_host s) (hs_port s))"

definition health_self_connect :: "health_server option \<Rightarrow> (string \<times> u16) option" where
  "health_self_connect sv = map_option (\<lambda>s. (''127.0.0.1'', hs_port s)) sv"

text \<open>The answer to the first line of a connection; \<open>None\<close> when there is none to read.\<close>

definition health_answer :: "ending \<Rightarrow> bytes \<Rightarrow> string option" where
  "health_answer en bs =
     (case read_line en bs of
        None \<Rightarrow> None
      | Some (line, _) \<Rightarrow>
          if line = [] then None
          else if starts_with ''GET / '' line
          then Some (''HTTP/1.1 200 OK'' @ crlf @ ''Content-Length: 7'' @ crlf @ crlf @ ''healthy'')
          else Some (''HTTP/1.1 404 Not Found'' @ crlf @ ''Content-Length: 9'' @ crlf @ ''Connection: close'' @
            crlf @ crlf @ ''not found''))"

section \<open>The loop\<close>

text \<open>
  What \<open>incoming()\<close> yields: an error, or a connection with the bytes it sends and their end, \<open>None\<close> when
  the client stays connected and sends no more. No time-out is set on the connection, so that reading
  its first line may wait for ever.
\<close>

datatype incoming = Failed | Connected "ending option" bytes

datatype loop_state = Accepting | Stuck | Left

text \<open>
  The loop over what it accepts, each with whether the flag of the shutdown is set at that moment: what it
  wrote to each connection it was done with, and where it is.
\<close>

fun health_loop :: "(bool \<times> incoming) list \<Rightarrow> string option list \<times> loop_state" where
  "health_loop [] = ([], Accepting)"
| "health_loop ((stop, c) # cs) =
     (if stop then ([], Left)
      else
        (case c of
           Failed \<Rightarrow> health_loop cs
         | Connected (Some en) bs \<Rightarrow> apfst ((#) (health_answer en bs)) (health_loop cs)
         | Connected None bs \<Rightarrow>
             if until_newline bs = None then ([], Stuck)
             else apfst ((#) (health_answer Broken bs)) (health_loop cs)))"

section \<open>One client at a time\<close>

text \<open>A client that does its part: it sends a line, or goes away.\<close>

fun cooperative :: "incoming \<Rightarrow> bool" where
  "cooperative Failed = True"
| "cooperative (Connected en bs) \<longleftrightarrow> en \<noteq> None \<or> until_newline bs \<noteq> None"

fun answers :: "incoming \<Rightarrow> string option list" where
  "answers Failed = []"
| "answers (Connected en bs) = [health_answer (case en of Some e \<Rightarrow> e | None \<Rightarrow> Broken) bs]"

lemma health_loop_append:
  "list_all (\<lambda>(stop, c). \<not> stop \<and> cooperative c) cs \<Longrightarrow>
    health_loop (cs @ ds) = apfst ((@) (concat (map (answers \<circ> snd) cs))) (health_loop ds)"
proof (induction cs)
  case (Cons x cs)
  then obtain c where x: "x = (False, c)" "cooperative c"
    by (cases x) auto
  show ?case
  proof (cases c)
    case (Connected en bs)
    with Cons x show ?thesis
      by (cases en) (simp_all add: apfst_def map_prod_def case_prod_beta)
  qed (use Cons x in simp)
qed (simp add: apfst_def map_prod_def)

text \<open>How a request for the health is answered, whatever follows it on the line or after it.\<close>

lemma healthy_answer:
  assumes "list_all (byte_in 0 0x7F) rest" and "char_of (10 :: nat) \<notin> set rest"
  shows "health_answer en (''GET / '' @ rest @ char_of (10 :: nat) # later) =
    Some (''HTTP/1.1 200 OK'' @ crlf @ ''Content-Length: 7'' @ crlf @ crlf @ ''healthy'')"
proof -
  have "read_line en ((''GET / '' @ rest) @ char_of (10 :: nat) # later) =
      Some ((''GET / '' @ rest) @ [char_of (10 :: nat)], later)"
    using assms by (intro read_line_ascii) (auto simp: byte_in_def newline_eq)
  moreover have "starts_with ''GET / '' (''GET / '' @ rest @ [char_of (10 :: nat)])"
    by (rule starts_with_append)
  ultimately show ?thesis
    by (simp add: health_answer_def)
qed

text \<open>
  The health check serves one client at a time and waits for it without limit. As long as every client
  sends a line or goes away, every connection is answered in its turn, and the loop ends with the first
  connection after the shutdown; but after a client that stays connected and sends no line, no other
  client is ever answered, and the loop does not notice the shutdown either.
\<close>

theorem health_check_waits:
  assumes "list_all (\<lambda>(stop, c). \<not> stop \<and> cooperative c) cs" and "until_newline bs = None"
  shows "health_loop cs = (concat (map (answers \<circ> snd) cs), Accepting) \<and>
    health_loop (cs @ (True, c) # ds) = (concat (map (answers \<circ> snd) cs), Left) \<and>
    health_loop (cs @ (False, Connected None bs) # ds) = (concat (map (answers \<circ> snd) cs), Stuck)"
  using health_loop_append [OF assms(1), of "[]"] health_loop_append [OF assms(1)] assms(2) by simp

text \<open>A probe is answered; after a silent client the next probe is not, and the shutdown goes unnoticed.\<close>

theorem health_check_waits_witness:
  "health_loop [(False, Connected (Some Closed) ''GET / HTTP/1.1\<newline>'')] =
     ([health_answer Closed ''GET / HTTP/1.1\<newline>''], Accepting) \<and>
   health_loop [(False, Connected (Some Closed) ''GET / HTTP/1.1\<newline>''), (False, Connected None ''GET''),
      (False, Connected (Some Closed) ''GET / HTTP/1.1\<newline>''), (True, Failed)] =
     ([health_answer Closed ''GET / HTTP/1.1\<newline>''], Stuck)"
  using health_check_waits [of "[(False, Connected (Some Closed) ''GET / HTTP/1.1\<newline>'')]" "''GET''" Failed
      "[(False, Connected (Some Closed) ''GET / HTTP/1.1\<newline>''), (True, Failed)]"]
  by (simp add: newline_eq eq_commute [of _ "char_of (10 :: nat)"])

end
