(* ===== verification/Host.thy ===== *)
theory Host
  imports Build Health
begin

text \<open>
  The process (\<open>main.rs\<close>, \<open>wake.rs\<close>): its command line, the check mode, the start of the normal mode, the
  loop that drives the engine in real time, the wake-up channel and the signals. The file system, the glob library and the compiler are arguments.
\<close>

section \<open>The command line\<close>

definition DEFAULT_CONFIG :: string where
  "DEFAULT_CONFIG = ''config.yaml''"

definition HELP :: string where
  "HELP = join_with newline
     [''usage: domiform [-c <config.yaml>] [--check] [-v]'',
      ''       domiform --check <config.yaml|glob> [<config.yaml|glob> ...]'',
      '''',
      ''  -c, --config <path>   config file to run (default: ./config.yaml)'',
      ''      --check           compile and report problems, then exit without running.'',
      ''                        Accepts multiple paths and globs (e.g. '' @ quoted ''examples/*.yaml'' @ '')'',
      ''                        and validates each; exits non-zero if any fails.'',
      ''  -v, --verbose         trace every event, condition Truth, and dispatch'',
      ''  -h, --help            show this help'']"

record args =
  ar_configs :: "string list"
  ar_verbose :: bool
  ar_check :: bool

definition no_args :: args where
  "no_args = \<lparr>ar_configs = [], ar_verbose = False, ar_check = False\<rparr>"

text \<open>The arguments in order; \<open>--help\<close> ends the process at once with success.\<close>

datatype parsed = Parsed args | Usage string | Helped

fun parse_from :: "args \<Rightarrow> string list \<Rightarrow> parsed" where
  "parse_from a [] = Parsed a"
| "parse_from a (w # ws) =
     (if w = ''-v'' \<or> w = ''--verbose'' then parse_from (a\<lparr>ar_verbose := True\<rparr>) ws
      else if w = ''--check'' then parse_from (a\<lparr>ar_check := True\<rparr>) ws
      else if w = ''-c'' \<or> w = ''--config'' then
        (case ws of
           [] \<Rightarrow> Usage ''`-c`/`--config` needs a path''
         | p # ws \<Rightarrow> parse_from (a\<lparr>ar_configs := ar_configs a @ [p]\<rparr>) ws)
      else if w = ''-h'' \<or> w = ''--help'' then Helped
      else if starts_with ''-'' w then Usage (''unknown flag '' @ quoted w @ newline @ newline @ HELP)
      else parse_from (a\<lparr>ar_configs := ar_configs a @ [w]\<rparr>) ws)"

definition parse_args :: "string list \<Rightarrow> parsed" where
  "parse_args ws = parse_from no_args ws"

definition is_glob :: "string \<Rightarrow> bool" where
  "is_glob pat \<longleftrightarrow> list_ex (\<lambda>c. c = CHR ''*'' \<or> c = CHR ''?'' \<or> c = CHR ''['') pat"

text \<open>What the process does after its command line: a mode, or an exit code with a message.\<close>

datatype plan = CheckFiles "string list" | RunConfig string bool | Leave nat string

definition plan_of :: "parsed \<Rightarrow> plan" where
  "plan_of p =
     (case p of
        Helped \<Rightarrow> Leave 0 HELP
      | Usage msg \<Rightarrow> Leave 2 msg
      | Parsed a \<Rightarrow>
          if ar_check a then CheckFiles (ar_configs a)
          else
            (case ar_configs a of
               [] \<Rightarrow> RunConfig DEFAULT_CONFIG (ar_verbose a)
             | [p] \<Rightarrow>
                 if is_glob p
                 then Leave 2 (quoted p @ '' looks like a glob; globs are only supported with --check'')
                 else RunConfig p (ar_verbose a)
             | _ \<Rightarrow> Leave 2 ''only one config can be run; pass --check to validate several''))"

section \<open>Checking files\<close>

text \<open>
  The glob library: an error for a bad pattern, or the entries it yields, each a path or an error.
\<close>

type_synonym globber = "string \<Rightarrow> string + (string + string) list"

text \<open>The loop over the entries of one pattern: the paths so far and how many matched.\<close>

fun expand_entries :: "string \<Rightarrow> (string + string) list \<Rightarrow> string list \<times> nat \<Rightarrow> string + string list \<times> nat" where
  "expand_entries pat [] acc = Inr acc"
| "expand_entries pat (Inl e # es) acc = Inl (''reading '' @ quoted pat @ '': '' @ e)"
| "expand_entries pat (Inr p # es) (out, matched) =
     expand_entries pat es (if p \<in> set out then out else out @ [p], matched + 1)"

fun expand_from :: "globber \<Rightarrow> string list \<Rightarrow> string list \<Rightarrow> string + string list" where
  "expand_from glob [] out = Inr out"
| "expand_from glob (pat # pats) out =
     (if \<not> is_glob pat then expand_from glob pats (if pat \<in> set out then out else out @ [pat])
      else
        (case glob pat of
           Inl e \<Rightarrow> Inl (''bad pattern '' @ quoted pat @ '': '' @ e)
         | Inr es \<Rightarrow>
             (case expand_entries pat es (out, 0) of
                Inl e \<Rightarrow> Inl e
              | Inr (out, matched) \<Rightarrow>
                  if matched = 0 then Inl (''no files match pattern '' @ quoted pat)
                  else expand_from glob pats out)))"

definition expand_configs :: "globber \<Rightarrow> string list \<Rightarrow> string + string list" where
  "expand_configs glob pats = expand_from glob pats []"

datatype line = Out string | Err string

text \<open>One file: what is printed on the way, and an error message if it is not valid.\<close>

definition check_one ::
  "(string \<Rightarrow> string + string) \<Rightarrow> (string \<Rightarrow> diagnostic list + ('n, 'f, 'x, 'b, 'w) compiled_config) \<Rightarrow> string \<Rightarrow>
   line list \<times> string option" where
  "check_one read compile path =
     (case read path of
        Inl e \<Rightarrow> ([], Some (path @ '': could not read: '' @ e))
      | Inr src \<Rightarrow>
          (case compile src of
             Inl errors \<Rightarrow> ([], Some (path @ '':'' @ newline @ errors_display errors))
           | Inr cfg \<Rightarrow>
               (map (\<lambda>w. Err (path @ '': '' @ diag_display w)) (cc_warnings cfg) @
                [Out (''ok: '' @ path @ '' is valid ('' @ decimal (length (cc_devices cfg)) @ '' device(s), '' @
                  decimal (length (cc_scenes cfg)) @ '' scene(s), '' @
                  decimal (length (cc_rules cfg)) @ '' rule(s))'')], None)))"

fun check_all :: "(string \<Rightarrow> line list \<times> string option) \<Rightarrow> string list \<Rightarrow> nat \<Rightarrow> nat \<Rightarrow> line list \<times> nat \<times> nat" where
  "check_all check [] valid failed = ([], valid, failed)"
| "check_all check (p # ps) valid failed =
     (case check p of
        (ls, None) \<Rightarrow> apfst ((@) ls) (check_all check ps (valid + 1) failed)
      | (ls, Some msg) \<Rightarrow> apfst ((@) (ls @ [Err msg])) (check_all check ps valid (failed + 1)))"

definition run_check ::
  "globber \<Rightarrow> (string \<Rightarrow> line list \<times> string option) \<Rightarrow> string list \<Rightarrow> line list \<times> nat" where
  "run_check glob check patterns =
     (case expand_configs glob (if patterns = [] then [DEFAULT_CONFIG] else patterns) of
        Inl msg \<Rightarrow> ([Err msg], 2)
      | Inr files \<Rightarrow>
          (case check_all check files 0 0 of
             (ls, valid, failed) \<Rightarrow>
               (ls @ (if 1 < length files
                      then [Out (''checked '' @ decimal (length files) @ '' file(s): '' @ decimal valid @ '' ok, '' @
                              decimal failed @ '' failed'')]
                      else []),
                if failed = 0 then 0 else 1)))"

section \<open>Starting\<close>

datatype 'c started = Stopped nat "line list" | Compiled 'c "line list"

definition load_config ::
  "(string \<Rightarrow> bool) \<Rightarrow> (string \<Rightarrow> string + string) \<Rightarrow>
   (string \<Rightarrow> diagnostic list + ('n, 'f, 'x, 'b, 'w) compiled_config) \<Rightarrow> string \<Rightarrow>
   ('n, 'f, 'x, 'b, 'w) compiled_config started" where
  "load_config exists read compile config =
     (if \<not> exists config then Stopped 2 [Err (''config file not found: '' @ config)]
      else
        (case read config of
           Inl e \<Rightarrow> Stopped 2 [Err (''could not read '' @ config @ '': '' @ e)]
         | Inr src \<Rightarrow>
             (case compile src of
                Inl errors \<Rightarrow> Stopped 1 [Err (errors_display errors)]
              | Inr cfg \<Rightarrow>
                  Compiled cfg
                    (map (\<lambda>w. Err (diag_display w)) (cc_warnings cfg) @
                     [Out (''compiled '' @ decimal (length (cc_devices cfg)) @ '' device(s), '' @
                       decimal (length (cc_scenes cfg)) @ '' scene(s), '' @
                       decimal (length (cc_rules cfg)) @ '' rule(s)'')]))))"

section \<open>Signals and wake-ups\<close>

text \<open>
  A signal: the first one sets the flag, and pokes everything that blocks, in this order; the second
  ends the process.
\<close>

datatype poke = ConnectHealth | ConnectApi | CloseStreams | WakeLoop

datatype signal_result = ShutDown "poke list" | Exit130

definition on_signal :: "bool \<Rightarrow> bool \<times> signal_result" where
  "on_signal shutdown =
     (True, if shutdown then Exit130 else ShutDown [ConnectHealth, ConnectApi, CloseStreams, WakeLoop])"

text \<open>The wake-up channel: the signals sent and not yet received, and whether a sender is left.\<close>

record wake_state =
  wk_pending :: nat
  wk_senders :: bool

datatype wake_reason = Signaled | TimedOut

definition wake_channel :: wake_state where
  "wake_channel = \<lparr>wk_pending = 0, wk_senders = True\<rparr>"

definition wake :: "wake_state \<Rightarrow> wake_state" where
  "wake s = s\<lparr>wk_pending := wk_pending s + 1\<rparr>"

text \<open>A wait; \<open>arrives\<close> is whether a signal is sent before the timeout is over.\<close>

definition wait_wake :: "bool \<Rightarrow> wake_state \<Rightarrow> wake_state \<times> wake_reason" where
  "wait_wake arrives s =
     (if 0 < wk_pending s then (s\<lparr>wk_pending := wk_pending s - 1\<rparr>, Signaled)
      else if wk_senders s \<and> arrives then (s, Signaled)
      else (s, TimedOut))"

section \<open>The loop\<close>

definition MAX_SLEEP :: millis where
  "MAX_SLEEP = 5000"

definition sleep_for :: "('x, 'n) vtable \<Rightarrow> ('x, 'n) engine \<Rightarrow> millis" where
  "sleep_for V e = min (case next_wake_delay V e of Some d \<Rightarrow> d | None \<Rightarrow> MAX_SLEEP) MAX_SLEEP"

text \<open>
  One round of the loop as the world shapes it: whether the flag is set before the sleep and after it,
  the instant, in nanoseconds of the monotonic clock, at which the sleep is over, and what the threads of
  the adapters and of the servers did meanwhile to what they share with the engine.
\<close>

record 'e round_of =
  ro_stop_before :: bool
  ro_stop_after :: bool
  ro_woke :: nat
  ro_world :: "'e \<Rightarrow> 'e"

definition elapsed_ms :: "nat \<Rightarrow> nat \<Rightarrow> millis" where
  "elapsed_ms before now = of_nat ((now - before) div 1000000)"

fun run_loop ::
  "nat \<Rightarrow> ('x, 'n) vtable \<Rightarrow> ('x, 'n) engine round_of list \<Rightarrow> ('x, 'n) engine \<Rightarrow> nat \<Rightarrow> ('x, 'n) engine run option" where
  "run_loop n V [] e before = Some (Done e)"
| "run_loop n V (r # rs) e before =
     (if ro_stop_before r \<or> ro_stop_after r then Some (Done e)
      else
        (case advance n V (elapsed_ms before (ro_woke r)) (ro_world r e) of
           Some (Done e') \<Rightarrow> run_loop n V rs e' (ro_woke r)
         | other \<Rightarrow> other))"

section \<open>What the check mode does\<close>

definition paths_of :: "globber \<Rightarrow> string \<Rightarrow> string list" where
  "paths_of glob pat =
     (if is_glob pat then (case glob pat of Inr es \<Rightarrow> map projr es | Inl _ \<Rightarrow> []) else [pat])"

definition pattern_ok :: "globber \<Rightarrow> string \<Rightarrow> bool" where
  "pattern_ok glob pat \<longleftrightarrow>
     (is_glob pat \<longrightarrow> (\<exists>es. glob pat = Inr es \<and> es \<noteq> [] \<and> list_all (\<lambda>e. \<not> isl e) es))"

text \<open>Each element at its first occurrence.\<close>

definition firsts :: "'a list \<Rightarrow> 'a list" where
  "firsts xs = rev (remdups (rev xs))"

lemma firsts_snoc: "firsts (xs @ [x]) = (if x \<in> set xs then firsts xs else firsts xs @ [x])"
  by (simp add: firsts_def)

lemma set_firsts [simp]: "set (firsts xs) = set xs"
  by (simp add: firsts_def)

lemma expand_entries_exact:
  "expand_entries pat es (firsts xs, m) = Inr (out, m') \<longleftrightarrow>
    list_all (\<lambda>e. \<not> isl e) es \<and> out = firsts (xs @ map projr es) \<and> m' = m + length es"
proof (induction es arbitrary: xs m)
  case (Cons e es)
  show ?case
  proof (cases e)
    case (Inr p)
    then show ?thesis
      using Cons.IH [of "xs @ [p]" "Suc m"] by (simp add: firsts_snoc)
  qed simp
qed auto

lemma expand_from_exact:
  "expand_from glob pats (firsts xs) = Inr files \<longleftrightarrow>
    list_all (pattern_ok glob) pats \<and> files = firsts (xs @ concat (map (paths_of glob) pats))"
proof (induction pats arbitrary: xs)
  case (Cons pat pats)
  show ?case
  proof (cases "is_glob pat")
    case False
    then show ?thesis
      using Cons.IH [of "xs @ [pat]"] by (simp add: firsts_snoc pattern_ok_def paths_of_def)
  next
    case True
    show ?thesis
    proof (cases "glob pat")
      case (Inr es)
      show ?thesis
      proof (cases "list_all (\<lambda>e. \<not> isl e) es \<and> es \<noteq> []")
        case True
        then have "expand_entries pat es (firsts xs, 0) = Inr (firsts (xs @ map projr es), length es)"
          using expand_entries_exact [of pat es xs 0] by simp
        with True \<open>is_glob pat\<close> Inr Cons.IH [of "xs @ map projr es"] show ?thesis
          by (simp add: pattern_ok_def paths_of_def)
      next
        case False
        then have "\<not> pattern_ok glob pat"
          using \<open>is_glob pat\<close> Inr by (simp add: pattern_ok_def) blast
        moreover have "expand_from glob (pat # pats) (firsts xs) \<noteq> Inr files"
          using False \<open>is_glob pat\<close> Inr expand_entries_exact [of pat es xs 0]
          by (auto split: sum.splits prod.splits)
        ultimately show ?thesis
          by simp
      qed
    qed (use True in \<open>simp add: pattern_ok_def\<close>)
  qed
qed auto

lemma check_all_count:
  "snd (check_all check ps valid failed) =
    (valid + length (filter (\<lambda>p. snd (check p) = None) ps),
     failed + length (filter (\<lambda>p. snd (check p) \<noteq> None) ps))"
  by (induction check ps valid failed rule: check_all.induct) (auto split: prod.splits option.splits)

text \<open>
  The exit code of the check mode. It is 0 just when every pattern matches and every file it stands for,
  each checked once and in the order of the patterns, compiles; 1 when all of them were found and some
  do not compile, of which each is reported; and 2 when a pattern is bad or matches nothing.
\<close>

theorem check_exit_code:
  "snd (run_check glob check patterns) =
    (let pats = (if patterns = [] then [''config.yaml''] else patterns) in
     if \<not> list_all (pattern_ok glob) pats then 2
     else if list_all (\<lambda>p. snd (check p) = None) (firsts (concat (map (paths_of glob) pats))) then 0 else 1)"
proof -
  define pats where "pats = (if patterns = [] then [''config.yaml''] else patterns)"
  have exact: "expand_configs glob pats = Inr files \<longleftrightarrow>
      list_all (pattern_ok glob) pats \<and> files = firsts (concat (map (paths_of glob) pats))" for files
    using expand_from_exact [of glob pats "[]" files] by (simp add: expand_configs_def firsts_def)
  have code: "snd (run_check glob check patterns) =
      (case expand_configs glob pats of
         Inl _ \<Rightarrow> 2
       | Inr files \<Rightarrow> if snd (snd (check_all check files 0 0)) = 0 then 0 else 1)"
    by (simp add: run_check_def pats_def DEFAULT_CONFIG_def split: sum.split prod.split)
  have failed: "snd (snd (check_all check files 0 0)) = 0 \<longleftrightarrow> list_all (\<lambda>p. snd (check p) = None) files" for files
    by (simp add: check_all_count filter_empty_conv list_all_iff)
  show ?thesis
  proof (cases "expand_configs glob pats")
    case (Inl e)
    then have "\<not> list_all (pattern_ok glob) pats"
      using exact by auto
    then show ?thesis
      unfolding pats_def [symmetric] Let_def code by (simp add: Inl)
  next
    case (Inr files)
    then show ?thesis
      using exact [of files] unfolding pats_def [symmetric] Let_def code by (simp add: Inr failed)
  qed
qed

section \<open>Wake-ups are not merged\<close>

fun waits :: "nat \<Rightarrow> wake_state \<Rightarrow> wake_reason list" where
  "waits 0 s = []"
| "waits (Suc n) s = (case wait_wake False s of (s, r) \<Rightarrow> r # waits n s)"

text \<open>
  Every signal sent is a return of its own: after a burst of \<open>k\<close> of them, the next \<open>k\<close> waits
  return at once, although the first turn of the loop already drained everything.
\<close>

lemma wakes_do_not_coalesce:
  "waits (k + n) ((wake ^^ k) wake_channel) = replicate k Signaled @ replicate n TimedOut"
proof -
  have waits: "waits (k + n) s = replicate k Signaled @ replicate n TimedOut" if "wk_pending s = k" for s
    using that
  proof (induction k arbitrary: s)
    case 0
    then show ?case
      by (induction n arbitrary: s) (simp_all add: wait_wake_def)
  qed (simp add: wait_wake_def)
  have "wk_pending ((wake ^^ k) s) = wk_pending s + k" for s
    by (induction k) (simp_all add: wake_def)
  then show ?thesis
    using waits by (simp add: wake_channel_def)
qed

section \<open>The loop and the time\<close>

text \<open>The configuration and the time of an engine, which no event changes.\<close>

definition fixed_at :: "millis \<Rightarrow> ('x, 'n) engine \<Rightarrow> ('x, 'n) engine \<Rightarrow> bool" where
  "fixed_at t e0 e \<longleftrightarrow> e_now e = t \<and> e_scenes e = e_scenes e0 \<and> e_max_depth e = e_max_depth e0"

lemma fixed_at_step:
  assumes "fixed_at t e0 e" and "e_queue e = (ev, d) # q"
    and run: "process_event n V ev d (e\<lparr>e_queue := q\<rparr>) = Done e'"
  shows "fixed_at t e0 e'"
proof (cases "e_max_depth e < d")
  case True
  with run have "e' = notify (CascadeDropped ev d) (e\<lparr>e_queue := q\<rparr>)"
    by (simp add: process_event_dropped)
  with assms(1) show ?thesis
    by (simp add: fixed_at_def)
next
  case False
  with process_event_step [OF run] have "event_step V ev d (e\<lparr>e_queue := q\<rparr>) e'"
    by simp
  with assms(1) show ?thesis
    by (simp add: fixed_at_def event_step_def same_config_def)
qed

interpretation clockwork: loop_invariant n V "fixed_at t e0" for n and V :: "('x, 'n) vtable" and t and e0
  by unfold_locales (rule fixed_at_step)

lemma advance_now:
  assumes "advance n V dt e = Some (Done e')"
  shows "fixed_at (e_now e + dt) e e'"
proof -
  have "fixed_at (e_now e + dt) e (tick_adapters V (e\<lparr>e_now := e_now e + dt\<rparr>))"
    by (simp add: fixed_at_def) (simp add: tick_adapters_def Let_def)
  then show ?thesis
    using assms clockwork.drain_I unfolding advance_def by blast
qed

text \<open>The time the loop gives the engine.\<close>

fun given_ms :: "'e round_of list \<Rightarrow> nat \<Rightarrow> millis" where
  "given_ms [] before = 0"
| "given_ms (r # rs) before =
     (if ro_stop_before r \<or> ro_stop_after r then 0
      else elapsed_ms before (ro_woke r) + given_ms rs (ro_woke r))"

text \<open>An engine on which every turn returns.\<close>

definition runnable :: "nat \<Rightarrow> ('x, 'n) vtable \<Rightarrow> ('x, 'n) engine \<Rightarrow> bool" where
  "runnable n V e \<longleftrightarrow>
     engine_wf e \<and> acyclic (scene_calls (e_scenes e)) \<and> quiet_dispatch (op_dispatch (dev V)) \<and>
     e_max_depth e < - 1 \<and> n = Suc (length (e_scenes e))"

lemma runnable_advance:
  assumes "runnable n V e"
  obtains e' where "advance n V dt e = Some (Done e')" "runnable n V e'" "e_now e' = e_now e + dt"
proof -
  have quiet: "quiet_dispatch (op_dispatch (dev V))" and w: "wired (e_scenes e) e" and fit: "scenes_fit n (e_scenes e)"
    using assms acyclic_scenes_fit by (auto simp: runnable_def wired_def)
  obtain e' where run: "advance n V dt e = Some (Done e')" "at_rest e'"
    using drain_total [OF quiet fit wired.tick_I, of "e\<lparr>e_now := e_now e + dt\<rparr>" V] w assms
    by (auto simp: advance_def at_rest_def wired_def runnable_def)
  from advance_now [OF run(1)] have "e_scenes e' = e_scenes e" "e_max_depth e' = e_max_depth e" "e_now e' = e_now e + dt"
    by (simp_all add: fixed_at_def)
  with assms run(2) that [OF run(1)] show thesis
    by (simp add: runnable_def at_rest_def)
qed

text \<open>The threads change the states of adapters, and nothing else.\<close>

definition worldly :: "('x, 'n) engine round_of list \<Rightarrow> bool" where
  "worldly rs \<longleftrightarrow> (\<forall>r \<in> set rs. \<forall>e. world_step\<^sup>*\<^sup>* e (ro_world r e))"

lemma runnable_world:
  "world_step\<^sup>*\<^sup>* e f \<Longrightarrow> runnable n V e \<Longrightarrow> runnable n V f \<and> e_now f = e_now e"
proof (induction rule: rtranclp_induct)
  case (step f g)
  then have f: "runnable n V f" "e_now f = e_now e" "wired (e_scenes f) f"
    by (simp_all add: runnable_def wired_def)
  from step(2) show ?case
  proof (cases rule: world_step.cases)
    case (device i x x')
    with wired_device [OF f(3) device(2)] f(1,2) show ?thesis
      by (simp add: runnable_def wired_def)
  next
    case (northbound ns)
    with f show ?thesis
      by (simp add: runnable_def engine_wf_def)
  qed
qed simp

lemma run_loop_given:
  "runnable n V e \<Longrightarrow> worldly rs \<Longrightarrow> \<exists>e'. run_loop n V rs e before = Some (Done e') \<and> engine_wf e' \<and>
    e_now e' = e_now e + given_ms rs before"
proof (induction rs arbitrary: e before)
  case (Cons r rs)
  have w: "runnable n V (ro_world r e)" "e_now (ro_world r e) = e_now e"
    using runnable_world Cons.prems by (fastforce simp: worldly_def)+
  obtain f where f: "advance n V (elapsed_ms before (ro_woke r)) (ro_world r e) = Some (Done f)" "runnable n V f"
    "e_now f = e_now e + elapsed_ms before (ro_woke r)"
    by (rule runnable_advance [OF w(1), of "elapsed_ms before (ro_woke r)"]) (simp add: w(2))
  from Cons.IH [OF f(2), of "ro_woke r"] f Cons.prems show ?case
    by (auto simp: runnable_def worldly_def add.assoc)
qed (simp add: runnable_def)



text \<open>The loop woken again and again, a little under a millisecond apart.\<close>

definition bursts :: "('e \<Rightarrow> 'e) \<Rightarrow> nat \<Rightarrow> nat \<Rightarrow> 'e round_of list" where
  "bursts w before k =
     map (\<lambda>i. \<lparr>ro_stop_before = False, ro_stop_after = False, ro_woke = before + Suc i * 999999,
      ro_world = w\<rparr>) [0..<k]"

lemma given_bursts: "given_ms (bursts w before k) before = 0"
proof -
  have "given_ms (map (\<lambda>i. \<lparr>ro_stop_before = False, ro_stop_after = False, ro_woke = before + Suc i * 999999,
      ro_world = w\<rparr>)
      [j..<j + k]) (before + j * 999999) = 0" for j
  proof (induction k arbitrary: j)
    case (Suc k)
    have "[j..<j + Suc k] = j # [Suc j..<Suc j + k]"
      by (simp add: upt_rec)
    with Suc.IH [of "Suc j"] show ?case
      by (simp add: elapsed_ms_def)
  qed simp
  from this [of 0] show ?thesis
    by (simp add: bursts_def)
qed

text \<open>
  C37: the host loses time. Each round drops the fraction of a millisecond it measured and starts the next
  measurement from the later instant, so that the engine's clock falls behind the real one with every
  wake-up; and while traffic wakes the loop more often than once a millisecond it stands still: after
  any number of such rounds no time has passed for the engine, its timers, its schedules and its sun.
\<close>

theorem host_loses_time:
  assumes "engine_wf e" and "acyclic (scene_calls (e_scenes e))" and "quiet_dispatch (op_dispatch (dev V))"
    and "e_max_depth e < - 1" and "n = Suc (length (e_scenes e))" and "\<forall>e. world_step\<^sup>*\<^sup>* e (w e)"
  shows "\<exists>e'. run_loop n V (bursts w before k) e before = Some (Done e') \<and> e_now e' = e_now e"
proof -
  have "runnable n V e"
    using assms by (simp add: runnable_def)
  moreover have "worldly (bursts w before k)"
    using assms(6) by (auto simp: worldly_def bursts_def)
  ultimately show ?thesis
    using run_loop_given [of n V e "bursts w before k" before] by (auto simp: given_bursts)
qed

text \<open>Three seconds of it.\<close>

theorem host_loses_time_witness:
  "(\<exists>e'. run_loop 1 virtual_house (bursts id 0 3001) small_house 0 = Some (Done e') \<and> e_now e' = 0) \<and>
    3000 * 1000000 \<le> ro_woke (last (bursts id 0 3001))"
proof -
  have "e_scenes small_house = []" "e_max_depth small_house < - 1" "e_now small_house = 0"
    by code_simp+
  then have "\<exists>e'. run_loop 1 virtual_house (bursts id 0 3001) small_house 0 = Some (Done e') \<and> e_now e' = 0"
    using host_loses_time [OF small_house_wf, of virtual_house 1] virtual_echo.quiet_dispatch_axioms
    by (simp add: scene_calls_def virtual_house_def acyclic_def)
  then show ?thesis
    by (simp add: bursts_def last_map del: upt_rec_numeral)
qed

end
