(* ===== verification/Delivery.thy ===== *)
theory Delivery
  imports Host Rest_Props
begin

text \<open>
  From the connection to the engine: the requests that were accepted are what the engine receives in
  its next turn, in their order and once each, after the reports of the protocol adapters.
\<close>

section \<open>What starts a chain of events\<close>

text \<open>The events a trace received at depth 0, and those that wait in a queue.\<close>

definition arrivals :: "notice list \<Rightarrow> event list" where
  "arrivals t = List.map_filter (\<lambda>m. case m of EventReceived ev d \<Rightarrow> if d = 0 then Some ev else None | _ \<Rightarrow> None) t"

definition expected :: "(event \<times> u32) list \<Rightarrow> event list" where
  "expected q = map fst (filter (\<lambda>(ev, d). d = 0) q)"

lemma arrivals_append [simp]: "arrivals (t @ t') = arrivals t @ arrivals t'"
  by (simp add: arrivals_def List.map_filter_def)

lemma arrivals_Cons [simp]:
  "arrivals (EventReceived ev d # t) = (if d = 0 then ev # arrivals t else arrivals t)"
  "arrivals (CascadeDropped ev d # t) = arrivals t"
  by (simp_all add: arrivals_def List.map_filter_def)

lemma arrivals_Nil [simp]: "arrivals [] = []"
  by (simp add: arrivals_def List.map_filter_def)

lemma no_intake_no_arrival: "list_all (\<lambda>m. \<not> is_intake m) t \<Longrightarrow> arrivals t = []"
  by (auto simp: arrivals_def List.map_filter_def list_all_iff filter_empty_conv split: notice.splits)

lemma expected_simps [simp]:
  "expected [] = []"
  "expected ((ev, d) # q) = (if d = 0 then ev # expected q else expected q)"
  "expected (q @ q') = expected q @ expected q'"
  "expected (map (\<lambda>x. (f x, 0)) xs) = map f xs"
  by (simp_all add: expected_def comp_def filter_map)

text \<open>
  An event is received once, and what it produces is deeper: received and expected events together are
  the same throughout the loop. A fold does not touch the channel of the API.
\<close>

definition delivers :: "event list \<Rightarrow> ('x, rest_shared) engine \<Rightarrow> bool" where
  "delivers evs e \<longleftrightarrow>
     e_max_depth e < - 1 \<and> arrivals (e_trace e) @ expected (e_queue e) = evs \<and>
     map rs_inbound (e_northbound e) = [[]]"

lemma told_inbound: "rs_inbound \<circ> told (rest_vtable D) m ev = rs_inbound"
  by (cases ev) (auto simp: fun_eq_iff rest_vtable_def rest_ops_def rest_folded_def split: option.split)

lemma deeper_not_expected:
  assumes "\<forall>(ev', d') \<in> set q. (d' = d + 1 \<or> is_timer_event ev \<and> d' = 1) \<and> produced V ev'" and "d < - 1"
  shows "expected q = []"
proof -
  have "d + 1 \<noteq> 0"
    using assms(2) by (metis add.commute add_eq_0_iff less_irrefl)
  with assms(1) show ?thesis
    by (auto simp: expected_def filter_empty_conv)
qed

lemma delivers_step:
  assumes "delivers evs e" and q: "e_queue e = (ev, d) # q"
    and run: "process_event n (rest_vtable D) ev d (e\<lparr>e_queue := q\<rparr>) = Done g"
  shows "delivers evs g"
proof (cases "e_max_depth e < d")
  case True
  then have "d \<noteq> 0"
    by auto
  from True run have "g = notify (CascadeDropped ev d) (e\<lparr>e_queue := q\<rparr>)"
    by (simp add: process_event_dropped)
  with assms(1) q \<open>d \<noteq> 0\<close> show ?thesis
    by (simp add: delivers_def)
next
  case False
  then have d: "d \<le> e_max_depth (e\<lparr>e_queue := q\<rparr>)" "d < - 1"
    using assms(1) by (auto simp: delivers_def)
  obtain q' t where g: "same_config (e\<lparr>e_queue := q\<rparr>) g" "e_queue g = q @ q'"
    "e_trace g = e_trace e @ EventReceived ev d # t"
    and q': "\<forall>(ev', d') \<in> set q'. (d' = d + 1 \<or> is_timer_event ev \<and> d' = 1) \<and> produced (rest_vtable D) ev'"
    and t: "list_all (\<lambda>m. \<not> is_intake m) t"
    using process_event_step [OF run d(1)] by (auto simp: event_step_def)
  moreover have "e_northbound g = map (told (rest_vtable D) (e_state e) ev) (e_northbound e)"
    using process_event_northbound [OF run d(1)] by simp
  ultimately show ?thesis
    using assms(1) q deeper_not_expected [OF q' d(2)] no_intake_no_arrival [OF t]
    by (auto simp: delivers_def same_config_def told_inbound)
qed

interpretation delivery: loop_invariant n "rest_vtable D" "delivers evs" for n D evs
  by unfold_locales (rule delivers_step)

section \<open>The next turn\<close>

text \<open>
  C26: an accepted request arrives. When an HTTP request is answered with 202, the next turn of the engine,
  which always returns, receives everything that was accepted before and then this request, one that
  the configuration allows, each exactly once and in that order, after what the protocol adapters
  report in the turn; and the channel is empty afterwards.
\<close>

theorem accepted_request_arrives:
  assumes "engine_wf e" and "acyclic (scene_calls (e_scenes e))" and "quiet_dispatch (op_dispatch D)"
    and "e_max_depth e < - 1" and "n = Suc (length (e_scenes e))" and "e_queue e = []"
    and "e_northbound e = [sh]" and "reads_json J"
    and "handle J w dir method path body sh = (sh', r)" and "rsp_status r = 202"
  shows "\<exists>e' i. advance n (rest_vtable D) dt (e\<lparr>e_northbound := [sh']\<rparr>) = Some (Done e') \<and> admitted dir i \<and>
    arrivals (e_trace e') = arrivals (e_trace e) @
      concat (map (\<lambda>a. snd (adapter_tick (rest_vtable D) a (e_now e + dt))) (e_adapters e)) @
      map inbound_event (rs_inbound sh @ [i]) \<and>
    map rs_inbound (e_northbound e') = [[]]"
proof -
  let ?V = "rest_vtable D" and ?e = "e\<lparr>e_northbound := [sh']\<rparr>"
  have "runnable n ?V ?e"
    using assms(1-5) by (simp add: runnable_def rest_vtable_def)
  then obtain e' where run: "advance n ?V dt ?e = Some (Done e')"
    by (rule runnable_advance)
  obtain i where i: "admitted dir i" "sh' = post w i sh"
    using handle_accepted [OF assms(8-10)] by blast
  let ?evs = "arrivals (e_trace e) @
      concat (map (\<lambda>a. snd (adapter_tick ?V a (e_now e + dt))) (e_adapters e)) @
      map inbound_event (rs_inbound sh @ [i])"
  have "delivers ?evs (tick_adapters ?V (?e\<lparr>e_now := e_now ?e + dt\<rparr>))"
    using assms(4,6) i(2)
    by (simp add: delivers_def tick_adapters_def Let_def rest_vtable_def rest_ops_def rest_tick_def post_def comp_def)
  from delivery.drain_I [OF run [unfolded advance_def] this refl]
  show ?thesis
    using run i(1) by (auto simp: delivers_def)
qed

text \<open>The lamp of \<open>lamp_directory\<close> is switched on over the API.\<close>

theorem accepted_request_arrives_witness:
  "\<exists>e' i. advance 1 (rest_vtable virtual_ops) 20 (api_house\<lparr>e_northbound :=
      [fst (handle lamp_document True lamp_directory ''POST'' ''/devices/lamp/intent'' ''on'' rest_channel)]\<rparr>) =
        Some (Done e') \<and> admitted lamp_directory i \<and> arrivals (e_trace e') = [inbound_event i]"
proof -
  let ?h = "handle lamp_document True lamp_directory ''POST'' ''/devices/lamp/intent'' ''on'' rest_channel"
  have accepted: "rsp_status (snd ?h) = 202"
    by code_simp
  have house: "engine_wf api_house" "e_max_depth api_house < - 1" "e_northbound api_house = [rest_channel]"
    "e_scenes api_house = []" "e_queue api_house = []" "e_trace api_house = []" "rs_inbound rest_channel = []"
    "concat (map (\<lambda>a. snd (adapter_tick (rest_vtable virtual_ops) a (e_now api_house + 20))) (e_adapters api_house)) = []"
    by (simp_all add: engine_wf_def api_house_def bind_device_def add_northbound_def add_adapter_def new_engine_def
        rest_channel_def rest_vtable_def virtual_ops_def sched_tick_def sched_due_def default_tick_def Let_def)
  have "acyclic (scene_calls (e_scenes api_house))" and "1 = Suc (length (e_scenes api_house))"
    by (simp_all add: house scene_calls_def acyclic_def)
  from accepted_request_arrives [OF house(1) this(1) virtual_echo.quiet_dispatch_axioms house(2) this(2)
      house(5,3) lamp_document_reads prod.collapse [symmetric, of ?h] accepted, of 20]
  show ?thesis
    by (auto simp: house)
qed

end
