(* ===== verification/Connection.thy ===== *)
theory Connection
  imports Zwave Matter
begin

text \<open>
  The background thread of the two WebSocket adapters over its whole life (\<open>run_connection\<close> of
  \<open>matter.rs\<close> and of \<open>zwavejs.rs\<close>): it connects, greets the server, pumps the socket until it drops,
  and starts again, until the host is gone. What each attempt meets is an argument.
\<close>

section \<open>The thread\<close>

text \<open>
  An attempt: whether the connection is made, the text frame the server sends first (if it does), how
  many writes of the greeting succeed, and what happens to the socket afterwards.
\<close>

record attempt =
  at_connects :: bool
  at_first :: "string option"
  at_greeted :: nat
  at_events :: "ws_event list"

text \<open>The frames of the greeting are told from those of the queue, although both are written alike.\<close>

datatype 'u conn_effect = Greeted string | Pumped "'u ws_effect"

fun run_connection ::
  "(string \<Rightarrow> 'u list) \<Rightarrow> bool \<Rightarrow> (string option \<Rightarrow> string list) \<Rightarrow> attempt list \<Rightarrow> 'u conn_effect list \<times> bool" where
  "run_connection parse w greet [] = ([], False)"
| "run_connection parse w greet (a # as) =
     (if \<not> at_connects a then run_connection parse w greet as
      else
        (let frames = greet (at_first a); hello = map Greeted (take (at_greeted a) frames) in
         if at_greeted a < length frames then apfst ((@) hello) (run_connection parse w greet as)
         else
           (case pump_run parse w (at_events a) of
              (effs, Return, _) \<Rightarrow> (hello @ map Pumped effs, True)
            | (effs, Reconnect, _) \<Rightarrow> apfst ((@) (hello @ map Pumped effs)) (run_connection parse w greet as)
            | (effs, Continue, _) \<Rightarrow> (hello @ map Pumped effs, False))))"

definition matter_connection ::
  "'f json_text \<Rightarrow> bool \<Rightarrow> attempt list \<Rightarrow> 'f attr_report conn_effect list \<times> bool" where
  "matter_connection J w = run_connection (matter_parse_inbound J) w (\<lambda>_. [start_listening J])"

definition zwave_connection ::
  "'f json_text \<Rightarrow> bool \<Rightarrow> attempt list \<Rightarrow> 'f value_update conn_effect list \<times> bool" where
  "zwave_connection J w = run_connection (parse_inbound J) w (handshake J)"

section \<open>What is heard, delivered and written\<close>

text \<open>The events of a connection that it lives to see.\<close>

fun outcome_of :: "ws_event \<Rightarrow> pump_result" where
  "outcome_of (Outgoing _ written) = (if written then Continue else Reconnect)"
| "outcome_of Closed = Reconnect"
| "outcome_of (ReadError _) = Reconnect"
| "outcome_of HostGone = Return"
| "outcome_of _ = Continue"

fun heard :: "ws_event list \<Rightarrow> ws_event list" where
  "heard [] = []"
| "heard (ev # evs) = (if outcome_of ev = Continue then ev # heard evs else [ev])"

text \<open>The connections that were greeted, up to the one in which the host went away or which still lives.\<close>

fun sessions :: "(string option \<Rightarrow> string list) \<Rightarrow> attempt list \<Rightarrow> ws_event list list" where
  "sessions greet [] = []"
| "sessions greet (a # as) =
     (if at_connects a \<and> length (greet (at_first a)) \<le> at_greeted a
      then heard (at_events a) #
        (if \<exists>ev \<in> set (heard (at_events a)). outcome_of ev = Reconnect then sessions greet as else [])
      else sessions greet as)"

definition pumped :: "'u conn_effect list \<Rightarrow> 'u ws_effect list" where
  "pumped effs = List.map_filter (\<lambda>e. case e of Pumped p \<Rightarrow> Some p | _ \<Rightarrow> None) effs"

definition sent :: "'u ws_effect list \<Rightarrow> string list" where
  "sent effs = List.map_filter (\<lambda>e. case e of Written f \<Rightarrow> Some f | _ \<Rightarrow> None) effs"

text \<open>The frames taken from the queue, with the success of their writes.\<close>

definition taken :: "ws_event list \<Rightarrow> (string \<times> bool) list" where
  "taken evs = List.map_filter (\<lambda>ev. case ev of Outgoing f w \<Rightarrow> Some (f, w) | _ \<Rightarrow> None) evs"

lemma pumped_simps [simp]:
  "pumped [] = []" "pumped (effs @ effs') = pumped effs @ pumped effs'"
  "pumped (map Greeted fs) = []" "pumped (map Pumped ps) = ps"
  by (simp_all add: pumped_def List.map_filter_def filter_map comp_def)

lemma sent_simps [simp]:
  "sent [] = []" "sent (Written f # effs) = f # sent effs" "sent (Deliver u # effs) = sent effs"
  "sent (WakeHost # effs) = sent effs" "sent (effs @ effs') = sent effs @ sent effs'"
  by (simp_all add: sent_def List.map_filter_def)

lemma taken_simps [simp]:
  "taken [] = []" "taken (Outgoing f w # evs) = (f, w) # taken evs" "taken (Text t # evs) = taken evs"
  "taken (Closed # evs) = taken evs" "taken (OtherFrame # evs) = taken evs"
  "taken (ReadError e # evs) = taken evs" "taken (HostGone # evs) = taken evs"
  "taken (evs @ evs') = taken evs @ taken evs'"
  by (simp_all add: taken_def List.map_filter_def)

lemma texts_of_simps [simp]:
  "texts_of [] = []" "texts_of (Text t # evs) = t # texts_of evs" "texts_of (Outgoing f w # evs) = texts_of evs"
  "texts_of (Closed # evs) = texts_of evs" "texts_of (OtherFrame # evs) = texts_of evs"
  "texts_of (ReadError e # evs) = texts_of evs" "texts_of (HostGone # evs) = texts_of evs"
  "texts_of (evs @ evs') = texts_of evs @ texts_of evs'"
  by (simp_all add: texts_of_def List.map_filter_def)

lemma sent_updates [simp]:
  "sent (concat (map (\<lambda>u. [Deliver u, WakeHost]) us)) = []" "sent (map Deliver us) = []"
  by (induction us) simp_all

text \<open>One connection.\<close>

lemma pump_run_heard:
  "pump_run parse w evs = (effs, r, rest) \<Longrightarrow>
    delivered effs = concat (map parse (texts_of (heard evs))) \<and>
    sent effs = map fst (filter snd (taken (heard evs))) \<and>
    (r = Reconnect \<longleftrightarrow> (\<exists>ev \<in> set (heard evs). outcome_of ev = Reconnect))"
proof (induction evs arbitrary: effs)
  case (Cons ev evs)
  obtain effs' r' rest' where run: "pump_run parse w evs = (effs', r', rest')"
    by (cases "pump_run parse w evs")
  show ?case
    using Cons.prems Cons.IH [of effs'] delivered_step [of parse w] run
    by (cases ev) (auto simp: pump_step_def split: if_splits)
qed simp

lemma heard_fails_once: "length (filter (\<lambda>(f, w). \<not> w) (taken (heard evs))) \<le> 1"
proof (induction evs)
  case (Cons ev evs)
  then show ?case
    by (cases ev) auto
qed simp

lemma sessions_heard: "es \<in> set (sessions greet as) \<Longrightarrow> \<exists>evs. es = heard evs"
  by (induction greet as rule: sessions.induct) (auto split: if_splits)

lemma connection_run:
  "delivered (pumped (fst (run_connection parse w greet as))) = concat (map parse (texts_of (concat (sessions greet as)))) \<and>
    sent (pumped (fst (run_connection parse w greet as))) = map fst (filter snd (taken (concat (sessions greet as))))"
proof (induction as)
  case (Cons a as)
  obtain ps r rest where run: "pump_run parse w (at_events a) = (ps, r, rest)"
    by (cases "pump_run parse w (at_events a)")
  obtain effs gone where more: "run_connection parse w greet as = (effs, gone)"
    by fastforce
  show ?case
    using Cons.IH pump_run_heard [OF run] more by (cases r) (auto simp: run Let_def)
qed simp

text \<open>
  C24: a connection thread keeps the order and loses what was in its hands. Over any series of attempts,
  every update in a frame that a connection received is delivered, once and in order; the queued
  commands that reach the server are those whose write succeeded, once and in their order; and each
  connection loses at most one command, the one whose write failed.
\<close>

theorem connection_delivers:
  "case run_connection parse w greet as of (effs, gone) \<Rightarrow>
     (let evs = concat (sessions greet as) in
      delivered (pumped effs) = concat (map parse (texts_of evs)) \<and>
      sent (pumped effs) = map fst (filter snd (taken evs)) \<and>
      list_all (\<lambda>evs. length (filter (\<lambda>(f, w). \<not> w) (taken evs)) \<le> 1) (sessions greet as))"
proof -
  have "length (filter (\<lambda>(f, w). \<not> w) (taken evs)) \<le> 1" if "evs \<in> set (sessions greet as)" for evs
    using sessions_heard [OF that] heard_fails_once by blast
  then show ?thesis
    using connection_run [of parse w greet as] by (simp add: case_prod_beta Let_def list_all_iff)
qed

text \<open>
  A command can so be lost for good: the adapter was told that it was queued, its write failed, and after
  the reconnect nothing is left to send.
\<close>

lemma failed_write_loses_command:
  assumes "ws_alive h" and "at_connects a" and "at_events a = [Outgoing (frame (ws_next_id h)) False]"
    and "taken (at_events b) = []"
  shows "snd (ws_send gone frame h) = Inr () \<and> ws_outbound (fst (ws_send gone frame h)) = ws_outbound h @ [frame (ws_next_id h)] \<and>
    sent (pumped (fst (run_connection parse w greet [a, b]))) = []"
proof -
  have none: "taken (heard evs) = []" if "taken evs = []" for evs
    using that by (induction evs) (auto simp: taken_def List.map_filter_def split: if_splits)
  have "filter snd (taken (concat (sessions greet [a, b]))) = []"
    using none [OF assms(4)] assms(3) by auto
  then have "sent (pumped (fst (run_connection parse w greet [a, b]))) = []"
    using connection_run [of parse w greet "[a, b]"] by (simp only: list.map)
  then show ?thesis
    using assms(1) by (auto simp: ws_send_def Let_def simp del: run_connection.simps)
qed

end
