(* ===== verification/Hash_Order.thy ===== *)
theory Hash_Order
  imports Sustained
begin

text \<open>
  The engine keeps five hash maps and its scheduler a sixth, and iterates over three of them; the order
  of an iteration is not specified. Here the engine is shown not to depend on it: engines that differ
  in the order of their maps alone do the same, step for step. (When the engine starts it tells the observers
  the contents of the store in the store's order; a run begins after that.)
\<close>

section \<open>Maps in another order\<close>

definition same_map :: "('k, 'v) hashmap \<Rightarrow> ('k, 'v) hashmap \<Rightarrow> bool" where
  "same_map m m' \<longleftrightarrow> hm_wf m \<and> hm_wf m' \<and> set m = set m'"

lemma same_map_refl: "hm_wf m \<Longrightarrow> same_map m m"
  by (simp add: same_map_def)

lemma same_map_sym: "same_map m m' \<Longrightarrow> same_map m' m"
  by (simp add: same_map_def)

lemma same_map_trans: "same_map m m' \<Longrightarrow> same_map m' m'' \<Longrightarrow> same_map m m''"
  by (simp add: same_map_def)

lemma same_map_get: "same_map m m' \<Longrightarrow> hm_get m = hm_get m'"
  unfolding same_map_def by (intro ext option.expand) (metis hm_get_iff option.exhaust_sel)+

lemma same_map_insert: "same_map m m' \<Longrightarrow> same_map (hm_insert k v m) (hm_insert k v m')"
  by (simp add: same_map_def set_hm_insert)

lemma same_map_remove: "same_map m m' \<Longrightarrow> same_map (hm_remove k m) (hm_remove k m')"
  by (simp add: same_map_def set_hm_remove)

lemma same_map_filter: "same_map m m' \<Longrightarrow> same_map (filter P m) (filter P m')"
  by (simp add: same_map_def hm_wf_filter)

lemma same_map_mset: "same_map m m' \<Longrightarrow> mset m = mset m'"
  unfolding same_map_def by (metis distinct_map set_eq_iff_mset_eq_distinct)

text \<open>What is read from a store does not depend on its order.\<close>

lemma same_store:
  assumes "same_map m m'"
  shows "store_get m = store_get m'" and "bool_value m = bool_value m'" and "num_value m = num_value m'"
    and "switch_is m = switch_is m'"
proof -
  show get: "store_get m = store_get m'"
    by (simp add: fun_eq_iff store_get_def same_map_get [OF assms])
  then show "bool_value m = bool_value m'" and "num_value m = num_value m'"
    by (simp_all add: fun_eq_iff bool_value_def num_value_def)
  then show "switch_is m = switch_is m'"
    by (simp add: fun_eq_iff switch_is_def)
qed

lemma same_resolve: "same_map m m' \<Longrightarrow> resolve_implicit m c = resolve_implicit m' c"
  by (cases c) (simp_all add: same_store)

lemma same_eval: "same_map m m' \<Longrightarrow> cond_eval m c = cond_eval m' c"
  by (rule cond_eval_cong) (simp add: same_store)

lemma same_predicate: "same_map m m' \<Longrightarrow> predicate_holds t m = predicate_holds t m'"
  by (cases t) (simp_all add: same_store)

lemma same_prior: "same_map m m' \<Longrightarrow> prior_state m ev = prior_state m' ev"
  by (cases ev) (simp_all add: same_store)

lemma same_consider: "same_map m m' \<Longrightarrow> consider_rules m ev prior rs = consider_rules m' ev prior rs"
  by (induction rs) (simp_all add: same_eval Let_def)

section \<open>Engines in another order\<close>

definition alike_adapters :: "'x adapter list \<Rightarrow> 'x adapter list \<Rightarrow> bool" where
  "alike_adapters as bs \<longleftrightarrow> (\<exists>s s' ds. as = Scheduler s # ds \<and> bs = Scheduler s' # ds \<and> same_map s s')"

text \<open>
  The pending \<open>for:\<close> timers have keys of their own: each was numbered when it was armed, and the counter
  has passed it. The number \<open>n\<close> bounds how many were armed.
\<close>

definition keys_ok :: "u64 \<Rightarrow> (rule_id, timer_key) hashmap \<Rightarrow> bool" where
  "keys_ok n pend \<longleftrightarrow> inj_on snd (set pend) \<and> (\<forall>k \<in> snd ` set pend. \<exists>c. k = for_key c \<and> c \<le> n)"

definition alike :: "nat \<Rightarrow> ('x, 'n) engine \<Rightarrow> ('x, 'n) engine \<Rightarrow> bool" where
  "alike n e f \<longleftrightarrow>
     e_now e = e_now f \<and> e_queue e = e_queue f \<and> e_rules e = e_rules f \<and> e_northbound e = e_northbound f \<and>
     e_trace e = e_trace f \<and> e_retry e = e_retry f \<and> e_retry_counter e = e_retry_counter f \<and>
     e_for_counter e = e_for_counter f \<and> unat (e_for_counter f) \<le> n \<and> e_max_depth e = e_max_depth f \<and>
     same_map (e_state e) (e_state f) \<and> same_map (e_routes e) (e_routes f) \<and>
     same_map (e_scenes e) (e_scenes f) \<and> same_map (e_retries e) (e_retries f) \<and>
     same_map (e_pending_for e) (e_pending_for f) \<and> keys_ok (e_for_counter f) (e_pending_for e) \<and>
     alike_adapters (e_adapters e) (e_adapters f)"

lemma alike_gets:
  assumes "alike n e f"
  shows "hm_get (e_routes e) = hm_get (e_routes f)" and "hm_get (e_scenes e) = hm_get (e_scenes f)"
    and "hm_get (e_retries e) = hm_get (e_retries f)" and "hm_get (e_pending_for e) = hm_get (e_pending_for f)"
  using assms by (simp_all add: alike_def same_map_get)

lemma alike_sames:
  assumes "alike n e f"
  shows "e_now e = e_now f" "e_queue e = e_queue f" "e_rules e = e_rules f" "e_northbound e = e_northbound f"
    "e_trace e = e_trace f" "e_retry e = e_retry f" "e_retry_counter e = e_retry_counter f"
    "e_for_counter e = e_for_counter f" "e_max_depth e = e_max_depth f" "same_map (e_state e) (e_state f)"
  using assms by (simp_all add: alike_def)

lemma alike_notify: "alike n e f \<Longrightarrow> alike n (notify m e) (notify m f)"
  by (simp add: alike_def notify_def)

lemma alike_enqueue_all: "alike n e f \<Longrightarrow> alike n (enqueue_all evs d e) (enqueue_all evs d f)"
  by (simp add: alike_def enqueue_all_def)

lemma alike_enqueue: "alike n e f \<Longrightarrow> alike n (enqueue ev d e) (enqueue ev d f)"
  by (simp add: alike_def enqueue_def)

lemma alike_give_up: "alike n e f \<Longrightarrow> alike n (give_up c r k d e) (give_up c r k d f)"
  by (simp add: give_up_def alike_enqueue alike_notify)

lemma alike_fan: "alike n e f \<Longrightarrow> alike n (fan_state_folded V d s e) (fan_state_folded V d s f)"
  by (simp add: fan_state_folded_def Let_def alike_def notify_def)

lemma alike_fold_state: "alike n e f \<Longrightarrow> alike n (fold_state V ev e) (fold_state V ev f)"
proof (cases ev)
  case (StateReported d s)
  assume "alike n e f"
  from alike_fan [OF this] show ?thesis
    by (simp add: StateReported Let_def alike_def store_set_def same_map_insert)
qed simp_all

section \<open>Runs in another order\<close>

lemma rel_bind:
  "rel_run R r r' \<Longrightarrow> (\<And>a b. R a b \<Longrightarrow> rel_run S (f a) (g b)) \<Longrightarrow> rel_run S (run_bind r f) (run_bind r' g)"
  by (cases r; cases r') auto

lemma rel_fold:
  "R a b \<Longrightarrow> (\<And>c a b. c \<in> set cs \<Longrightarrow> R a b \<Longrightarrow> rel_run R (f c a) (g c b)) \<Longrightarrow>
    rel_run R (run_fold f cs a) (run_fold g cs b)"
proof (induction cs arbitrary: a b)
  case (Cons c cs)
  have "rel_run R (f c a) (g c b)"
    using Cons.prems by simp
  then show ?case
    by (simp, rule rel_bind) (use Cons in auto)
qed simp

lemma alike_call:
  assumes "alike n e f"
  shows "rel_run (\<lambda>(e, o1) (f, o2). alike n e f \<and> o1 = o2) (call_adapter V i c e) (call_adapter V i c f)"
proof -
  obtain s s' ds where a: "e_adapters e = Scheduler s # ds" "e_adapters f = Scheduler s' # ds" "same_map s s'"
    using assms by (auto simp: alike_def alike_adapters_def)
  have now: "e_now e = e_now f"
    using assms by (simp add: alike_def)
  show ?thesis
  proof (cases i)
    case 0
    have "same_map (fst (sched_dispatch s c t)) (fst (sched_dispatch s' c t)) \<and>
        snd (sched_dispatch s c t) = snd (sched_dispatch s' c t)" for t
      using a(3) by (cases c) (simp_all add: same_map_insert same_map_remove)
    with assms show ?thesis
      by (simp add: call_adapter_def a 0 now case_prod_beta alike_def alike_adapters_def)
  next
    case (Suc j)
    have "alike n (e\<lparr>e_adapters := Scheduler s # ds[j := x]\<rparr>) (f\<lparr>e_adapters := Scheduler s' # ds[j := x]\<rparr>)" for x
      using assms a(3) by (simp add: alike_def) (simp add: alike_adapters_def)
    then show ?thesis
      by (simp add: call_adapter_def a Suc now case_prod_beta)
  qed
qed

lemma alike_scheduler: "alike n e f \<Longrightarrow> rel_run (alike n) (call_scheduler V c e) (call_scheduler V c f)"
  unfolding call_scheduler_def by (rule rel_bind [OF alike_call]) auto

lemma alike_mono: "alike n e f \<Longrightarrow> n \<le> m \<Longrightarrow> alike m e f"
  by (auto simp: alike_def)

section \<open>Dispatching\<close>

lemma alike_schedule_retry:
  assumes "alike n e f"
  shows "rel_run (alike n) (schedule_retry V c k e) (schedule_retry V c k f)"
  unfolding schedule_retry_def Let_def
  using assms by (simp add: alike_sames [OF assms]) (intro alike_scheduler, simp add: alike_def notify_def same_map_insert)

lemma alike_outcome:
  assumes "alike n e f"
  shows "rel_run (alike n) (handle_outcome V out c k d e) (handle_outcome V out c k d f)"
proof (cases out)
  case (Ok evs)
  then show ?thesis
    using assms by (simp add: alike_enqueue_all)
next
  case (Transient why)
  have e: "alike n (notify m e) (notify m f)" for m
    using assms by (rule alike_notify)
  show ?thesis
    using alike_sames(6) [OF assms]
    by (simp add: Transient Let_def alike_schedule_retry [OF e] alike_give_up [OF e])
next
  case (Permanent why)
  with assms show ?thesis
    by (simp add: Let_def alike_notify alike_give_up)
qed

lemma alike_dispatch_scheduler:
  assumes "alike n e f"
  shows "rel_run (alike n) (dispatch_scheduler V c d e) (dispatch_scheduler V c d f)"
  unfolding dispatch_scheduler_def
  by (rule rel_bind [OF alike_call [OF assms]]) (auto split: outcome.split intro: alike_enqueue_all)

lemma alike_dispatch_device:
  assumes "alike n e f"
  shows "rel_run (alike n) (dispatch_device V c k d e) (dispatch_device V c k d f)"
proof (cases "Option.bind (target_device c) (hm_get (e_routes f))")
  case None
  with assms show ?thesis
    by (simp add: dispatch_device_def alike_gets(1) [OF assms] alike_outcome del: handle_outcome.simps)
next
  case (Some i)
  show ?thesis
    by (simp add: dispatch_device_def alike_gets(1) [OF assms] Some)
      (rule rel_bind [OF alike_call [OF assms]], auto simp: alike_outcome)
qed

lemma alike_dispatch:
  "alike m e f \<Longrightarrow> rel_run (alike m) (dispatch_at n V c k d e) (dispatch_at n V c k d f)"
proof (induction n arbitrary: c k e f)
  case (Suc n)
  let ?c = "resolve_implicit (e_state f) c"
  have c: "resolve_implicit (e_state e) c = ?c"
    using alike_sames(10) [OF Suc.prems] by (rule same_resolve)
  have one: "alike m (notify w e) (notify w f)" for w
    using Suc.prems by (rule alike_notify)
  have two: "alike m (notify u (notify w e)) (notify u (notify w f))" for u w
    using one by (rule alike_notify)
  have scene: "rel_run (alike m) (run_fold (\<lambda>c. dispatch_at n V c 1 d) cs e') (run_fold (\<lambda>c. dispatch_at n V c 1 d) cs f')"
    if "alike m e' f'" for cs e' f'
    by (rule rel_fold [where R = "alike m", OF that]) (rule Suc.IH)
  show ?case
    unfolding dispatch_at.simps c Let_def
    by (cases ?c)
      (simp_all add: alike_gets(2) [OF Suc.prems] alike_dispatch_scheduler alike_dispatch_device one two scene
        split: option.split)
qed simp

lemma alike_dispatch_all:
  "alike m e f \<Longrightarrow> rel_run (alike m) (dispatch_all n V cs d e) (dispatch_all n V cs d f)"
  unfolding dispatch_all_def by (rule rel_fold [where R = "alike m"]) (simp_all add: alike_dispatch)

section \<open>The \<open>for:\<close> timers\<close>

lemma for_key_inject: "for_key m = for_key n \<longleftrightarrow> m = n"
  by (simp add: for_key_def word_unat_eq_iff)

lemma keys_ok_subset: "keys_ok n m \<Longrightarrow> set m' \<subseteq> set m \<Longrightarrow> keys_ok n m'"
  unfolding keys_ok_def by (blast intro: inj_on_subset)

lemma keys_ok_insert:
  assumes "keys_ok n m" and "hm_wf m" and "n < n + 1"
  shows "keys_ok (n + 1) (hm_insert i (for_key (n + 1)) m)"
proof -
  have "for_key (n + 1) \<notin> snd ` set m"
    using assms(1,3) unfolding keys_ok_def by (metis for_key_inject not_le)
  moreover have "c \<le> n + 1" if "c \<le> n" for c
    using that assms(3) by simp
  ultimately show ?thesis
    using assms(1) unfolding keys_ok_def set_hm_insert [OF assms(2)]
    by (fastforce simp: inj_on_def image_iff)
qed

lemma alike_forget: "alike n e f \<Longrightarrow>
    alike n (e\<lparr>e_pending_for := hm_remove i (e_pending_for e)\<rparr>)
      (f\<lparr>e_pending_for := hm_remove i (e_pending_for f)\<rparr>)"
  unfolding alike_def by (auto simp: same_map_remove set_hm_remove elim: keys_ok_subset)

lemma armed:
  assumes "alike n e f" and "e_for_counter f < e_for_counter f + 1"
    and "unat (e_for_counter f + 1) = Suc (unat (e_for_counter f))"
  shows "alike (Suc n)
    (e\<lparr>e_for_counter := e_for_counter f + 1,
       e_pending_for := hm_insert i (for_key (e_for_counter f + 1)) (e_pending_for e)\<rparr>)
    (f\<lparr>e_for_counter := e_for_counter f + 1,
       e_pending_for := hm_insert i (for_key (e_for_counter f + 1)) (e_pending_for f)\<rparr>)"
proof -
  have "keys_ok (e_for_counter f) (e_pending_for e)" and "hm_wf (e_pending_for e)"
    using assms(1) by (simp_all add: alike_def same_map_def)
  from keys_ok_insert [OF this assms(2)] show ?thesis
    using assms(1,3) by (simp add: alike_def same_map_insert)
qed

lemma alike_arm:
  assumes "alike n e f" and "n < 2 ^ 64 - 1"
  shows "rel_run (alike (Suc n)) (arm_for_timer V i d e) (arm_for_timer V i d f)"
  unfolding arm_for_timer_def
proof (rule rel_bind)
  show "rel_run (alike n)
      (case hm_get (e_pending_for e) i of
         Some prev \<Rightarrow> call_scheduler V (CancelTimer prev) (e\<lparr>e_pending_for := hm_remove i (e_pending_for e)\<rparr>)
       | None \<Rightarrow> Done e)
      (case hm_get (e_pending_for f) i of
         Some prev \<Rightarrow> call_scheduler V (CancelTimer prev) (f\<lparr>e_pending_for := hm_remove i (e_pending_for f)\<rparr>)
       | None \<Rightarrow> Done f)"
    using assms(1) by (auto simp: alike_gets(4) [OF assms(1)] alike_forget alike_scheduler split: option.split)
next
  fix a b :: "('a, 'b) engine"
  assume ab: "alike n a b"
  let ?c = "e_for_counter b"
  have c: "unat ?c \<le> n" "e_for_counter a = ?c"
    using ab by (simp_all add: alike_def)
  with assms(2) have up: "?c < ?c + 1" "unat (?c + 1) = Suc (unat ?c)"
    by (simp_all add: word_less_nat_alt unat_word_ariths)
  show "rel_run (alike (Suc n))
      (let e = a\<lparr>e_for_counter := e_for_counter a + 1\<rparr>; key = for_key (e_for_counter e);
           e = e\<lparr>e_pending_for := hm_insert i key (e_pending_for e)\<rparr>
       in call_scheduler V (ScheduleTimer key d) e)
      (let e = b\<lparr>e_for_counter := e_for_counter b + 1\<rparr>; key = for_key (e_for_counter e);
           e = e\<lparr>e_pending_for := hm_insert i key (e_pending_for e)\<rparr>
       in call_scheduler V (ScheduleTimer key d) e)"
    using alike_scheduler [OF armed [OF ab up]] by (simp add: c(2) Let_def)
qed

lemma alike_arms:
  "alike n e f \<Longrightarrow> n + length arms < 2 ^ 64 \<Longrightarrow>
    rel_run (alike (n + length arms)) (run_fold (\<lambda>(i, d). arm_for_timer V i d) arms e)
      (run_fold (\<lambda>(i, d). arm_for_timer V i d) arms f)"
proof (induction arms arbitrary: n e f)
  case (Cons a arms)
  obtain i d where a: "a = (i, d)"
    by fastforce
  have "rel_run (alike (Suc n)) (arm_for_timer V i d e) (arm_for_timer V i d f)"
    using Cons.prems by (intro alike_arm) simp_all
  then show ?case
    by (simp add: a, rule rel_bind) (use Cons.IH [of "Suc n"] Cons.prems(2) in simp)
qed simp

text \<open>Cancelling many timers, in closed form: the order of the list does not matter.\<close>

definition keys_of :: "('k, 'v) hashmap \<Rightarrow> 'k set \<Rightarrow> 'v set" where
  "keys_of m S = {v. \<exists>k \<in> S. hm_get m k = Some v}"

lemma keys_of_remove: "hm_get m i = Some v \<Longrightarrow> keys_of m (Set.insert i S) = Set.insert v (keys_of (hm_remove i m) S)"
  unfolding keys_of_def by (intro set_eqI iffI) (clarsimp, metis option.inject, auto split: if_splits)

lemma call_scheduler_cancel:
  "e_adapters e = Scheduler s # ds \<Longrightarrow>
    call_scheduler V (CancelTimer k) e = Done (e\<lparr>e_adapters := Scheduler (hm_remove k s) # ds\<rparr>)"
  by (simp add: call_scheduler_def call_adapter_def)

lemma cancel_fors_closed:
  "e_adapters e = Scheduler s # ds \<Longrightarrow>
    run_fold (cancel_for V) is e = Done (e\<lparr>
      e_pending_for := filter (\<lambda>(i, _). i \<notin> set is) (e_pending_for e),
      e_adapters := Scheduler (filter (\<lambda>(k, _). k \<notin> keys_of (e_pending_for e) (set is)) s) # ds\<rparr>)"
proof (induction "is" arbitrary: e s)
  case Nil
  then show ?case
    by (simp add: keys_of_def case_prod_beta)
next
  case (Cons i js)
  show ?case
  proof (cases "hm_get (e_pending_for e) i")
    case None
    then have "keys_of (e_pending_for e) (Set.insert i (set js)) = keys_of (e_pending_for e) (set js)"
      by (auto simp: keys_of_def)
    moreover have "i \<notin> fst ` set (e_pending_for e)"
      using None by (simp add: map_of_eq_None_iff)
    then have "filter (\<lambda>(j, _). j \<notin> Set.insert i (set js)) (e_pending_for e) =
        filter (\<lambda>(j, _). j \<notin> set js) (e_pending_for e)"
      by (intro filter_cong) force+
    ultimately show ?thesis
      using None Cons.IH [OF Cons.prems] by (simp add: cancel_for_def)
  next
    case (Some k)
    let ?e = "e\<lparr>e_pending_for := hm_remove i (e_pending_for e), e_adapters := Scheduler (hm_remove k s) # ds\<rparr>"
    have "cancel_for V i e = Done ?e"
      using Cons.prems by (simp add: cancel_for_def Some call_scheduler_cancel)
    with Cons.IH [of ?e] show ?thesis
      by (simp add: keys_of_remove [OF Some] AList.delete_eq case_prod_beta conj_commute eq_commute [of k] eq_commute [of i])
  qed
qed

lemma alike_cancel_reverted:
  assumes "alike n e f"
  shows "rel_run (alike n) (cancel_reverted_for_timers V e) (cancel_reverted_for_timers V f)"
proof -
  obtain s s' ds where a: "e_adapters e = Scheduler s # ds" "e_adapters f = Scheduler s' # ds" "same_map s s'"
    using assms by (auto simp: alike_def alike_adapters_def)
  have "set (e_pending_for e) = set (e_pending_for f)"
    using assms by (simp add: alike_def same_map_def)
  moreover have "holds_now (e_state e) = holds_now (e_state f)"
    using same_predicate [OF alike_sames(10) [OF assms]] by (intro ext) (simp add: holds_now_def split: option.split)
  ultimately have r: "set (reverted_rules e) = set (reverted_rules f)"
    by (simp add: reverted_rules_eq alike_sames(3) [OF assms])
  moreover have "keys_of (e_pending_for e) = keys_of (e_pending_for f)"
    by (intro ext) (simp add: keys_of_def alike_gets(4) [OF assms])
  ultimately show ?thesis
    using assms a(3) unfolding cancel_reverted_for_timers_def cancel_fors_closed [OF a(1)] cancel_fors_closed [OF a(2)]
    by (auto simp: alike_def alike_adapters_def same_map_filter elim: keys_ok_subset)
qed

lemma find_unique:
  assumes "set xs = set ys" and "\<And>x y. x \<in> set xs \<Longrightarrow> y \<in> set xs \<Longrightarrow> P x \<Longrightarrow> P y \<Longrightarrow> x = y"
  shows "find P xs = find P ys"
proof (cases "find P xs"; cases "find P ys")
  fix x y
  assume f: "find P xs = Some x" "find P ys = Some y"
  from f have "x \<in> set xs" "P x" "y \<in> set ys" "P y"
    by (auto simp: find_Some_iff)
  with assms f show ?thesis
    by auto
next
  show ?thesis if "find P xs = None" and "find P ys = None"
    using that by simp
qed (use assms(1) in \<open>auto simp: find_None_iff dest!: sym [of _ "Some _"] simp: find_Some_iff\<close>)

lemma alike_fire:
  assumes "alike m e f"
  shows "rel_run (alike m) (fire_elapsed_for n V k e) (fire_elapsed_for n V k f)"
proof -
  have "inj_on snd (set (e_pending_for e))"
    using assms by (simp add: alike_def keys_ok_def)
  moreover have "set (e_pending_for e) = set (e_pending_for f)"
    using assms by (simp add: alike_def same_map_def)
  ultimately have found: "find (\<lambda>(_, k'). k' = k) (e_pending_for e) = find (\<lambda>(_, k'). k' = k) (e_pending_for f)"
    by (intro find_unique) (auto simp only: inj_on_def case_prod_beta)
  show ?thesis
  proof (cases "find (\<lambda>(_, k'). k' = k) (e_pending_for f)")
    case None
    with assms show ?thesis
      by (simp add: fire_elapsed_for_def found)
  next
    case (Some p)
    obtain i j where p: "p = (i, j)"
      by fastforce
    let ?e = "e\<lparr>e_pending_for := hm_remove i (e_pending_for e)\<rparr>" and ?f = "f\<lparr>e_pending_for := hm_remove i (e_pending_for f)\<rparr>"
    have "alike m ?e ?f"
      using assms by (rule alike_forget)
    moreover have "find_rule i ?e = find_rule i ?f"
      by (simp add: find_rule_def alike_sames(3) [OF assms])
    moreover have "predicate_holds t (e_state e) = predicate_holds t (e_state f)" for t
      using same_predicate [OF alike_sames(10) [OF assms]] by simp
    ultimately show ?thesis
      by (cases "find_rule i ?f") (simp_all add: fire_elapsed_for_def found Some p Let_def alike_dispatch_all)
  qed
qed

section \<open>The event loop\<close>

lemma rel_weaken: "rel_run R r r' \<Longrightarrow> (\<And>a b. R a b \<Longrightarrow> S a b) \<Longrightarrow> rel_run S r r'"
  by (cases r; cases r') auto

lemma rel_also: "rel_run R r r' \<Longrightarrow> (\<And>b. r' = Done b \<Longrightarrow> P b) \<Longrightarrow> rel_run (\<lambda>a b. R a b \<and> P b) r r'"
  by (cases r; cases r') auto

lemma alike_notices: "alike n e f \<Longrightarrow> alike n (e\<lparr>e_trace := e_trace e @ ns\<rparr>) (f\<lparr>e_trace := e_trace f @ ns\<rparr>)"
  by (simp add: alike_def)

lemma length_arms: "length (snd (snd (consider_rules m ev prior rs))) \<le> length rs"
  by (induction rs) (simp_all add: Let_def case_prod_beta split: option.split)

lemma alike_after_fold:
  assumes "alike m e f"
  shows "rel_run (\<lambda>a b. alike m a b \<and> e_rules b = e_rules f)
      (case ev of StateReported _ _ \<Rightarrow> cancel_reverted_for_timers V e | _ \<Rightarrow> Done e)
      (case ev of StateReported _ _ \<Rightarrow> cancel_reverted_for_timers V f | _ \<Rightarrow> Done f)"
proof (rule rel_also)
  show "rel_run (alike m)
      (case ev of StateReported _ _ \<Rightarrow> cancel_reverted_for_timers V e | _ \<Rightarrow> Done e)
      (case ev of StateReported _ _ \<Rightarrow> cancel_reverted_for_timers V f | _ \<Rightarrow> Done f)"
    using assms by (cases ev) (simp_all add: alike_cancel_reverted)
next
  fix b
  assume "(case ev of StateReported _ _ \<Rightarrow> cancel_reverted_for_timers V f | _ \<Rightarrow> Done f) = Done b"
  then show "e_rules b = e_rules f"
    by (drule_tac d = 0 in after_fold_frame) (simp add: event_frame_def same_config_def)
qed

lemma alike_respond:
  assumes "alike m a b" and "m + length (e_rules b) < 2 ^ 64"
  shows "rel_run (alike (m + length (e_rules b)))
    (let (ns, cmds, arms) = consider_rules (e_state a) ev prior (e_rules a); e = a\<lparr>e_trace := e_trace a @ ns\<rparr>
     in run_bind (run_fold (\<lambda>(rule, d). arm_for_timer V rule d) arms e) (dispatch_all n V cmds d))
    (let (ns, cmds, arms) = consider_rules (e_state b) ev prior (e_rules b); e = b\<lparr>e_trace := e_trace b @ ns\<rparr>
     in run_bind (run_fold (\<lambda>(rule, d). arm_for_timer V rule d) arms e) (dispatch_all n V cmds d))"
proof -
  obtain ns cmds arms where c: "consider_rules (e_state b) ev prior (e_rules b) = (ns, cmds, arms)"
    by (metis prod_cases3)
  then have ca: "consider_rules (e_state a) ev prior (e_rules a) = (ns, cmds, arms)"
    using same_consider [OF alike_sames(10) [OF assms(1)]] alike_sames(3) [OF assms(1)] by metis
  have len: "length arms \<le> length (e_rules b)"
    using length_arms [of "e_state b" ev prior "e_rules b"] by (simp add: c)
  have "rel_run (alike (m + length arms))
      (run_fold (\<lambda>(rule, d). arm_for_timer V rule d) arms (a\<lparr>e_trace := e_trace a @ ns\<rparr>))
      (run_fold (\<lambda>(rule, d). arm_for_timer V rule d) arms (b\<lparr>e_trace := e_trace b @ ns\<rparr>))"
    using assms len by (intro alike_arms alike_notices) simp_all
  then show ?thesis
    unfolding c ca Let_def prod.case
    by (rule rel_bind) (rule alike_dispatch_all, erule alike_mono, use len in simp)
qed

lemma alike_react:
  assumes "alike m e f" and "m + length (e_rules f) < 2 ^ 64"
  shows "rel_run (alike (m + length (e_rules f))) (react n V ev d e) (react n V ev d f)"
proof -
  have prior: "prior_state (e_state e) ev = prior_state (e_state f) ev"
    using alike_sames(10) [OF assms(1)] by (rule same_prior)
  have rules: "e_rules (fold_state V ev f) = e_rules f"
    by (cases ev) (simp_all add: fan_state_folded_def notify_def Let_def)
  show ?thesis
    unfolding react_def prior Let_def [of "fold_state V ev e"] Let_def [of "fold_state V ev f"]
      Let_def [of "prior_state (e_state f) ev"]
  proof (rule rel_bind [OF alike_after_fold [OF alike_fold_state [OF assms(1)]]], erule conjE)
    fix a b :: "('a, 'b) engine"
    assume ab: "alike m a b" and "e_rules b = e_rules (fold_state V ev f)"
    then have b: "e_rules b = e_rules f"
      by (simp add: rules)
    show "rel_run (alike (m + length (e_rules f)))
        (let (ns, cmds, arms) = consider_rules (e_state a) ev (prior_state (e_state f) ev) (e_rules a);
             e = a\<lparr>e_trace := e_trace a @ ns\<rparr>
         in run_bind (run_fold (\<lambda>(rule, d). arm_for_timer V rule d) arms e) (dispatch_all n V cmds d))
        (let (ns, cmds, arms) = consider_rules (e_state b) ev (prior_state (e_state f) ev) (e_rules b);
             e = b\<lparr>e_trace := e_trace b @ ns\<rparr>
         in run_bind (run_fold (\<lambda>(rule, d). arm_for_timer V rule d) arms e) (dispatch_all n V cmds d))"
      using alike_respond [OF ab] assms(2) unfolding b by blast
  qed
qed

lemma alike_request:
  assumes "alike m e f"
  shows "rel_run (alike m) (request_change n V dv des d e) (request_change n V dv des d f)"
  unfolding request_change_def
proof (rule rel_bind)
  show "rel_run (alike m)
      (case command_for_requested_change dv des of Some cmd \<Rightarrow> dispatch_at n V cmd 1 d e | None \<Rightarrow> Done e)
      (case command_for_requested_change dv des of Some cmd \<Rightarrow> dispatch_at n V cmd 1 d f | None \<Rightarrow> Done f)"
    using assms by (auto split: option.split intro: alike_dispatch)
  show "rel_run (alike m)
      (Done (case store_get (e_state a) dv (desired_kind des) of Some s \<Rightarrow> fan_state_folded V dv s a | None \<Rightarrow> a))
      (Done (case store_get (e_state b) dv (desired_kind des) of Some s \<Rightarrow> fan_state_folded V dv s b | None \<Rightarrow> b))"
    if "alike m a b" for a b
    using that by (auto simp: same_store(1) [OF alike_sames(10) [OF that]] split: option.split intro: alike_fan)
qed

lemma alike_retried: "alike n e f \<Longrightarrow>
    alike n (e\<lparr>e_retries := hm_remove i (e_retries e)\<rparr>) (f\<lparr>e_retries := hm_remove i (e_retries f)\<rparr>)"
  by (simp add: alike_def same_map_remove)

lemma alike_process:
  assumes "alike m e f" and "m + length (e_rules f) < 2 ^ 64"
  shows "rel_run (alike (m + length (e_rules f))) (process_event n V ev d e) (process_event n V ev d f)"
proof -
  let ?m = "m + length (e_rules f)"
  let ?e = "notify (EventReceived ev d) e" and ?f = "notify (EventReceived ev d) f"
  have alike: "alike m ?e ?f"
    using assms(1) by (rule alike_notify)
  have up: "rel_run (alike m) r r' \<Longrightarrow> rel_run (alike ?m) r r'" for r r' :: "('a, 'b) engine run"
    by (erule rel_weaken) (simp add: alike_mono)
  have react: "rel_run (alike ?m) (react n V ev d ?e) (react n V ev d ?f)"
    using alike_react [OF alike] assms(2) by (simp add: notify_def)
  show ?thesis
  proof (cases "d > e_max_depth f")
    case True
    then show ?thesis
      using assms(1) by (simp add: process_event_def alike_sames(9) [OF assms(1)] alike_notify alike_mono [of m])
  next
    case False
    then show ?thesis
      using react up [OF alike_request [OF alike]] up [OF alike_dispatch [OF alike]] up [OF alike_fire [OF alike]]
        up [OF alike_dispatch [OF alike_retried [OF alike]]]
      by (cases ev)
        (auto simp: process_event_def alike_sames(9) [OF assms(1)] alike_gets(3) [OF assms(1)]
          alike_gets(3) [OF alike] Let_def split: option.split)
  qed
qed

lemma alike_tick:
  assumes "alike m e f"
  shows "alike m (tick_adapters V e) (tick_adapters V f)"
proof -
  obtain s s' ds where a: "e_adapters e = Scheduler s # ds" "e_adapters f = Scheduler s' # ds" "same_map s s'"
    using assms by (auto simp: alike_def alike_adapters_def)
  have ticks: "snd (sched_tick s t) = snd (sched_tick s' t)" "same_map (fst (sched_tick s t)) (fst (sched_tick s' t))" for t
    using sched_tick_hash_order [OF same_map_mset [OF a(3)], of t] a(3)
    by (auto simp: same_map_def sched_tick_wf dest: mset_eq_setD)
  show ?thesis
    using assms
    by (simp add: tick_adapters_def Let_def a alike_def enqueue_all_def alike_adapters_def ticks)
qed

lemma min_opt_set: "set xs = set ys \<Longrightarrow> min_opt xs = min_opt (ys :: 'a :: linorder list)"
  by (intro option.expand) (metis min_opt_Some_iff option.exhaust_sel)+

lemma alike_next_wake:
  assumes "alike m e f"
  shows "next_wake_delay V e = next_wake_delay V f"
proof -
  obtain s s' ds where a: "e_adapters e = Scheduler s # ds" "e_adapters f = Scheduler s' # ds" "same_map s s'"
    using assms by (auto simp: alike_def alike_adapters_def)
  then have "min_opt (map snd s) = min_opt (map snd s')"
    by (intro min_opt_set) (simp add: same_map_def)
  then have "sched_next_wake s = sched_next_wake s'"
    by (intro ext) (simp add: sched_next_wake_def)
  then show ?thesis
    by (simp add: next_wake_delay_def a alike_sames(1,4) [OF assms] List.map_filter_def)
qed

section \<open>Shuffled runs\<close>

text \<open>
  The engine's inputs one at a time: an iteration of the loop of \<open>drain\<close>, what \<open>advance\<close> does before the
  loop and what \<open>inject\<close> does before it.
\<close>

datatype act = Iterate | Elapse millis | Arrive event

fun act_on :: "nat \<Rightarrow> ('x, 'n) vtable \<Rightarrow> act \<Rightarrow> ('x, 'n) engine \<Rightarrow> ('x, 'n) engine run" where
  "act_on n V Iterate e =
     (case e_queue e of [] \<Rightarrow> Done e | (ev, depth) # q \<Rightarrow> process_event n V ev depth (e\<lparr>e_queue := q\<rparr>))"
| "act_on n V (Elapse dt) e = Done (tick_adapters V (e\<lparr>e_now := e_now e + dt\<rparr>))"
| "act_on n V (Arrive ev) e = Done (enqueue ev 0 e)"

fun reordered_adapters :: "'x adapter list \<Rightarrow> 'x adapter list \<Rightarrow> bool" where
  "reordered_adapters (Scheduler s # as) (Scheduler s' # bs) \<longleftrightarrow> mset s = mset s' \<and> as = bs"
| "reordered_adapters as bs \<longleftrightarrow> as = bs"

text \<open>The same engine with its six hash maps in another order.\<close>

definition reordered :: "('x, 'n) engine \<Rightarrow> ('x, 'n) engine \<Rightarrow> bool" where
  "reordered e f \<longleftrightarrow>
     e = f\<lparr>e_state := e_state e, e_routes := e_routes e, e_scenes := e_scenes e, e_retries := e_retries e,
           e_pending_for := e_pending_for e, e_adapters := e_adapters e\<rparr> \<and>
     mset (e_state e) = mset (e_state f) \<and> mset (e_routes e) = mset (e_routes f) \<and>
     mset (e_scenes e) = mset (e_scenes f) \<and> mset (e_retries e) = mset (e_retries f) \<and>
     mset (e_pending_for e) = mset (e_pending_for f) \<and>
     reordered_adapters (e_adapters e) (e_adapters f)"

text \<open>A run whose maps are put in another order before every act, as \<open>\<sigma>\<close> says.\<close>

fun shuffled_run ::
  "nat \<Rightarrow> ('x, 'n) vtable \<Rightarrow> (nat \<Rightarrow> ('x, 'n) engine \<Rightarrow> ('x, 'n) engine) \<Rightarrow> act list \<Rightarrow> ('x, 'n) engine \<Rightarrow>
    ('x, 'n) engine run" where
  "shuffled_run n V \<sigma> [] e = Done e"
| "shuffled_run n V \<sigma> (a # as) e = run_bind (act_on n V a (\<sigma> (length as) e)) (shuffled_run n V \<sigma> as)"

lemma same_map_mset_trans: "mset k = mset m \<Longrightarrow> same_map m m' \<Longrightarrow> same_map k m'"
  unfolding same_map_def by (metis mset_eq_imp_distinct_iff mset_eq_setD mset_map)

lemma alike_reordered:
  assumes "reordered e' e" and "alike n e f"
  shows "alike n e' f"
proof -
  obtain s s' ds where a: "e_adapters e = Scheduler s # ds" "e_adapters f = Scheduler s' # ds" "same_map s s'"
    using assms(2) by (auto simp: alike_def alike_adapters_def)
  have "reordered_adapters (e_adapters e') (Scheduler s # ds)"
    using assms(1) by (simp add: reordered_def a)
  then obtain s'' where s: "e_adapters e' = Scheduler s'' # ds" "mset s'' = mset s"
    by (cases "(e_adapters e', Scheduler s # ds)" rule: reordered_adapters.cases) auto
  have "set (e_pending_for e') = set (e_pending_for e)"
    using assms(1) by (auto simp: reordered_def dest: mset_eq_setD)
  then have "keys_ok (e_for_counter f) (e_pending_for e')"
    using assms(2) by (auto simp: alike_def elim: keys_ok_subset)
  moreover obtain m r sc rt p as where e': "e' = e\<lparr>e_state := m, e_routes := r, e_scenes := sc, e_retries := rt,
      e_pending_for := p, e_adapters := as\<rparr>"
    using assms(1) unfolding reordered_def by blast
  ultimately show ?thesis
    using assms s a unfolding reordered_def e'
    by (simp add: alike_def alike_adapters_def same_map_mset_trans)
qed

lemma process_event_rules:
  assumes "process_event n V ev d e = Done g"
  shows "e_rules g = e_rules e"
proof (cases "d \<le> e_max_depth e")
  case True
  from process_event_step [OF assms this] show ?thesis
    by (simp add: event_step_def same_config_def)
next
  case False
  with assms show ?thesis
    by (auto simp: process_event_def not_le notify_def)
qed

lemma act_on_rules: "act_on n V a e = Done g \<Longrightarrow> e_rules g = e_rules e"
  by (cases a)
    (auto simp: tick_adapters_def enqueue_all_def enqueue_def Let_def dest!: process_event_rules split: list.splits prod.splits)

lemma alike_act:
  assumes "alike m e f" and "m + length (e_rules f) < 2 ^ 64"
  shows "rel_run (alike (m + length (e_rules f))) (act_on n V a e) (act_on n V a f)"
proof (cases a)
  case Iterate
  have pop: "alike m (e\<lparr>e_queue := q\<rparr>) (f\<lparr>e_queue := q\<rparr>)" for q
    using assms(1) by (simp add: alike_def)
  have "rel_run (alike (m + length (e_rules f))) (process_event n V ev d (e\<lparr>e_queue := q\<rparr>))
      (process_event n V ev d (f\<lparr>e_queue := q\<rparr>))" for ev d q
    using alike_process [OF pop] assms(2) by simp
  then show ?thesis
    using assms(1)
    by (auto simp: Iterate alike_sames(2) [OF assms(1)] alike_mono split: list.split)
next
  case (Elapse dt)
  have "alike m (e\<lparr>e_now := e_now e + dt\<rparr>) (f\<lparr>e_now := e_now f + dt\<rparr>)"
    using assms(1) by (simp add: alike_def)
  then show ?thesis
    by (simp add: Elapse alike_mono [OF alike_tick])
next
  case (Arrive ev)
  with assms(1) show ?thesis
    by (simp add: alike_mono [OF alike_enqueue])
qed

lemma shuffled_alike:
  assumes "\<And>k f. reordered (\<sigma> k f) f"
  shows "alike m e f \<Longrightarrow> m + length as * length (e_rules f) < 2 ^ 64 \<Longrightarrow>
    rel_run (alike (m + length as * length (e_rules f))) (shuffled_run n V \<sigma> as e) (run_fold (act_on n V) as f)"
proof (induction as arbitrary: m e f)
  case (Cons a as)
  have "rel_run (alike (m + length (e_rules f))) (act_on n V a (\<sigma> (length as) e)) (act_on n V a f)"
    using Cons.prems by (intro alike_act alike_reordered [OF assms]) simp_all
  then have "rel_run (\<lambda>e' f'. alike (m + length (e_rules f)) e' f' \<and> e_rules f' = e_rules f)
      (act_on n V a (\<sigma> (length as) e)) (act_on n V a f)"
    by (rule rel_also) (rule act_on_rules)
  then show ?case
    unfolding shuffled_run.simps run_fold.simps
    by (rule rel_bind) (use Cons.IH [of "m + length (e_rules f)"] Cons.prems(2) in \<open>fastforce simp: add.assoc\<close>)
qed simp

lemma alike_refl:
  assumes "engine_wf e" and "e_pending_for e = []" and "e_for_counter e = 0"
  shows "alike 0 e e"
  using assms
  by (auto simp: engine_wf_def alike_def same_map_refl store_wf_def keys_ok_def alike_adapters_def elim!: adapters_wf_cases)

text \<open>
  C17: the order of the hash maps does not matter. Whatever order the six maps of an engine are in, and
  however it changes between two steps, the engine told of the same events and the same times returns
  or panics alike, and then with the same notices, the same queue, the same adapters and observers, the same
  delay before its next wake and the same readings.
\<close>

theorem hash_order_irrelevant:
  assumes "engine_wf e" and "e_pending_for e = []" and "e_for_counter e = 0"
    and "length acts * length (e_rules e) < 2 ^ 64"
    and "\<And>k f. reordered (\<sigma> k f) f"
  shows "rel_run (\<lambda>a b. e_trace a = e_trace b \<and> e_queue a = e_queue b \<and> e_northbound a = e_northbound b \<and>
      tl (e_adapters a) = tl (e_adapters b) \<and> next_wake_delay V a = next_wake_delay V b \<and>
      store_get (e_state a) = store_get (e_state b))
    (shuffled_run n V \<sigma> acts e) (run_fold (act_on n V) acts e)"
proof (rule rel_weaken)
  show "rel_run (alike (0 + length acts * length (e_rules e))) (shuffled_run n V \<sigma> acts e) (run_fold (act_on n V) acts e)"
    by (rule shuffled_alike [OF assms(5) alike_refl [OF assms(1-3)]]) (use assms(4) in simp)
next
  fix a b :: "('a, 'b) engine"
  assume ab: "alike (0 + length acts * length (e_rules e)) a b"
  then have "tl (e_adapters a) = tl (e_adapters b)"
    by (auto simp: alike_def alike_adapters_def)
  with alike_sames [OF ab] alike_next_wake [OF ab] same_store(1) [OF alike_sames(10) [OF ab]]
  show "e_trace a = e_trace b \<and> e_queue a = e_queue b \<and> e_northbound a = e_northbound b \<and>
      tl (e_adapters a) = tl (e_adapters b) \<and> next_wake_delay V a = next_wake_delay V b \<and>
      store_get (e_state a) = store_get (e_state b)"
    by simp
qed

text \<open>A house with its maps turned round before every step.\<close>

definition turned :: "('x, 'n) engine \<Rightarrow> ('x, 'n) engine" where
  "turned e = e\<lparr>e_state := rev (e_state e), e_routes := rev (e_routes e), e_scenes := rev (e_scenes e),
     e_retries := rev (e_retries e), e_pending_for := rev (e_pending_for e),
     e_adapters := (case e_adapters e of Scheduler s # ds \<Rightarrow> Scheduler (rev s) # ds | as \<Rightarrow> as)\<rparr>"

lemma turned_reordered: "reordered (turned e) e"
  by (cases "e_adapters e") (auto simp: reordered_def turned_def split: adapter.split)

theorem hash_order_irrelevant_witness:
  "rel_run (\<lambda>a b. e_trace a = e_trace b)
     (shuffled_run 1 virtual_house (\<lambda>_. turned)
       [Arrive (StateReported (DeviceId 1) (Occupancy True)), Iterate, Elapse 5000, Iterate] small_house)
     (run_fold (act_on 1 virtual_house)
       [Arrive (StateReported (DeviceId 1) (Occupancy True)), Iterate, Elapse 5000, Iterate] small_house)"
  by (rule rel_weaken [OF hash_order_irrelevant])
    (simp_all add: small_house_wf small_house_rules turned_reordered, simp_all add: small_house_def add_rule_def
      bind_device_def add_northbound_def add_adapter_def new_engine_def)

end
