(* ===== verification/Stderr_Log.thy ===== *)
theory Stderr_Log
  imports Rest_Api
begin

text \<open>
  The log on the standard error stream (\<open>StderrObserver\<close> of \<open>observe.rs\<close>): the line it prints for each
  of the engine's callbacks, with the derived \<open>Debug\<close> forms of commands, events and states. How a
  string literal is escaped is the parameter \<open>esc\<close>.
\<close>

section \<open>Debug forms\<close>

definition dbg_tuple :: "string \<Rightarrow> string list \<Rightarrow> string" where
  "dbg_tuple name args = name @ ''('' @ join_with '', '' args @ '')''"

definition dbg_struct :: "string \<Rightarrow> (string \<times> string) list \<Rightarrow> string" where
  "dbg_struct name fvs =
     name @ '' { '' @ join_with '', '' (map (\<lambda>(f, v). f @ '': '' @ v) fvs) @ '' }''"

definition dbg_bool :: "bool \<Rightarrow> string" where
  "dbg_bool b = (if b then ''true'' else ''false'')"

definition dbg_word :: "'a::len word \<Rightarrow> string" where
  "dbg_word w = decimal (unat w)"

definition dbg_option :: "('a \<Rightarrow> string) \<Rightarrow> 'a option \<Rightarrow> string" where
  "dbg_option f x = (case x of Some v \<Rightarrow> dbg_tuple ''Some'' [f v] | None \<Rightarrow> ''None'')"

definition dbg_device :: "device_id \<Rightarrow> string" where
  "dbg_device d = dbg_tuple ''DeviceId'' [dbg_word (device_num d)]"

definition dbg_rule :: "rule_id \<Rightarrow> string" where
  "dbg_rule r = dbg_tuple ''RuleId'' [dbg_word (rule_num r)]"

definition dbg_scene :: "scene_id \<Rightarrow> string" where
  "dbg_scene s = dbg_tuple ''SceneId'' [dbg_word (scene_num s)]"

definition dbg_timer :: "(string \<Rightarrow> string) \<Rightarrow> timer_key \<Rightarrow> string" where
  "dbg_timer esc k = dbg_tuple ''TimerKey'' [esc (timer_name k)]"

fun dbg_state :: "capability_state \<Rightarrow> string" where
  "dbg_state (Switch b) = dbg_tuple ''Switch'' [dbg_bool b]"
| "dbg_state (Brightness v) = dbg_tuple ''Brightness'' [dbg_word v]"
| "dbg_state (Color r g b) = dbg_struct ''Color'' [(''r'', dbg_word r), (''g'', dbg_word g), (''b'', dbg_word b)]"
| "dbg_state (ColorTemperature v) = dbg_tuple ''ColorTemperature'' [dbg_word v]"
| "dbg_state (Occupancy b) = dbg_tuple ''Occupancy'' [dbg_bool b]"
| "dbg_state (Battery v) = dbg_tuple ''Battery'' [dbg_word v]"
| "dbg_state (Temperature v) = dbg_tuple ''Temperature'' [show_int (sint v)]"
| "dbg_state (Humidity v) = dbg_tuple ''Humidity'' [dbg_word v]"
| "dbg_state (Illuminance v) = dbg_tuple ''Illuminance'' [dbg_word v]"
| "dbg_state (Power v) = dbg_tuple ''Power'' [dbg_word v]"
| "dbg_state (Contact b) = dbg_tuple ''Contact'' [dbg_bool b]"
| "dbg_state (WaterLeak b) = dbg_tuple ''WaterLeak'' [dbg_bool b]"
| "dbg_state (Smoke b) = dbg_tuple ''Smoke'' [dbg_bool b]"
| "dbg_state (TimeOfDay v) = dbg_tuple ''TimeOfDay'' [dbg_word v]"
| "dbg_state (SunUp b) = dbg_tuple ''SunUp'' [dbg_bool b]"

fun dbg_desired :: "(string \<Rightarrow> string) \<Rightarrow> desired \<Rightarrow> string" where
  "dbg_desired esc (SetTo s) = dbg_tuple ''Set'' [dbg_state s]"
| "dbg_desired esc Toggle = ''Toggle''"
| "dbg_desired esc (AdjustBrightness n) = dbg_tuple ''AdjustBrightness'' [show_int (sint n)]"
| "dbg_desired esc (SendIr code) = dbg_tuple ''SendIr'' [esc code]"

fun dbg_command :: "(string \<Rightarrow> string) \<Rightarrow> command \<Rightarrow> string" where
  "dbg_command esc (SetSwitch d on) = dbg_struct ''SetSwitch'' [(''device'', dbg_device d), (''on'', dbg_bool on)]"
| "dbg_command esc (ToggleSwitch d) = dbg_struct ''ToggleSwitch'' [(''device'', dbg_device d)]"
| "dbg_command esc (SetBrightness d v tr) =
     dbg_struct ''SetBrightness'' [(''device'', dbg_device d), (''value'', dbg_word v),
       (''transition'', dbg_option dbg_word tr)]"
| "dbg_command esc (DecreaseBrightness d v) =
     dbg_struct ''DecreaseBrightness'' [(''device'', dbg_device d), (''value'', dbg_word v)]"
| "dbg_command esc (IncreaseBrightness d v) =
     dbg_struct ''IncreaseBrightness'' [(''device'', dbg_device d), (''value'', dbg_word v)]"
| "dbg_command esc (SetColor d r g b tr) =
     dbg_struct ''SetColor'' [(''device'', dbg_device d), (''r'', dbg_word r), (''g'', dbg_word g),
       (''b'', dbg_word b), (''transition'', dbg_option dbg_word tr)]"
| "dbg_command esc (SetColorTemperature d m tr) =
     dbg_struct ''SetColorTemperature'' [(''device'', dbg_device d), (''mireds'', dbg_word m),
       (''transition'', dbg_option dbg_word tr)]"
| "dbg_command esc (ActivateScene s) = dbg_struct ''ActivateScene'' [(''scene'', dbg_scene s)]"
| "dbg_command esc (ScheduleTimer k after) =
     dbg_struct ''ScheduleTimer'' [(''key'', dbg_timer esc k), (''after'', dbg_word after)]"
| "dbg_command esc (CancelTimer k) = dbg_struct ''CancelTimer'' [(''key'', dbg_timer esc k)]"
| "dbg_command esc (SendIrCode d code) =
     dbg_struct ''SendIrCode'' [(''device'', dbg_device d), (''code'', esc code)]"

fun dbg_event :: "(string \<Rightarrow> string) \<Rightarrow> event \<Rightarrow> string" where
  "dbg_event esc (Action d a) =
     dbg_struct ''Action'' [(''device'', dbg_device d), (''action'', dbg_tuple ''ActionId'' [dbg_word (action_num a)])]"
| "dbg_event esc (StateReported d s) =
     dbg_struct ''StateReported'' [(''device'', dbg_device d), (''state'', dbg_state s)]"
| "dbg_event esc (RequestedChange d des) =
     dbg_struct ''RequestedChange'' [(''device'', dbg_device d), (''desired'', dbg_desired esc des)]"
| "dbg_event esc (RequestedScene s) = dbg_struct ''RequestedScene'' [(''scene'', dbg_scene s)]"
| "dbg_event esc (TimeReached s) =
     dbg_struct ''TimeReached'' [(''schedule'', dbg_tuple ''ScheduleId'' [dbg_word (schedule_num s)])]"
| "dbg_event esc (TimerElapsed k) = dbg_struct ''TimerElapsed'' [(''key'', dbg_timer esc k)]"
| "dbg_event esc (CommandFailed c reason n) =
     dbg_struct ''CommandFailed'' [(''command'', dbg_command esc c), (''reason'', esc reason),
       (''attempts'', dbg_word n)]"

fun dbg_truth :: "truth \<Rightarrow> string" where
  "dbg_truth True3 = ''True''"
| "dbg_truth False3 = ''False''"
| "dbg_truth Unknown3 = ''Unknown''"

section \<open>The observer\<close>

record stderr_observer =
  so_verbose :: bool
  so_device_names :: "(device_id, string) hashmap"
  so_rule_names :: "(rule_id, string) hashmap"
  so_scene_names :: "(scene_id, string) hashmap"

definition stderr_new :: stderr_observer where
  "stderr_new = \<lparr>so_verbose = False, so_device_names = [], so_rule_names = [], so_scene_names = []\<rparr>"

definition stderr_verbose :: stderr_observer where
  "stderr_verbose = stderr_new\<lparr>so_verbose := True\<rparr>"

definition with_names ::
  "(device_id \<times> string) list \<Rightarrow> (rule_id \<times> string) list \<Rightarrow> (scene_id \<times> string) list \<Rightarrow>
   stderr_observer \<Rightarrow> stderr_observer" where
  "with_names ds rs ss o' =
     o'\<lparr>so_device_names := collect_map ds, so_rule_names := collect_map rs, so_scene_names := collect_map ss\<rparr>"

definition so_device :: "stderr_observer \<Rightarrow> device_id \<Rightarrow> string" where
  "so_device o' d = (case hm_get (so_device_names o') d of Some n \<Rightarrow> n | None \<Rightarrow> dbg_device d)"

definition so_rule :: "stderr_observer \<Rightarrow> rule_id \<Rightarrow> string" where
  "so_rule o' r = (case hm_get (so_rule_names o') r of Some n \<Rightarrow> n | None \<Rightarrow> dbg_rule r)"

definition so_scene :: "stderr_observer \<Rightarrow> scene_id \<Rightarrow> string" where
  "so_scene o' s = (case hm_get (so_scene_names o') s of Some n \<Rightarrow> n | None \<Rightarrow> dbg_scene s)"

text \<open>The stamp of a line, from the milliseconds since the observer was made.\<close>

definition pad_left :: "nat \<Rightarrow> char \<Rightarrow> string \<Rightarrow> string" where
  "pad_left n c s = replicate (n - length s) c @ s"

definition stamp :: "nat \<Rightarrow> string" where
  "stamp ms =
     ''['' @ pad_left 4 CHR '' '' (decimal (ms div 1000)) @ ''.'' @ pad_left 3 CHR ''0'' (decimal (ms mod 1000)) @ ''] ''"

definition em_dash :: string where
  "em_dash = utf8_bytes [226, 128, 148]"

fun failure_line :: "(string \<Rightarrow> string) \<Rightarrow> notice \<Rightarrow> string option" where
  "failure_line esc (DispatchFailed c reason transient attempt) =
     Some (''[domiform] dispatch failed ('' @ (if transient then ''transient'' else ''permanent'') @ '', attempt '' @
       dbg_word attempt @ ''): '' @ dbg_command esc c @ '' '' @ em_dash @ '' '' @ reason)"
| "failure_line esc (RetryScheduled c attempt delay) =
     Some (''[domiform] scheduling attempt '' @ dbg_word attempt @ '' for '' @ dbg_command esc c @ '' in '' @
       dbg_word delay @ ''ms'')"
| "failure_line esc (GaveUp c reason attempts) =
     Some (''[domiform] COMMAND FAILED after '' @ dbg_word attempts @ '' attempt(s): '' @ dbg_command esc c @
       '' '' @ em_dash @ '' '' @ reason)"
| "failure_line esc (CascadeDropped ev depth) =
     Some (''[domiform] CASCADE ABORTED at depth '' @ dbg_word depth @ '', dropping '' @ dbg_event esc ev @
       '' (likely a config cycle)'')"
| "failure_line esc _ = None"

fun trace_line :: "(string \<Rightarrow> string) \<Rightarrow> stderr_observer \<Rightarrow> notice \<Rightarrow> string option" where
  "trace_line esc o' (EventReceived ev depth) =
     Some (''[v] event  @'' @ dbg_word depth @ ''  '' @ dbg_event esc ev)"
| "trace_line esc o' (StateFolded d s) = Some (''[v]   state  '' @ so_device o' d @ '' := '' @ dbg_state s)"
| "trace_line esc o' (RuleConsidered r truth fired) =
     Some (''[v]   rule '' @ quoted (so_rule o' r) @
       (if fired then '': trigger matched, condition True -> FIRING''
        else if truth = Unknown3
        then '': trigger matched, but condition is UNKNOWN (a capability it reads has never been reported) -> not firing''
        else '': trigger matched, condition '' @ dbg_truth truth @ '' -> not firing''))"
| "trace_line esc o' (CommandDispatched c depth) =
     Some (''[v]   dispatch @'' @ dbg_word depth @ ''  '' @ dbg_command esc c)"
| "trace_line esc o' (SceneExpanded s n) =
     Some (''[v]   scene '' @ quoted (so_scene o' s) @ '' -> '' @ decimal n @ '' command(s)'')"
| "trace_line esc o' _ = None"

definition stderr_line :: "(string \<Rightarrow> string) \<Rightarrow> stderr_observer \<Rightarrow> nat \<Rightarrow> notice \<Rightarrow> string option" where
  "stderr_line esc o' ms m =
     map_option (\<lambda>l. stamp ms @ l)
       (case failure_line esc m of
          Some l \<Rightarrow> Some l
        | None \<Rightarrow> if so_verbose o' then trace_line esc o' m else None)"

section \<open>Nothing goes unlogged\<close>

fun is_failure :: "notice \<Rightarrow> bool" where
  "is_failure (DispatchFailed _ _ _ _) = True"
| "is_failure (RetryScheduled _ _ _) = True"
| "is_failure (GaveUp _ _ _) = True"
| "is_failure (CascadeDropped _ _) = True"
| "is_failure _ = False"

text \<open>Failures are always printed, and with the verbose flag every callback is.\<close>

lemma stderr_line_Some: "stderr_line esc o' ms m \<noteq> None \<longleftrightarrow> is_failure m \<or> so_verbose o'"
  by (cases m) (auto simp: stderr_line_def)

end
