(* ===== verification/Registry.thy ===== *)
theory Registry
  imports Zigbee_Props Matter_Props Zwave_Props Build_Props Rest_Api
begin

text \<open>
  The adapters of the program as it is linked: what \<open>Box<dyn Adapter>\<close> and \<open>Box<dyn NorthboundAdapter>\<close>
  can hold (\<open>adapters/mod.rs\<close>), how a call reaches the adapter in the box, and the registry \<open>PLUGINS\<close>
  with the three protocols in it. The MQTT client is a parameter; the two WebSocket adapters use the
  handles of their background threads.
\<close>

section \<open>The boxes\<close>

datatype ('t, 'f) protocol_adapter =
  Zigbee2Mqtt "'t z2m"
| MatterNodes "'f attr_report ws_handle matter"
| ZwaveNodes "'f value_update ws_handle zwave"
| MockDevices unit
| VirtualDevices unit

datatype northbound_adapter = MockNb mock_northbound | Api rest_shared

definition protocol_ops ::
  "'f floats \<Rightarrow> 'g floats \<Rightarrow> 'f json_text \<Rightarrow> 't mqtt_transport \<Rightarrow> ('t, 'f) protocol_adapter adapter_ops" where
  "protocol_ops F G J M =
     \<lparr>op_dispatch = (\<lambda>a cmd now.
        case a of
          Zigbee2Mqtt x \<Rightarrow> apfst Zigbee2Mqtt (op_dispatch (z2m_ops F J M) x cmd now)
        | MatterNodes x \<Rightarrow> apfst MatterNodes (op_dispatch (matter_ops G (matter_server_ws J)) x cmd now)
        | ZwaveNodes x \<Rightarrow> apfst ZwaveNodes (op_dispatch (zwave_ops (zwave_server_ws J)) x cmd now)
        | MockDevices x \<Rightarrow> apfst MockDevices (op_dispatch mock_ops x cmd now)
        | VirtualDevices x \<Rightarrow> apfst VirtualDevices (op_dispatch virtual_ops x cmd now)),
      op_tick = (\<lambda>a now.
        case a of
          Zigbee2Mqtt x \<Rightarrow> apfst Zigbee2Mqtt (op_tick (z2m_ops F J M) x now)
        | MatterNodes x \<Rightarrow> apfst MatterNodes (op_tick (matter_ops G (matter_server_ws J)) x now)
        | ZwaveNodes x \<Rightarrow> apfst ZwaveNodes (op_tick (zwave_ops (zwave_server_ws J)) x now)
        | MockDevices x \<Rightarrow> apfst MockDevices (op_tick mock_ops x now)
        | VirtualDevices x \<Rightarrow> apfst VirtualDevices (op_tick virtual_ops x now)),
      op_next_wake = (\<lambda>a now.
        case a of
          Zigbee2Mqtt x \<Rightarrow> op_next_wake (z2m_ops F J M) x now
        | MatterNodes x \<Rightarrow> op_next_wake (matter_ops G (matter_server_ws J)) x now
        | ZwaveNodes x \<Rightarrow> op_next_wake (zwave_ops (zwave_server_ws J)) x now
        | MockDevices x \<Rightarrow> op_next_wake mock_ops x now
        | VirtualDevices x \<Rightarrow> op_next_wake virtual_ops x now)\<rparr>"

definition boxed_northbound_ops :: "northbound_adapter northbound_ops" where
  "boxed_northbound_ops =
     \<lparr>nb_tick = (\<lambda>a now.
        case a of MockNb x \<Rightarrow> apfst MockNb (nb_tick mock_nb_ops x now) | Api x \<Rightarrow> apfst Api (nb_tick rest_ops x now)),
      nb_next_wake = (\<lambda>a now.
        case a of MockNb x \<Rightarrow> nb_next_wake mock_nb_ops x now | Api x \<Rightarrow> nb_next_wake rest_ops x now),
      nb_folded = (\<lambda>a d s.
        case a of MockNb x \<Rightarrow> MockNb (nb_folded mock_nb_ops x d s) | Api x \<Rightarrow> Api (nb_folded rest_ops x d s))\<rparr>"

section \<open>The registry\<close>

text \<open>A plugin whose adapters are put into a box.\<close>

definition build_boxed ::
  "('x \<Rightarrow> 'y) \<Rightarrow> ('n, 'x, mock_northbound, 'w) plugin \<Rightarrow> 'n yaml \<Rightarrow> device_def list \<Rightarrow> 'w option \<Rightarrow> 'y option" where
  "build_boxed f p config ds w = map_option f (build p config ds w)"

definition build_boxed_northbound ::
  "('n, 'x, mock_northbound, 'w) plugin \<Rightarrow> 'n yaml \<Rightarrow> device_def list \<Rightarrow> 'w option \<Rightarrow> northbound_ctx \<Rightarrow>
   northbound_adapter option" where
  "build_boxed_northbound p config ds w ctx = map_option MockNb (build_northbound p config ds w ctx)"

definition boxing ::
  "('x \<Rightarrow> 'y) \<Rightarrow> ('n, 'x, mock_northbound, 'w) plugin \<Rightarrow> ('n, 'y, northbound_adapter, 'w) plugin" where
  "boxing f p =
     \<lparr>type_tag = type_tag p, polarity = polarity p, expose_spec = expose_spec p,
      validate_config = validate_config p, validate_device = validate_device p,
      build = build_boxed f p, build_northbound = build_boxed_northbound p\<rparr>"

text \<open>The deserializers of the four configuration blocks.\<close>

record 'n block_readers =
  br_z2m :: "'n yaml \<Rightarrow> string + z2m_config"
  br_matter :: "'n yaml \<Rightarrow> string + url_config"
  br_zwave :: "'n yaml \<Rightarrow> string + url_config"
  br_mock_nb :: "'n yaml \<Rightarrow> string + expose_config"

definition all_plugins ::
  "'f json_text \<Rightarrow> 'n block_readers \<Rightarrow> (string \<Rightarrow> nat \<Rightarrow> string list \<Rightarrow> 'w option \<Rightarrow> 't) \<Rightarrow>
   ('n, ('t, 'f) protocol_adapter, northbound_adapter, 'w) plugin list" where
  "all_plugins J R mqtt =
     [boxing Zigbee2Mqtt (z2m_plugin J (br_z2m R) mqtt),
      boxing MatterNodes (matter_plugin (br_matter R) (\<lambda>url w. ws_new)),
      boxing ZwaveNodes (zwave_plugin (br_zwave R) (\<lambda>url w. ws_new)),
      boxing MockDevices mock_plugin,
      boxing MockDevices (mock_nb_plugin (br_mock_nb R)),
      boxing VirtualDevices virtual_plugin]"

section \<open>The contracts\<close>

interpretation zwave_quiet: quiet_dispatch "zwave_dispatch Z"
  by unfold_locales (auto simp: zwave_dispatch_def outcome_ok_def split: option.splits prod.splits sum.splits)

lemma quiet_in_box:
  assumes "quiet_dispatch dispatch" and "apfst f (dispatch x c t) = (a, Ok evs)" and "ev \<in> set evs"
  shows "\<not> is_timer_event ev"
  using quiet_dispatch.no_timer [OF assms(1), of x c t "fst (dispatch x c t)" evs ev] assms(2,3)
  by (cases "dispatch x c t") simp

text \<open>No adapter of the program lets a timer elapse in a dispatch.\<close>

interpretation protocols_quiet: quiet_dispatch "op_dispatch (protocol_ops F G J M)" for F G J M
proof
  fix a a' c t evs ev
  assume run: "op_dispatch (protocol_ops F G J M) a c t = (a', Ok evs)" and ev: "ev \<in> set evs"
  note box = run [unfolded protocol_ops_def z2m_ops_def matter_ops_def zwave_ops_def]
  show "\<not> is_timer_event ev"
  proof (cases a)
    case (Zigbee2Mqtt x)
    with box show ?thesis
      by (simp add: quiet_in_box [OF z2m_quiet.quiet_dispatch_axioms _ ev])
  next
    case (MatterNodes x)
    with box show ?thesis
      by (simp add: quiet_in_box [OF matter_quiet.quiet_dispatch_axioms _ ev])
  next
    case (ZwaveNodes x)
    with box show ?thesis
      by (simp add: quiet_in_box [OF zwave_quiet.quiet_dispatch_axioms _ ev])
  next
    case (MockDevices x)
    with box show ?thesis
      by (simp add: quiet_in_box [OF mock_echo.quiet_dispatch_axioms _ ev])
  next
    case (VirtualDevices x)
    with box show ?thesis
      by (simp add: quiet_in_box [OF virtual_echo.quiet_dispatch_axioms _ ev])
  qed
qed

text \<open>Every southbound plugin builds an adapter whatever its configuration block is.\<close>

lemma all_plugins_build: "plugins_build (all_plugins J R mqtt)"
  by (simp add: plugins_build_def all_plugins_def boxing_def build_boxed_def z2m_plugin_def z2m_build_def matter_plugin_def
      matter_build_def zwave_plugin_def zwave_build_def mock_plugin_def mock_nb_plugin_def virtual_plugin_def
      default_plugin_def Let_def split: prod.split)

end
