(* ===== verification/Run.thy ===== *)
theory Run
  imports Host Stderr_Log Registry
begin

text \<open>
  The normal mode of the process, from the name of a configuration file to its exit code
  (\<open>run_engine\<close> of \<open>main.rs\<close>): the file is read and compiled, the engine built, the API registered, the
  engine started, the servers bound, and then the loop runs until a signal. The wall clock at the
  start, the file system and the binding of sockets are arguments.
\<close>

section \<open>The mode\<close>

record host_world =
  hw_exists :: "string \<Rightarrow> bool"
  hw_read :: "string \<Rightarrow> string + string"
  hw_parent :: "string \<Rightarrow> string option"
  hw_health_bind :: "string \<Rightarrow> u16 \<Rightarrow> string option"
  hw_api_bind :: "string \<Rightarrow> u16 \<Rightarrow> string + string \<times> bool \<times> bool"
  hw_addrs :: "string \<Rightarrow> bool list option"

text \<open>The names the log is given, the clock's among them.\<close>

definition host_log :: "('n, 'f, 'x, 'b, 'w) compiled_config \<Rightarrow> bool \<Rightarrow> stderr_observer" where
  "host_log cfg verbose =
     with_names
       (map (\<lambda>d. (dd_id d, dd_name d)) (cc_devices cfg) @ [(cc_clock_device cfg, ''clock'')])
       (map (\<lambda>r. (r_id r, r_name r)) (cc_rules cfg))
       (map (\<lambda>s. (cs_id s, cs_name s)) (cc_scenes cfg))
       (if verbose then stderr_verbose else stderr_new)"

text \<open>The servers, in their order; each is bound on the main thread, and an error ends the process.\<close>

definition start_servers ::
  "host_world \<Rightarrow> raw_healthcheck option \<Rightarrow> raw_rest_api option \<Rightarrow> line list \<times> nat option" where
  "start_servers W hc sv =
     (case start_health (hw_health_bind W) (new_health_server hc) of
        Some e \<Rightarrow> ([Err (''failed to start healthcheck server: '' @ e)], Some 1)
      | None \<Rightarrow>
          (let ls = (case hc of
                 Some c \<Rightarrow> [Out (''healthcheck server started on '' @ hc_host c @ '':'' @ decimal (unat (hc_port c)))]
               | None \<Rightarrow> [])
           in case snd (start_api_server (hw_addrs W) (hw_api_bind W) (new_api_server sv)) of
                Inl e \<Rightarrow> (ls @ [Err (''failed to start rest_api server: '' @ e)], Some 1)
              | Inr (Some (addr, _)) \<Rightarrow> (ls @ [Out (''rest_api server started on '' @ addr)], None)
              | Inr None \<Rightarrow> (ls, None)))"

text \<open>Go on with a run of the engine that returned.\<close>

definition and_then :: "'a run option \<Rightarrow> ('a \<Rightarrow> 'b run option) \<Rightarrow> 'b run option" where
  "and_then r f =
     (case r of
        None \<Rightarrow> None
      | Some (Done a) \<Rightarrow> f a
      | Some Panicked \<Rightarrow> Some Panicked
      | Some StackOverflow \<Rightarrow> Some StackOverflow)"

definition stops :: "'e round_of list \<Rightarrow> bool" where
  "stops rs \<longleftrightarrow> list_ex (\<lambda>r. ro_stop_before r \<or> ro_stop_after r) rs"

text \<open>
  What the host prints and its exit code, if it ends in these rounds of the loop. \<open>builder\<close> is the builder at
  the wall clock of the start, with the waker; \<open>api\<close> is the northbound adapter of the API; \<open>early\<close> is what
  the threads of the adapters did before the start.
\<close>

definition run_engine ::
  "nat \<Rightarrow> ('y, 'b) vtable \<Rightarrow> host_world \<Rightarrow>
   (string \<Rightarrow> diagnostic list + ('n, 'f, 'x, 'b, 'w) compiled_config) \<Rightarrow>
   (('n, 'f, 'x, 'b, 'w) compiled_config \<Rightarrow> string \<Rightarrow> ('y, 'b) engine run) \<Rightarrow> 'b \<Rightarrow>
   (('y, 'b) engine \<Rightarrow> ('y, 'b) engine) \<Rightarrow> string \<Rightarrow> bool \<Rightarrow> ('y, 'b) engine round_of list \<Rightarrow> nat \<Rightarrow> (line list \<times> nat option) run option" where
  "run_engine n V W compile builder api early config verbose rs now =
     (case load_config (hw_exists W) (hw_read W) compile config of
        Stopped code ls \<Rightarrow> Some (Done (ls, Some code))
      | Compiled cfg ls \<Rightarrow>
          (let dir = (case hw_parent W config of Some p \<Rightarrow> p | None \<Rightarrow> ''.'') in
           and_then (Some (builder cfg dir)) (\<lambda>e.
           and_then (start n V (early (add_northbound api e))) (\<lambda>e.
             let ls = ls @ [Out (''running'' @ (if verbose then '' (verbose)'' else ''''))] in
             (case start_servers W (sc_healthcheck (cc_system cfg)) (sc_rest_api (cc_system cfg)) of
                (ls', Some code) \<Rightarrow> Some (Done (ls @ ls', Some code))
              | (ls', None) \<Rightarrow>
                  and_then (run_loop n V rs e now) (\<lambda>_.
                    Some (Done
                      (if stops rs then (ls @ ls' @ [Out ''shutting down''], Some 0) else (ls @ ls', None)))))))))"

section \<open>It runs\<close>

text \<open>What a configuration must satisfy besides compiling.\<close>

definition scene_table :: "('n, 'f, 'x, 'b, 'w) compiled_config \<Rightarrow> (scene_id, command list) hashmap" where
  "scene_table cfg = fold (\<lambda>s. hm_insert (cs_id s) (cs_commands s)) (cc_scenes cfg) []"

definition runs_with :: "nat \<Rightarrow> ('n, 'f, 'x, 'b, 'w) compiled_config \<Rightarrow> bool" where
  "runs_with n cfg \<longleftrightarrow>
     southbound_only cfg \<and> acyclic (scene_calls (scene_table cfg)) \<and> n = Suc (length (scene_table cfg))"

text \<open>The exit code.\<close>

definition exit_code ::
  "host_world \<Rightarrow> (string \<Rightarrow> diagnostic list + ('n, 'f, 'x, 'b, 'w) compiled_config) \<Rightarrow> string \<Rightarrow> 'e round_of list \<Rightarrow>
   nat option" where
  "exit_code W compile config rs =
     (if \<not> hw_exists W config then Some 2
      else
        (case hw_read W config of
           Inl _ \<Rightarrow> Some 2
         | Inr src \<Rightarrow>
             (case compile src of
                Inl _ \<Rightarrow> Some 1
              | Inr cfg \<Rightarrow>
                  if (\<exists>c. sc_healthcheck (cc_system cfg) = Some c \<and> hw_health_bind W (hc_host c) (hc_port c) \<noteq> None) \<or>
                    (\<exists>c. sc_rest_api (cc_system cfg) = Some c \<and> isl (hw_api_bind W (api_host c) (api_port c)))
                  then Some 1
                  else if stops rs then Some 0 else None)))"

lemma start_servers_code:
  "snd (start_servers W hc sv) =
    (if (\<exists>c. hc = Some c \<and> hw_health_bind W (hc_host c) (hc_port c) \<noteq> None) \<or>
       (\<exists>c. sv = Some c \<and> isl (hw_api_bind W (api_host c) (api_port c)))
     then Some 1 else None)"
  by (auto simp: start_servers_def start_health_def new_health_server_def start_api_server_def new_api_server_def bind_eq_Some_conv
      split: option.splits sum.splits)

lemma runnable_start:
  assumes "runnable n V e"
  obtains e' where "start n V e = Some (Done e')" "runnable n V e'"
proof -
  have quiet: "quiet_dispatch (op_dispatch (dev V))" and w: "wired (e_scenes e) e" and fit: "scenes_fit n (e_scenes e)"
    using assms acyclic_scenes_fit by (auto simp: runnable_def wired_def)
  have depth: "e_max_depth (tick_adapters V e) < - 1"
    using assms by (simp add: runnable_def tick_adapters_def Let_def)
  obtain f where f: "drain n V (tick_adapters V e) = Some (Done f)" "wired (e_scenes e) f"
    using drain_total [OF quiet fit wired.tick_I [OF w, of V] depth] by blast
  have "fixed_at (e_now e) e (tick_adapters V e)"
    by (simp add: fixed_at_def tick_adapters_def Let_def)
  then have "fixed_at (e_now e) e f"
    using clockwork.drain_I [OF f(1)] by blast
  with f assms have "runnable n V (sync_northbound V f)"
    by (simp add: runnable_def sync_northbound_def fixed_at_def wired_def)
  moreover from f(1) have "start n V e = Some (Done (sync_northbound V f))"
    by (simp add: start_def)
  ultimately show thesis
    by (rule that [rotated])
qed

lemma built_runnable:
  fixes L :: "('n, 'f, 'z, 'c) lib" and G :: "('f, 'z, 'o) geo"
    and cfg :: "('n, 'f, 'x, 'b, 'w) compiled_config"
    and V :: "(('x, ('t, 'z, 'c, 'd, 'o) clock) boxed, 'b) vtable"
  assumes "resolve L reg raw = Inr cfg" and "raw_ok raw" and "plugins_build reg" and "runs_with n cfg"
    and "quiet_dispatch (op_dispatch (dev V))"
  obtains e where "build_engine_full L G cfg w boot dir = Done e" "runnable n V (add_northbound api e)"
proof -
  obtain xs :: "('x, ('t, 'z, 'c, 'd, 'o) clock) boxed list" and ns slots
    where built: "build_engine_full L G cfg w boot dir =
      Done (wire cfg xs ns slots (clock_of L G boot cfg))"
    and slots: "list_all2 (\<lambda>a s. slot_ok a (Suc (length xs)) s) (cc_adapters cfg) slots"
      "list_all (\<lambda>d. dd_adapter d < length (cc_adapters cfg)) (cc_devices cfg)"
    using build_wires [OF assms(1-3)] by blast
  let ?e = "wire cfg xs ns slots (clock_of L G boot cfg) :: (('x, ('t, 'z, 'c, 'd, 'o) clock) boxed, 'b) engine"
  have "southbound_only cfg"
    using assms(4) by (simp add: runs_with_def)
  then have "engine_wf ?e"
    by (rule wire_wf [OF slots])
  with assms(4,5) have "runnable n V (add_northbound api ?e)"
    by (simp add: runnable_def runs_with_def scene_table_def add_northbound_def engine_wf_def)
      (simp add: wire_def fresh_engine_def new_engine_def)
  with built that show thesis
    by blast
qed

lemma boxed_quiet:
  assumes "quiet_dispatch (op_dispatch (dev V))"
  shows "quiet_dispatch (op_dispatch (dev (boxed_vtable V X)))"
proof -
  have "\<not> is_timer_event ev" if "snd (op_dispatch (dev V) x c t) = Ok evs" "ev \<in> set evs" for x c t evs ev
    using quiet_dispatch.no_timer [OF assms, of x c t _ evs ev] that by (metis prod.collapse)
  then show ?thesis
    by unfold_locales
      (auto simp: boxed_vtable_def boxed_dispatch_def clock_dispatch_def map_prod_def case_prod_beta split: boxed.splits)
qed

lemma run_loop_returns: "runnable n V e \<Longrightarrow> worldly rs \<Longrightarrow> \<exists>e'. run_loop n V rs e before = Some (Done e')"
  using run_loop_given by blast

text \<open>Any registry whose plugins build, and any adapters whose dispatch lets no timer elapse.\<close>

lemma run_engine_exits:
  fixes L :: "('n, 'f, 'z, 'c) lib" and G :: "('f, 'z, 'o) geo"
    and X :: "('t::linorder, 'z, 'c, 'd, 'o) chrono" and V :: "('x, 'b) vtable"
  assumes plugins: "plugins_build reg"
    and documents: "\<forall>src raw. parse_raw_config rd de src = Inr raw \<longrightarrow> raw_ok raw"
    and sound: "\<forall>src cfg. hw_read W config = Inr src \<longrightarrow> compile_str rd de L reg src = Inr cfg \<longrightarrow> runs_with n cfg"
    and quiet: "quiet_dispatch (op_dispatch (dev V))"
    and world: "worldly rs" "\<forall>e. world_step\<^sup>*\<^sup>* e (early e)"
  shows "\<exists>ls. run_engine n (boxed_vtable V X) W (compile_str rd de L reg)
      (\<lambda>cfg dir. build_engine_full L G cfg (Some w) boot dir) api early config verbose rs now =
    Some (Done (ls, exit_code W (compile_str rd de L reg) config rs))"
proof (cases "load_config (hw_exists W) (hw_read W) (compile_str rd de L reg) config")
  case (Stopped code ls)
  then have "Some code = exit_code W (compile_str rd de L reg) config rs"
    by (auto simp: load_config_def exit_code_def split: if_splits sum.splits)
  with Stopped show ?thesis
    by (simp add: run_engine_def)
next
  case (Compiled cfg ls)
  then obtain src where src: "hw_exists W config" "hw_read W config = Inr src" "compile_str rd de L reg src = Inr cfg"
    by (auto simp: load_config_def split: if_splits sum.splits)
  then obtain raw where raw: "parse_raw_config rd de src = Inr raw" "resolve L reg raw = Inr cfg"
    by (auto simp: compile_str_def split: sum.splits)
  have "raw_ok raw" and "runs_with n cfg"
    using documents sound raw(1) src by blast+
  let ?V = "boxed_vtable V X"
  obtain e where built: "build_engine_full L G cfg (Some w) boot (case hw_parent W config of Some p \<Rightarrow> p | None \<Rightarrow> ''.'') = Done e"
    and e: "runnable n ?V (add_northbound api e)"
    by (rule built_runnable [OF raw(2) \<open>raw_ok raw\<close> plugins \<open>runs_with n cfg\<close> boxed_quiet [OF quiet], of G])
  have "runnable n ?V (early (add_northbound api e))"
    using runnable_world [OF world(2) [rule_format] e] by simp
  then obtain f where started: "start n ?V (early (add_northbound api e)) = Some (Done f)" and f: "runnable n ?V f"
    by (rule runnable_start)
  obtain g where loop: "run_loop n ?V rs f now = Some (Done g)"
    using run_loop_returns [OF f world(1)] by blast
  have code: "exit_code W (compile_str rd de L reg) config rs =
      (case snd (start_servers W (sc_healthcheck (cc_system cfg)) (sc_rest_api (cc_system cfg))) of
         Some c \<Rightarrow> Some c | None \<Rightarrow> if stops rs then Some 0 else None)"
    by (simp add: exit_code_def src start_servers_code)
  show ?thesis
    unfolding code
    by (simp add: run_engine_def Compiled built started loop and_then_def Let_def case_prod_beta split: option.split)
qed

section \<open>The program\<close>


text \<open>
  A house with the virtual adapter, and no servers; a signal in the second round. Nothing it does
  reaches the JSON library or the broker.
\<close>

definition one_file :: host_world where
  "one_file =
     \<lparr>hw_exists = (\<lambda>p. p = ''config.yaml''), hw_read = (\<lambda>p. Inr ''system''), hw_parent = (\<lambda>p. Some ''''),
      hw_health_bind = (\<lambda>h p. None), hw_api_bind = (\<lambda>h p. Inr (h, True, False)), hw_addrs = (\<lambda>h. None)\<rparr>"

definition empty_blocks :: "nat block_readers" where
  "empty_blocks =
     \<lparr>br_z2m = (\<lambda>_. Inl ''''), br_matter = (\<lambda>_. Inl ''''), br_zwave = (\<lambda>_. Inl ''''), br_mock_nb = (\<lambda>_. Inl '''')\<rparr>"

definition no_json :: "unit json_text" where
  "no_json = \<lparr>sj_write = (\<lambda>v. None), sj_read = (\<lambda>b. Inl ''''), sj_display = (\<lambda>v. '''')\<rparr>"

definition house_plugins :: "(nat, (unit, unit) protocol_adapter, northbound_adapter, unit) plugin list" where
  "house_plugins = all_plugins no_json empty_blocks (\<lambda>host port topics w. ())"

definition house_raw :: "(nat, nat) raw_config" where
  "house_raw = home_raw
     \<lparr>rc_devices := [(''lamp'', home_device [''switch''] [])], rc_schedules := [], rc_rules := []\<rparr>"

lemma house_raw_ok: "raw_ok house_raw"
  by code_simp

lemma house_evaluated:
  "(case resolve home_lib house_plugins house_raw of
      Inl _ \<Rightarrow> None
    | Inr c \<Rightarrow> Some (cc_scenes c, map (is_northbound \<circ> ad_plugin) (cc_adapters c), map dd_adapter (cc_devices c))) =
   Some ([\<lparr>cs_id = SceneId 0, cs_name = ''night'', cs_commands = [SetSwitch (DeviceId 0) False]\<rparr>], [False], [0])"
  by code_simp

definition house_cfg :: "(nat, nat, (unit, unit) protocol_adapter, northbound_adapter, unit) compiled_config" where
  "house_cfg = projr (resolve home_lib house_plugins house_raw)"

lemma house_compiles: "resolve home_lib house_plugins house_raw = Inr house_cfg"
  using house_evaluated by (auto simp: house_cfg_def split: sum.splits)

lemma house_cfg_sel:
  "cc_scenes house_cfg = [\<lparr>cs_id = SceneId 0, cs_name = ''night'', cs_commands = [SetSwitch (DeviceId 0) False]\<rparr>]"
  "map (is_northbound \<circ> ad_plugin) (cc_adapters house_cfg) = [False]" "map dd_adapter (cc_devices house_cfg) = [0]"
  using house_evaluated by (simp_all add: house_compiles)

lemma resolved_system: "resolve L reg raw = Inr cfg \<Longrightarrow> cc_system cfg = system_config_of (lib_zero L) (rc_system raw)"
  by (auto simp: resolve_def Let_def split: prod.splits if_splits)

lemma house_no_servers: "sc_healthcheck (cc_system house_cfg) = None \<and> sc_rest_api (cc_system house_cfg) = None"
  using resolved_system [OF house_compiles] by (simp add: system_config_of_def house_raw_def home_raw_def)

lemma house_runs_with: "runs_with 2 house_cfg"
proof -
  have table: "scene_table house_cfg = [(SceneId 0, [SetSwitch (DeviceId 0) False])]"
    by (simp add: scene_table_def house_cfg_sel)
  then have "scene_calls (scene_table house_cfg) = {}"
    by (auto simp: scene_calls_def split: if_splits)
  moreover have "southbound_only house_cfg"
    using house_cfg_sel(2,3) by (auto simp: southbound_only_def list_all_iff map_eq_Cons_conv)
  ultimately show ?thesis
    by (simp add: runs_with_def acyclic_def) (simp add: table)
qed

definition two_rounds :: "(((unit, unit) protocol_adapter, (int, unit, string, int, unit) clock) boxed, northbound_adapter) engine round_of list" where
  "two_rounds =
     [\<lparr>ro_stop_before = False, ro_stop_after = False, ro_woke = 7900000, ro_world = id\<rparr>,
      \<lparr>ro_stop_before = False, ro_stop_after = True, ro_woke = 9000000, ro_world = id\<rparr>]"

lemma two_rounds_worldly: "worldly two_rounds"
  by (simp add: worldly_def two_rounds_def)


end
